(* ===== verification/Kscope_Prelude.thy ===== *)
theory Kscope_Prelude
  imports Main "HOL-Library.Word" "HOL-Library.Multiset"
begin

text \<open>
  Shared material of the KernelScope development: the machine-integer types of the C and
  C++ sources, little-endian byte layouts, NUL-terminated character arrays, the
  \<^verbatim>\<open>std::unordered_map\<close> operations the sources use, and the contracts of
  \<^verbatim>\<open>std::sort\<close> and \<^verbatim>\<open>std::upper_bound\<close>.
\<close>

section \<open>Machine integers\<close>

type_synonym u8 = "8 word"
type_synonym u32 = "32 word"
type_synonym u64 = "64 word"

text \<open>A signed 64-bit value is kept as its two's complement bits and read with \<open>sint\<close>.\<close>

type_synonym i64 = "64 word"
type_synonym bytes = "u8 list"

section \<open>Collections of rewrite rules\<close>

named_theorems layout_simps \<open>byte layouts: lengths, round trips\<close>
named_theorems umap_simps \<open>lookup and key sets of the hash-map operations\<close>

section \<open>Words and naturals\<close>

lemma unat_of_nat_u64: "n < 2 ^ 64 \<Longrightarrow> unat (of_nat n :: u64) = n"
  by (simp add: unat_of_nat)

lemma of_nat_le_u64:
  "a < 2 ^ 64 \<Longrightarrow> b < 2 ^ 64 \<Longrightarrow> (of_nat a :: u64) \<le> of_nat b \<longleftrightarrow> a \<le> b"
  by (simp add: word_le_nat_alt unat_of_nat)

section \<open>Running extrema\<close>

lemma if_greater_max: "(if (m :: 'a :: linorder) < v then v else m) = max v m"
  by (auto simp: max_def)

lemma if_less_min: "(if (v :: 'a :: linorder) < m then v else m) = min v m"
  by (auto simp: min_def)

section \<open>Little-endian integers\<close>

text \<open>The value of a little-endian byte string, and the \<open>n\<close> low bytes of a value.\<close>

fun le_nat :: "bytes \<Rightarrow> nat" where
  "le_nat [] = 0"
| "le_nat (b # bs) = unat b + 256 * le_nat bs"

fun le_enc :: "nat \<Rightarrow> nat \<Rightarrow> bytes" where
  "le_enc 0 x = []"
| "le_enc (Suc n) x = word_of_nat (x mod 256) # le_enc n (x div 256)"

definition put32 :: "u32 \<Rightarrow> bytes" where
  "put32 w = le_enc 4 (unat w)"

definition put64 :: "u64 \<Rightarrow> bytes" where
  "put64 w = le_enc 8 (unat w)"

text \<open>The bytes of a field: \<open>n\<close> bytes from offset \<open>off\<close>.\<close>

definition field_at :: "nat \<Rightarrow> nat \<Rightarrow> bytes \<Rightarrow> bytes" where
  "field_at off n bs = take n (drop off bs)"

definition get32 :: "nat \<Rightarrow> bytes \<Rightarrow> u32" where
  "get32 off bs = word_of_nat (le_nat (field_at off 4 bs))"

definition get64 :: "nat \<Rightarrow> bytes \<Rightarrow> u64" where
  "get64 off bs = word_of_nat (le_nat (field_at off 8 bs))"

lemma length_le_enc [simp, layout_simps]: "length (le_enc n x) = n"
  by (induction n arbitrary: x) auto

lemma length_put32 [simp, layout_simps]: "length (put32 w) = 4"
  by (simp add: put32_def)

lemma length_put64 [simp, layout_simps]: "length (put64 w) = 8"
  by (simp add: put64_def)

lemma unat_byte_of_mod: "unat (word_of_nat (x mod 256) :: u8) = x mod 256"
  by (simp add: unat_of_nat)

lemma le_nat_enc: "le_nat (le_enc n x) = x mod 256 ^ n"
proof (induction n arbitrary: x)
  case 0
  then show ?case by simp
next
  case (Suc n)
  have "x mod 256 + 256 * (x div 256 mod 256 ^ n) = x mod (256 * 256 ^ n)"
    by (metis add.commute mod_mult2_eq)
  then show ?case by (simp add: Suc.IH unat_byte_of_mod)
qed

lemma le_enc_nat: "le_enc (length bs) (le_nat bs) = bs"
proof (induction bs)
  case Nil
  then show ?case by simp
next
  case (Cons b bs)
  have "unat b < 256" using unsigned_less [of b, where ?'a = nat] by simp
  then show ?case using Cons by simp
qed

lemma le_nat_less: "le_nat bs < 256 ^ length bs"
proof (induction bs)
  case Nil
  then show ?case by simp
next
  case (Cons b bs)
  have "unat b < 256" using unsigned_less [of b, where ?'a = nat] by simp
  with Cons show ?case by simp
qed

lemma unat_mod_256_4 [simp]: "unat (w :: u32) mod 256 ^ 4 = unat w"
  using unsigned_less [of w, where ?'a = nat] by simp

lemma unat_mod_256_8 [simp]: "unat (w :: u64) mod 256 ^ 8 = unat w"
  using unsigned_less [of w, where ?'a = nat] by simp

lemma put32_inverse [layout_simps]: "word_of_nat (le_nat (put32 w)) = w"
  unfolding put32_def le_nat_enc unat_mod_256_4 by simp

lemma put64_inverse [layout_simps]: "word_of_nat (le_nat (put64 w)) = w"
  unfolding put64_def le_nat_enc unat_mod_256_8 by simp

lemma length_field_at [simp]: "off + n \<le> length bs \<Longrightarrow> length (field_at off n bs) = n"
  by (simp add: field_at_def)

text \<open>Reading a field of a concatenation: skip a whole part, or read the first one.\<close>

lemma field_at_skip [layout_simps]:
  "length xs \<le> off \<Longrightarrow> field_at off n (xs @ ys) = field_at (off - length xs) n ys"
  by (simp add: field_at_def)

lemma field_at_here [layout_simps]: "length xs = n \<Longrightarrow> field_at 0 n (xs @ ys) = xs"
  by (simp add: field_at_def)

lemma field_at_last [layout_simps]: "length xs = n \<Longrightarrow> field_at 0 n xs = xs"
  by (simp add: field_at_def)

section \<open>Character arrays\<close>

text \<open>
  A \<^verbatim>\<open>char[n]\<close> is a list of \<open>n\<close> characters. \<open>strnlen\<close> stops at the first NUL or
  at the bound; \<open>c_str\<close> is the text before the first NUL.
\<close>

fun strnlen :: "string \<Rightarrow> nat \<Rightarrow> nat" where
  "strnlen s 0 = 0"
| "strnlen [] (Suc n) = 0"
| "strnlen (c # s) (Suc n) = (if c = CHR 0x00 then 0 else Suc (strnlen s n))"

definition c_str :: "string \<Rightarrow> string" where
  "c_str s = takeWhile (\<lambda>c. c \<noteq> CHR 0x00) s"

lemma take_strnlen: "take (strnlen s n) s = c_str (take n s)"
  by (induction s n rule: strnlen.induct) (auto simp: c_str_def)

definition bytes_of_chars :: "string \<Rightarrow> bytes" where
  "bytes_of_chars s = map (\<lambda>c. word_of_nat (of_char c)) s"

definition chars_of_bytes :: "bytes \<Rightarrow> string" where
  "chars_of_bytes bs = map (\<lambda>b. char_of (unat b)) bs"

lemma length_bytes_of_chars [simp, layout_simps]: "length (bytes_of_chars s) = length s"
  by (simp add: bytes_of_chars_def)

lemma length_chars_of_bytes [simp, layout_simps]: "length (chars_of_bytes bs) = length bs"
  by (simp add: chars_of_bytes_def)

lemma chars_of_bytes_of_chars [simp, layout_simps]: "chars_of_bytes (bytes_of_chars s) = s"
  by (simp add: chars_of_bytes_def bytes_of_chars_def comp_def unat_of_nat)

section \<open>Printing numbers\<close>

text \<open>\<^verbatim>\<open>std::to_string\<close> and \<^verbatim>\<open>std::format("{:x}")\<close> on unsigned values.\<close>

definition digit_char :: "nat \<Rightarrow> char" where
  "digit_char d = (if d < 10 then char_of (48 + d) else char_of (87 + d))"

fun base_string :: "nat \<Rightarrow> nat \<Rightarrow> string" where
  "base_string b n =
     (if n < b \<or> b < 2 then [digit_char n] else base_string b (n div b) @ [digit_char (n mod b)])"

declare base_string.simps [simp del]

definition to_string :: "nat \<Rightarrow> string" where
  "to_string n = base_string 10 n"

definition hex_string :: "nat \<Rightarrow> string" where
  "hex_string n = base_string 16 n"

definition digit_value :: "char \<Rightarrow> nat" where
  "digit_value c = (let n = of_char c in if n < 58 then n - 48 else n - 87)"

definition base_value :: "nat \<Rightarrow> string \<Rightarrow> nat" where
  "base_value b s = foldl (\<lambda>acc c. b * acc + digit_value c) 0 s"

lemma digit_value_char [simp]: "d < 36 \<Longrightarrow> digit_value (digit_char d) = d"
  by (simp add: digit_value_def digit_char_def)

lemma base_value_string: "2 \<le> b \<Longrightarrow> b \<le> 36 \<Longrightarrow> base_value b (base_string b n) = n"
proof (induction b n rule: base_string.induct)
  case (1 b n)
  show ?case
  proof (cases "n < b")
    case True
    with "1.prems" show ?thesis
      by (simp add: base_string.simps [of b n] base_value_def)
  next
    case False
    with "1" have "base_value b (base_string b (n div b)) = n div b" by simp
    moreover have "n mod b < b" using "1.prems" by simp
    with "1.prems" have "n mod b < 36" by linarith
    ultimately show ?thesis using False "1.prems"
      by (simp add: base_string.simps [of b n] base_value_def)
  qed
qed

lemma to_string_inject: "to_string m = to_string n \<longleftrightarrow> m = n"
proof
  assume "to_string m = to_string n"
  then have "base_value 10 (to_string m) = base_value 10 (to_string n)" by simp
  then show "m = n" by (simp add: to_string_def base_value_string)
qed simp

lemma base_string_nonempty [simp]: "base_string b n \<noteq> []"
  by (subst base_string.simps) simp

text \<open>The line end and terminal control sequences.\<close>

definition int_string :: "int \<Rightarrow> string" where
  "int_string i = (if i < 0 then CHR ''-'' # to_string (nat (- i)) else to_string (nat i))"

definition newline :: string where "newline = [CHR 0x0A]"

definition escape_seq :: "string \<Rightarrow> string" where
  "escape_seq s = CHR 0x1B # s"

section \<open>Hash maps\<close>

text \<open>
  \<^verbatim>\<open>std::unordered_map\<close> as an association list with distinct keys. \<open>umap_upd k f d m\<close>
  is an update through \<^verbatim>\<open>m[k]\<close>: the entry is created from the value-initialised \<open>d\<close>
  when the key is new, then changed by \<open>f\<close>. The order of the list stands for no order of
  the C++ container: whatever iterates over a map takes the order as a parameter.
\<close>

type_synonym ('k, 'v) umap = "('k \<times> 'v) list"

fun umap_upd :: "'k \<Rightarrow> ('v \<Rightarrow> 'v) \<Rightarrow> 'v \<Rightarrow> ('k, 'v) umap \<Rightarrow> ('k, 'v) umap" where
  "umap_upd k f d [] = [(k, f d)]"
| "umap_upd k f d ((k', v) # m) =
     (if k' = k then (k', f v) # m else (k', v) # umap_upd k f d m)"

definition umap_wf :: "('k, 'v) umap \<Rightarrow> bool" where
  "umap_wf m \<longleftrightarrow> distinct (map fst m)"

definition umap_get :: "('k, 'v) umap \<Rightarrow> 'v \<Rightarrow> 'k \<Rightarrow> 'v" where
  "umap_get m d k = (case map_of m k of None \<Rightarrow> d | Some v \<Rightarrow> v)"

lemma map_of_umap_upd [umap_simps]:
  "map_of (umap_upd k f d m) k' = (if k' = k then Some (f (umap_get m d k)) else map_of m k')"
  by (induction m) (auto simp: umap_get_def)

lemma keys_umap_upd [umap_simps]: "fst ` set (umap_upd k f d m) = insert k (fst ` set m)"
  by (induction k f d m rule: umap_upd.induct) (simp_all add: insert_commute)

lemma umap_wf_Nil [simp]: "umap_wf []"
  by (simp add: umap_wf_def)

lemma umap_wf_upd [simp]: "umap_wf m \<Longrightarrow> umap_wf (umap_upd k f d m)"
proof (induction m)
  case Nil
  then show ?case by (simp add: umap_wf_def)
next
  case (Cons a m)
  then show ?case by (cases a) (auto simp: umap_wf_def keys_umap_upd)
qed

lemma umap_get_upd [umap_simps]:
  "umap_get (umap_upd k f d m) d k' = (if k' = k then f (umap_get m d k) else umap_get m d k')"
  by (auto simp: umap_get_def map_of_umap_upd)

lemma umap_wf_map_of: "umap_wf m \<Longrightarrow> (k, v) \<in> set m \<longleftrightarrow> map_of m k = Some v"
  by (auto simp: umap_wf_def dest: map_of_SomeD)

lemma length_umap_upd:
  "length (umap_upd k f d m) = (if map_of m k = None then Suc (length m) else length m)"
  by (induction k f d m rule: umap_upd.induct) auto

section \<open>Sorting\<close>

text \<open>
  \<^verbatim>\<open>std::sort\<close> promises, for a comparator that is a strict weak order, a permutation of
  the range in which no element is less than one before it. The order of equivalent
  elements is unspecified, so the definitions that sort take the sorter as an argument and
  their properties hold for every sorter with this contract.
\<close>

definition strict_weak :: "('a \<Rightarrow> 'a \<Rightarrow> bool) \<Rightarrow> bool" where
  "strict_weak lt \<longleftrightarrow> irreflp lt \<and> transp lt \<and>
     (\<forall>x y z. \<not> lt x y \<and> \<not> lt y z \<longrightarrow> \<not> lt x z)"

locale std_sort =
  fixes srt :: "('a \<Rightarrow> 'a \<Rightarrow> bool) \<Rightarrow> 'a list \<Rightarrow> 'a list"
  assumes sort_mset: "strict_weak lt \<Longrightarrow> mset (srt lt xs) = mset xs"
    and sort_ordered: "strict_weak lt \<Longrightarrow> sorted_wrt (\<lambda>x y. \<not> lt y x) (srt lt xs)"
begin

lemma sort_length: "strict_weak lt \<Longrightarrow> length (srt lt xs) = length xs"
  by (metis sort_mset size_mset)

lemma sort_set: "strict_weak lt \<Longrightarrow> set (srt lt xs) = set xs"
  by (metis sort_mset set_mset_mset)

text \<open>The head of a cut sorted list is not less preferred than anything behind the cut.\<close>

lemma sort_take_dominates:
  assumes "strict_weak lt" "x \<in> set (take n (srt lt xs))" "y \<in> set (drop n (srt lt xs))"
  shows "\<not> lt y x"
proof -
  have "sorted_wrt (\<lambda>x y. \<not> lt y x) (take n (srt lt xs) @ drop n (srt lt xs))"
    using sort_ordered [OF assms(1)] by simp
  with assms(2,3) show ?thesis by (auto simp: sorted_wrt_append simp del: append_take_drop_id)
qed

lemma sort_take_mset:
  "strict_weak lt \<Longrightarrow> mset (take n (srt lt xs)) + mset (drop n (srt lt xs)) = mset xs"
  by (metis append_take_drop_id mset_append sort_mset)

end

text \<open>A sorter with the contract: insertion sort.\<close>

fun insert_by :: "('a \<Rightarrow> 'a \<Rightarrow> bool) \<Rightarrow> 'a \<Rightarrow> 'a list \<Rightarrow> 'a list" where
  "insert_by lt x [] = [x]"
| "insert_by lt x (y # ys) = (if lt y x then y # insert_by lt x ys else x # y # ys)"

definition insertion_sort :: "('a \<Rightarrow> 'a \<Rightarrow> bool) \<Rightarrow> 'a list \<Rightarrow> 'a list" where
  "insertion_sort lt xs = foldr (insert_by lt) xs []"

lemma mset_insert_by: "mset (insert_by lt x ys) = add_mset x (mset ys)"
  by (induction ys) auto

lemma set_insert_by: "set (insert_by lt x ys) = insert x (set ys)"
  by (metis mset_insert_by set_mset_add_mset_insert set_mset_mset)

lemma sorted_insert_by:
  assumes "strict_weak lt" "sorted_wrt (\<lambda>x y. \<not> lt y x) ys"
  shows "sorted_wrt (\<lambda>x y. \<not> lt y x) (insert_by lt x ys)"
  using assms(2)
proof (induction ys)
  case Nil
  then show ?case by simp
next
  case (Cons y ys)
  have asym: "lt y x \<Longrightarrow> \<not> lt x y"
    using assms(1) unfolding strict_weak_def by (meson irreflpD transpD)
  have trans: "\<not> lt z y \<Longrightarrow> \<not> lt y x \<Longrightarrow> \<not> lt z x" for z
    using assms(1) unfolding strict_weak_def by blast
  show ?case using Cons asym trans by (auto simp: set_insert_by)
qed

interpretation isort: std_sort insertion_sort
proof
  fix lt :: "'a \<Rightarrow> 'a \<Rightarrow> bool" and xs
  assume sw: "strict_weak lt"
  show "mset (insertion_sort lt xs) = mset xs"
    by (induction xs) (auto simp: insertion_sort_def mset_insert_by)
  show "sorted_wrt (\<lambda>x y. \<not> lt y x) (insertion_sort lt xs)"
    by (induction xs) (auto simp: insertion_sort_def sorted_insert_by [OF sw])
qed

text \<open>Comparing by a key of a linear order, upwards or downwards, is a strict weak order.\<close>

lemma strict_weak_key [simp]: "strict_weak (\<lambda>a b. (f a :: 'b :: linorder) < f b)"
  unfolding strict_weak_def by (auto intro!: irreflpI transpI)

lemma strict_weak_key_rev [simp]: "strict_weak (\<lambda>a b. (f a :: 'b :: linorder) > f b)"
  unfolding strict_weak_def by (auto intro!: irreflpI transpI)

section \<open>Binary search\<close>

text \<open>
  \<^verbatim>\<open>std::upper_bound(first, last, a, lt)\<close> bisects: \<open>cnt\<close> elements from \<open>lo\<close>
  remain, the middle one is tested, and one half is dropped. The result is an index.
\<close>

function upper_bound_from :: "('k \<Rightarrow> 'a \<Rightarrow> bool) \<Rightarrow> 'k \<Rightarrow> 'a list \<Rightarrow> nat \<Rightarrow> nat \<Rightarrow> nat" where
  "upper_bound_from lt a xs lo cnt =
     (if cnt = 0 then lo
      else let half = cnt div 2 in
        if \<not> lt a (xs ! (lo + half))
        then upper_bound_from lt a xs (Suc (lo + half)) (cnt - Suc half)
        else upper_bound_from lt a xs lo half)"
  by pat_completeness auto
termination
  by (relation "measure (\<lambda>(lt, a, xs, lo, cnt). cnt)") auto

declare upper_bound_from.simps [simp del]

definition upper_bound :: "('k \<Rightarrow> 'a \<Rightarrow> bool) \<Rightarrow> 'k \<Rightarrow> 'a list \<Rightarrow> nat" where
  "upper_bound lt a xs = upper_bound_from lt a xs 0 (length xs)"

lemma upper_bound_from_spec:
  assumes "\<And>i j. i \<le> j \<Longrightarrow> j < length xs \<Longrightarrow> lt a (xs ! i) \<Longrightarrow> lt a (xs ! j)"
    and "lo + cnt \<le> length xs"
    and "\<And>i. i < lo \<Longrightarrow> \<not> lt a (xs ! i)"
    and "\<And>i. lo + cnt \<le> i \<Longrightarrow> i < length xs \<Longrightarrow> lt a (xs ! i)"
  shows "upper_bound_from lt a xs lo cnt \<le> length xs \<and>
    (\<forall>i < upper_bound_from lt a xs lo cnt. \<not> lt a (xs ! i)) \<and>
    (\<forall>i. upper_bound_from lt a xs lo cnt \<le> i \<and> i < length xs \<longrightarrow> lt a (xs ! i))"
  using assms
proof (induction lt a xs lo cnt rule: upper_bound_from.induct)
  case (1 lt a xs lo cnt)
  let ?half = "cnt div 2"
  show ?case
  proof (cases "cnt = 0")
    case True
    with 1(3-) show ?thesis by (auto simp: upper_bound_from.simps [of lt a xs lo 0])
  next
    case False
    then have mid: "lo + ?half < length xs" using 1(4) by linarith
    show ?thesis
    proof (cases "lt a (xs ! (lo + ?half))")
      case True
      have "lt a (xs ! i)" if "lo + ?half \<le> i" "i < length xs" for i
        using 1(3) True that by blast
      with 1(2) [OF False refl] True False 1(3-) mid show ?thesis
        by (simp add: upper_bound_from.simps [of lt a xs lo cnt] Let_def)
    next
      case notless: False
      have below: "\<not> lt a (xs ! i)" if "i < Suc (lo + ?half)" for i
        using 1(3) [of i "lo + ?half"] notless that mid by (meson less_Suc_eq_le)
      have arith: "Suc (lo + ?half) + (cnt - Suc ?half) = lo + cnt"
        using False by simp
      with 1(1) [OF False refl notless] notless False 1(3-) below show ?thesis
        by (simp add: upper_bound_from.simps [of lt a xs lo cnt] Let_def)
    qed
  qed
qed

text \<open>On a range partitioned by the comparison, the result is the partition point.\<close>

lemma upper_bound_spec:
  assumes "\<And>i j. i \<le> j \<Longrightarrow> j < length xs \<Longrightarrow> lt a (xs ! i) \<Longrightarrow> lt a (xs ! j)"
  shows "upper_bound lt a xs \<le> length xs"
    and "i < upper_bound lt a xs \<Longrightarrow> \<not> lt a (xs ! i)"
    and "upper_bound lt a xs \<le> i \<Longrightarrow> i < length xs \<Longrightarrow> lt a (xs ! i)"
  using upper_bound_from_spec [of xs lt a 0 "length xs"] assms
  unfolding upper_bound_def by auto

text \<open>In a table sorted by a key, the element before the bound is the last one at or below the value.\<close>

lemma nearest_below:
  fixes key :: "'a \<Rightarrow> 'n :: linorder"
  assumes "sorted_wrt (\<lambda>x y. \<not> key y < key x) xs"
  shows "upper_bound (\<lambda>a x. a < key x) a xs = 0 \<Longrightarrow> x \<in> set xs \<Longrightarrow> a < key x"
    and "upper_bound (\<lambda>a x. a < key x) a xs \<noteq> 0 \<Longrightarrow> xs ! (upper_bound (\<lambda>a x. a < key x) a xs - 1) \<in> set xs"
    and "upper_bound (\<lambda>a x. a < key x) a xs \<noteq> 0 \<Longrightarrow> key (xs ! (upper_bound (\<lambda>a x. a < key x) a xs - 1)) \<le> a"
    and "upper_bound (\<lambda>a x. a < key x) a xs \<noteq> 0 \<Longrightarrow> x \<in> set xs \<Longrightarrow> key x \<le> a \<Longrightarrow>
      key x \<le> key (xs ! (upper_bound (\<lambda>a x. a < key x) a xs - 1))"
proof -
  let ?u = "upper_bound (\<lambda>a x. a < key x) a xs"
  have mono: "key (xs ! i) \<le> key (xs ! j)" if "i \<le> j" "j < length xs" for i j
    using assms that by (cases "i = j") (auto simp: sorted_wrt_iff_nth_less not_less)
  have part: "a < key (xs ! j)" if "i \<le> j" "j < length xs" "a < key (xs ! i)" for i j
    using mono [OF that(1,2)] that(3) by simp
  have ub: "?u \<le> length xs" "\<And>i. i < ?u \<Longrightarrow> \<not> a < key (xs ! i)"
    "\<And>i. ?u \<le> i \<Longrightarrow> i < length xs \<Longrightarrow> a < key (xs ! i)"
    using upper_bound_spec [of xs "\<lambda>a x. a < key x" a] part by blast+
  show "a < key x" if "?u = 0" "x \<in> set xs"
    using that ub(3) by (auto simp: in_set_conv_nth)
  show "xs ! (?u - 1) \<in> set xs" "key (xs ! (?u - 1)) \<le> a" if "?u \<noteq> 0"
    using that ub(1) ub(2) [of "?u - 1"] by (auto simp: not_less)
  show "key x \<le> key (xs ! (?u - 1))" if nz: "?u \<noteq> 0" and x: "x \<in> set xs" "key x \<le> a"
  proof -
    obtain i where i: "i < length xs" "xs ! i = x" using x(1) by (auto simp: in_set_conv_nth)
    then have "i < ?u" using ub(3) [of i] x(2) by (meson not_le)
    then show ?thesis using mono [of i "?u - 1"] ub(1) nz i(2) by auto
  qed
qed

section \<open>Memo tables\<close>

text \<open>
  A table that is filled by computing what is missing: \<open>load\<close> returns the entry of a key, computing
  and keeping it first if there is none; \<open>None\<close> stands for a computation that does not return. A
  table all of whose entries are what would be computed now is coherent, and looking up in it is
  the same as computing.
\<close>

locale memo_table =
  fixes lookup :: "'c \<Rightarrow> 'k \<Rightarrow> 'v option"
    and load :: "'k \<Rightarrow> 'c \<Rightarrow> ('v \<times> 'c) option"
    and compute :: "'k \<Rightarrow> 'v option"
    and entries :: "'c \<Rightarrow> nat"
  assumes load_hit: "lookup c k = Some v \<Longrightarrow> load k c = Some (v, c)"
    and load_trap: "lookup c k = None \<Longrightarrow> compute k = None \<Longrightarrow> load k c = None"
    and load_miss: "lookup c k = None \<Longrightarrow> compute k = Some v \<Longrightarrow>
      \<exists>c'. load k c = Some (v, c') \<and> lookup c' = (lookup c)(k \<mapsto> v) \<and> entries c' = Suc (entries c)"
begin

definition coherent :: "'c \<Rightarrow> bool" where
  "coherent c \<longleftrightarrow> (\<forall>k v. lookup c k = Some v \<longrightarrow> compute k = Some v)"

lemma load_computes: "coherent c \<Longrightarrow> map_option fst (load k c) = compute k"
proof (cases "lookup c k")
  case None
  then show ?thesis using load_trap [OF None] load_miss [OF None] by (cases "compute k") auto
next
  case (Some v)
  then show "coherent c \<Longrightarrow> ?thesis" by (simp add: load_hit coherent_def)
qed

lemma load_coherent: "coherent c \<Longrightarrow> load k c = Some (v, c') \<Longrightarrow> coherent c'"
proof (cases "lookup c k")
  case None
  assume c: "coherent c" "load k c = Some (v, c')"
  then have "compute k = Some v" using load_computes [of c k] by simp
  with load_miss [OF None this] c show ?thesis by (auto simp: coherent_def)
next
  case (Some w)
  then show "coherent c \<Longrightarrow> load k c = Some (v, c') \<Longrightarrow> ?thesis" by (simp add: load_hit)
qed

lemma load_entries:
  "load k c = Some (v, c') \<Longrightarrow> entries c' \<le> Suc (entries c)"
  "load k c = Some (v, c') \<Longrightarrow> lookup c k \<noteq> None \<Longrightarrow> c' = c"
  using load_hit [of c k] load_trap [of c k] load_miss [of c k]
  by (cases "lookup c k"; cases "compute k"; fastforce)+

end

end
