(* ===== verification/Event_Model.thy ===== *)
theory Event_Model
  imports Kscope_Prelude
begin

text \<open>
  The event data model: \<^verbatim>\<open>src/core/event.hpp\<close> (the C++ \<^verbatim>\<open>Event\<close> with its two enums),
  the name tables of \<^verbatim>\<open>src/core/event_decoder.cpp\<close>, and the memory layout that the C++
  \<^verbatim>\<open>Event\<close> and the C \<^verbatim>\<open>struct event\<close> of \<^verbatim>\<open>bpf/events.h\<close> share on x86\_64.
\<close>

section \<open>Enums\<close>

text \<open>
  Both enums have the fixed underlying type \<^verbatim>\<open>uint32_t\<close>, so a \<^verbatim>\<open>static_cast\<close> of any
  32-bit value is a value of the enum. The last constructor stands for the values that
  name no enumerator.
\<close>

datatype EventType =
    EvNone | EvSyscallSlow | EvOffcpuSlice | EvLockWait | EvIoWait
  | EvProcExec | EvProcExit | EvLostSamples | EvDiag | EvOther u32

datatype LatencyClass =
    LatUnknown | LatOnCpu | LatOffCpu | LatSyscallBlocked | LatIoWait
  | LatLockWait | LatUnknownWait | LatOther u32

fun event_type_code :: "EventType \<Rightarrow> u32" where
  "event_type_code EvNone = 0"
| "event_type_code EvSyscallSlow = 1"
| "event_type_code EvOffcpuSlice = 2"
| "event_type_code EvLockWait = 3"
| "event_type_code EvIoWait = 4"
| "event_type_code EvProcExec = 5"
| "event_type_code EvProcExit = 6"
| "event_type_code EvLostSamples = 7"
| "event_type_code EvDiag = 8"
| "event_type_code (EvOther w) = w"

definition event_type_of_code :: "u32 \<Rightarrow> EventType" where
  "event_type_of_code w =
     (if w = 0 then EvNone else if w = 1 then EvSyscallSlow else if w = 2 then EvOffcpuSlice
      else if w = 3 then EvLockWait else if w = 4 then EvIoWait else if w = 5 then EvProcExec
      else if w = 6 then EvProcExit else if w = 7 then EvLostSamples else if w = 8 then EvDiag
      else EvOther w)"

fun latency_class_code :: "LatencyClass \<Rightarrow> u32" where
  "latency_class_code LatUnknown = 0"
| "latency_class_code LatOnCpu = 1"
| "latency_class_code LatOffCpu = 2"
| "latency_class_code LatSyscallBlocked = 3"
| "latency_class_code LatIoWait = 4"
| "latency_class_code LatLockWait = 5"
| "latency_class_code LatUnknownWait = 6"
| "latency_class_code (LatOther w) = w"

definition latency_class_of_code :: "u32 \<Rightarrow> LatencyClass" where
  "latency_class_of_code w =
     (if w = 0 then LatUnknown else if w = 1 then LatOnCpu else if w = 2 then LatOffCpu
      else if w = 3 then LatSyscallBlocked else if w = 4 then LatIoWait
      else if w = 5 then LatLockWait else if w = 6 then LatUnknownWait else LatOther w)"

text \<open>A value of the enum is written with its enumerator when it has one.\<close>

definition event_type_wf :: "EventType \<Rightarrow> bool" where
  "event_type_wf t \<longleftrightarrow> event_type_of_code (event_type_code t) = t"

definition latency_class_wf :: "LatencyClass \<Rightarrow> bool" where
  "latency_class_wf c \<longleftrightarrow> latency_class_of_code (latency_class_code c) = c"

lemma event_type_code_of_code [simp]: "event_type_code (event_type_of_code w) = w"
  by (simp add: event_type_of_code_def)

lemma latency_class_code_of_code [simp]: "latency_class_code (latency_class_of_code w) = w"
  by (simp add: latency_class_of_code_def)

lemma event_type_wf_of_code [simp]: "event_type_wf (event_type_of_code w)"
  by (simp add: event_type_wf_def)

lemma latency_class_wf_of_code [simp]: "latency_class_wf (latency_class_of_code w)"
  by (simp add: latency_class_wf_def)

lemma event_type_wf_enumerators [simp]:
  "event_type_wf EvNone" "event_type_wf EvSyscallSlow" "event_type_wf EvOffcpuSlice"
  "event_type_wf EvLockWait" "event_type_wf EvIoWait" "event_type_wf EvProcExec"
  "event_type_wf EvProcExit" "event_type_wf EvLostSamples" "event_type_wf EvDiag"
  by (simp_all add: event_type_wf_def event_type_of_code_def)

lemma latency_class_wf_enumerators [simp]:
  "latency_class_wf LatUnknown" "latency_class_wf LatOnCpu" "latency_class_wf LatOffCpu"
  "latency_class_wf LatSyscallBlocked" "latency_class_wf LatIoWait"
  "latency_class_wf LatLockWait" "latency_class_wf LatUnknownWait"
  by (simp_all add: latency_class_wf_def latency_class_of_code_def)

section \<open>The event\<close>

definition kCommLen :: nat where
  "kCommLen = 16"

record Event =
  ev_timestamp_ns :: u64
  ev_pid :: u32
  ev_tid :: u32
  ev_comm :: string
  ev_cpu :: u32
  ev_type :: EventType
  ev_classification :: LatencyClass
  ev_duration_ns :: u64
  ev_syscall_id :: u64
  ev_user_stack_id :: i64
  ev_kern_stack_id :: i64
  ev_flags :: u32

definition comm_str :: "Event \<Rightarrow> string" where
  "comm_str ev = take (strnlen (ev_comm ev) kCommLen) (ev_comm ev)"

definition has_user_stack :: "Event \<Rightarrow> bool" where
  "has_user_stack ev \<longleftrightarrow> and (ev_flags ev) (push_bit 0 1) \<noteq> 0"

definition has_kern_stack :: "Event \<Rightarrow> bool" where
  "has_kern_stack ev \<longleftrightarrow> and (ev_flags ev) (push_bit 1 1) \<noteq> 0"

text \<open>What the types of the C++ fields guarantee of an event.\<close>

definition event_wf :: "Event \<Rightarrow> bool" where
  "event_wf ev \<longleftrightarrow> length (ev_comm ev) = kCommLen \<and> event_type_wf (ev_type ev) \<and>
     latency_class_wf (ev_classification ev)"

lemma comm_str_c_str: "length (ev_comm ev) = kCommLen \<Longrightarrow> comm_str ev = c_str (ev_comm ev)"
  by (simp add: comm_str_def take_strnlen)

text \<open>Sample events for concrete instances: a slow \<^verbatim>\<open>read\<close> and an off-CPU slice.\<close>

definition slow_read :: "u32 \<Rightarrow> u64 \<Rightarrow> Event" where
  "slow_read pid ns = \<lparr>ev_timestamp_ns = 1000, ev_pid = pid, ev_tid = pid,
     ev_comm = ''app'' @ replicate 13 (CHR 0x00), ev_cpu = 2, ev_type = EvSyscallSlow,
     ev_classification = LatUnknown, ev_duration_ns = ns, ev_syscall_id = 0,
     ev_user_stack_id = 5, ev_kern_stack_id = - 1, ev_flags = 1\<rparr>"

definition offcpu_slice :: "u32 \<Rightarrow> u64 \<Rightarrow> Event" where
  "offcpu_slice pid ns = (slow_read pid ns)\<lparr>ev_type := EvOffcpuSlice, ev_classification := LatOffCpu\<rparr>"

lemma length_comm_samples [simp]:
  "length (ev_comm (slow_read pid ns)) = kCommLen" "length (ev_comm (offcpu_slice pid ns)) = kCommLen"
  by (simp_all add: slow_read_def offcpu_slice_def kCommLen_def)

lemma event_wf_samples [simp]: "event_wf (slow_read pid ns)" "event_wf (offcpu_slice pid ns)"
  by (simp_all add: event_wf_def slow_read_def offcpu_slice_def kCommLen_def)

section \<open>Layout\<close>

text \<open>
  Offsets on x86\_64: timestamp 0, pid 8, tid 12, comm 16, cpu 32, type 36, classification 40,
  4 bytes of padding, duration 48, syscall 56, user stack 64, kernel stack 72, flags 80, and 4
  more bytes (padding in C++, the member \<^verbatim>\<open>pad\<close> in C); the size is 88. The bytes of the
  padding are whatever memory held, so they are parameters of the encoder.
\<close>

definition sizeof_event :: nat where
  "sizeof_event = 88"

definition event_bytes :: "bytes \<Rightarrow> bytes \<Rightarrow> Event \<Rightarrow> bytes" where
  "event_bytes pad1 pad2 ev =
     put64 (ev_timestamp_ns ev) @ put32 (ev_pid ev) @ put32 (ev_tid ev) @
     bytes_of_chars (ev_comm ev) @ put32 (ev_cpu ev) @
     put32 (event_type_code (ev_type ev)) @
     put32 (latency_class_code (ev_classification ev)) @ pad1 @
     put64 (ev_duration_ns ev) @ put64 (ev_syscall_id ev) @
     put64 (ev_user_stack_id ev) @ put64 (ev_kern_stack_id ev) @
     put32 (ev_flags ev) @ pad2"

definition event_at :: "bytes \<Rightarrow> Event" where
  "event_at bs = \<lparr>
     ev_timestamp_ns = get64 0 bs,
     ev_pid = get32 8 bs,
     ev_tid = get32 12 bs,
     ev_comm = chars_of_bytes (field_at 16 kCommLen bs),
     ev_cpu = get32 32 bs,
     ev_type = event_type_of_code (get32 36 bs),
     ev_classification = latency_class_of_code (get32 40 bs),
     ev_duration_ns = get64 48 bs,
     ev_syscall_id = get64 56 bs,
     ev_user_stack_id = get64 64 bs,
     ev_kern_stack_id = get64 72 bs,
     ev_flags = get32 80 bs\<rparr>"

lemma length_event_bytes [simp]:
  "length pad1 = 4 \<Longrightarrow> length pad2 = 4 \<Longrightarrow> length (ev_comm ev) = kCommLen \<Longrightarrow>
   length (event_bytes pad1 pad2 ev) = sizeof_event"
  by (simp add: event_bytes_def kCommLen_def sizeof_event_def)

lemma event_at_bytes:
  assumes "length pad1 = 4" "length pad2 = 4" "event_wf ev"
  shows "event_at (event_bytes pad1 pad2 ev @ rest) = ev"
proof -
  have len: "length (ev_comm ev) = 16" and
    wf: "event_type_of_code (event_type_code (ev_type ev)) = ev_type ev"
      "latency_class_of_code (latency_class_code (ev_classification ev)) = ev_classification ev"
    using assms(3)
    by (simp_all add: event_wf_def kCommLen_def event_type_wf_def latency_class_wf_def)
  show ?thesis
    unfolding event_at_def event_bytes_def get32_def get64_def kCommLen_def
    by (simp add: layout_simps len assms(1,2) wf)
qed

lemma event_wf_event_at: "sizeof_event \<le> length bs \<Longrightarrow> event_wf (event_at bs)"
  by (simp add: event_wf_def event_at_def sizeof_event_def kCommLen_def)

lemma field_at_take: "off + n \<le> m \<Longrightarrow> field_at off n (take m bs) = field_at off n bs"
  by (simp add: field_at_def drop_take min_def)

lemma event_at_take: "event_at (take sizeof_event bs) = event_at bs"
  by (simp add: event_at_def get32_def get64_def kCommLen_def sizeof_event_def field_at_take)

section \<open>Names\<close>

fun event_type_name :: "EventType \<Rightarrow> string" where
  "event_type_name EvNone = ''none''"
| "event_type_name EvSyscallSlow = ''syscall_slow''"
| "event_type_name EvOffcpuSlice = ''offcpu_slice''"
| "event_type_name EvLockWait = ''lock_wait''"
| "event_type_name EvIoWait = ''io_wait''"
| "event_type_name EvProcExec = ''proc_exec''"
| "event_type_name EvProcExit = ''proc_exit''"
| "event_type_name EvLostSamples = ''lost_samples''"
| "event_type_name EvDiag = ''diag''"
| "event_type_name (EvOther w) = ''unknown''"

fun latency_class_name :: "LatencyClass \<Rightarrow> string" where
  "latency_class_name LatUnknown = ''unknown''"
| "latency_class_name LatOnCpu = ''on_cpu''"
| "latency_class_name LatOffCpu = ''off_cpu''"
| "latency_class_name LatSyscallBlocked = ''syscall_blocked''"
| "latency_class_name LatIoWait = ''io_wait''"
| "latency_class_name LatLockWait = ''lock_wait''"
| "latency_class_name LatUnknownWait = ''unknown_wait''"
| "latency_class_name (LatOther w) = ''unknown''"

text \<open>
  The table of \<^verbatim>\<open>syscall_name\<close>; \<open>None\<close> is \<^verbatim>\<open>nullptr\<close>. The names are split into
  runs of 48.
\<close>

definition syscall_names_0 :: "string list" where
  "syscall_names_0 = [
    ''read'', ''write'', ''open'', ''close'', ''stat'', ''fstat'', ''lstat'', ''poll'',
    ''lseek'', ''mmap'', ''mprotect'', ''munmap'', ''brk'', ''rt_sigaction'',
    ''rt_sigprocmask'', ''rt_sigreturn'', ''ioctl'', ''pread64'', ''pwrite64'', ''readv'',
    ''writev'', ''access'', ''pipe'', ''select'', ''sched_yield'', ''mremap'', ''msync'',
    ''mincore'', ''madvise'', ''shmget'', ''shmat'', ''shmctl'', ''dup'', ''dup2'', ''pause'',
    ''nanosleep'', ''getitimer'', ''alarm'', ''setitimer'', ''getpid'', ''sendfile'',
    ''socket'', ''connect'', ''accept'', ''sendto'', ''recvfrom'', ''sendmsg'', ''recvmsg'']"

definition syscall_names_1 :: "string list" where
  "syscall_names_1 = [
    ''shutdown'', ''bind'', ''listen'', ''getsockname'', ''getpeername'', ''socketpair'',
    ''setsockopt'', ''getsockopt'', ''clone'', ''fork'', ''vfork'', ''execve'', ''exit'',
    ''wait4'', ''kill'', ''uname'', ''semget'', ''semop'', ''semctl'', ''shmdt'', ''msgget'',
    ''msgsnd'', ''msgrcv'', ''msgctl'', ''fcntl'', ''flock'', ''fsync'', ''fdatasync'',
    ''truncate'', ''ftruncate'', ''getdents'', ''getcwd'', ''chdir'', ''fchdir'', ''rename'',
    ''mkdir'', ''rmdir'', ''creat'', ''link'', ''unlink'', ''symlink'', ''readlink'',
    ''chmod'', ''fchmod'', ''chown'', ''fchown'', ''lchown'', ''umask'']"

definition syscall_names_2 :: "string list" where
  "syscall_names_2 = [
    ''gettimeofday'', ''getrlimit'', ''getrusage'', ''sysinfo'', ''times'', ''ptrace'',
    ''getuid'', ''syslog'', ''getgid'', ''setuid'', ''setgid'', ''geteuid'', ''getegid'',
    ''setpgid'', ''getppid'', ''getpgrp'', ''setsid'', ''setreuid'', ''setregid'',
    ''getgroups'', ''setgroups'', ''setresuid'', ''getresuid'', ''setresgid'', ''getresgid'',
    ''getpgid'', ''setfsuid'', ''setfsgid'', ''getsid'', ''capget'', ''capset'',
    ''rt_sigpending'', ''rt_sigtimedwait'', ''rt_sigqueueinfo'', ''rt_sigsuspend'',
    ''sigaltstack'', ''utime'', ''mknod'', ''uselib'', ''personality'', ''ustat'', ''statfs'',
    ''fstatfs'', ''sysfs'', ''getpriority'', ''setpriority'', ''sched_setparam'',
    ''sched_getparam'']"

definition syscall_names_3 :: "string list" where
  "syscall_names_3 = [
    ''sched_setscheduler'', ''sched_getscheduler'', ''sched_get_priority_max'',
    ''sched_get_priority_min'', ''sched_rr_get_interval'', ''mlock'', ''munlock'',
    ''mlockall'', ''munlockall'', ''vhangup'', ''modify_ldt'', ''pivot_root'', ''_sysctl'',
    ''prctl'', ''arch_prctl'', ''adjtimex'', ''setrlimit'', ''chroot'', ''sync'', ''acct'',
    ''settimeofday'', ''mount'', ''umount2'', ''swapon'', ''swapoff'', ''reboot'',
    ''sethostname'', ''setdomainname'', ''iopl'', ''ioperm'', ''create_module'',
    ''init_module'', ''delete_module'', ''get_kernel_syms'', ''query_module'', ''quotactl'',
    ''nfsservctl'', ''getpmsg'', ''putpmsg'', ''afs_syscall'', ''tuxcall'', ''security'',
    ''gettid'', ''readahead'', ''setxattr'', ''lsetxattr'', ''fsetxattr'', ''getxattr'']"

definition syscall_names_4 :: "string list" where
  "syscall_names_4 = [
    ''lgetxattr'', ''fgetxattr'', ''listxattr'', ''llistxattr'', ''flistxattr'',
    ''removexattr'', ''lremovexattr'', ''fremovexattr'', ''tkill'', ''time'', ''futex'',
    ''sched_setaffinity'', ''sched_getaffinity'', ''set_thread_area'', ''io_setup'',
    ''io_destroy'', ''io_getevents'', ''io_submit'', ''io_cancel'', ''get_thread_area'',
    ''lookup_dcookie'', ''epoll_create'', ''epoll_ctl_old'', ''epoll_wait_old'',
    ''remap_file_pages'', ''getdents64'', ''set_tid_address'', ''restart_syscall'',
    ''semtimedop'', ''fadvise64'', ''timer_create'', ''timer_settime'', ''timer_gettime'',
    ''timer_getoverrun'', ''timer_delete'', ''clock_settime'', ''clock_gettime'',
    ''clock_getres'', ''clock_nanosleep'', ''exit_group'', ''epoll_wait'', ''epoll_ctl'',
    ''tgkill'', ''utimes'', ''vserver'', ''mbind'', ''set_mempolicy'', ''get_mempolicy'']"

definition syscall_names_5 :: "string list" where
  "syscall_names_5 = [
    ''mq_open'', ''mq_unlink'', ''mq_timedsend'', ''mq_timedreceive'', ''mq_notify'',
    ''mq_getsetattr'', ''kexec_load'', ''waitid'', ''add_key'', ''request_key'', ''keyctl'',
    ''ioprio_set'', ''ioprio_get'', ''inotify_init'', ''inotify_add_watch'',
    ''inotify_rm_watch'', ''migrate_pages'', ''openat'', ''mkdirat'', ''mknodat'',
    ''fchownat'', ''futimesat'', ''newfstatat'', ''unlinkat'', ''renameat'', ''linkat'',
    ''symlinkat'', ''readlinkat'', ''fchmodat'', ''faccessat'', ''pselect6'', ''ppoll'',
    ''unshare'', ''set_robust_list'', ''get_robust_list'', ''splice'', ''tee'',
    ''sync_file_range'', ''vmsplice'', ''move_pages'', ''utimensat'', ''epoll_pwait'',
    ''signalfd'', ''timerfd_create'', ''eventfd'', ''fallocate'', ''timerfd_settime'',
    ''timerfd_gettime'']"

definition syscall_names_6 :: "string list" where
  "syscall_names_6 = [
    ''accept4'', ''signalfd4'', ''eventfd2'', ''epoll_create1'', ''dup3'', ''pipe2'',
    ''inotify_init1'', ''preadv'', ''pwritev'', ''rt_tgsigqueueinfo'', ''perf_event_open'',
    ''recvmmsg'', ''fanotify_init'', ''fanotify_mark'', ''prlimit64'', ''name_to_handle_at'',
    ''open_by_handle_at'', ''clock_adjtime'', ''syncfs'', ''sendmmsg'', ''setns'', ''getcpu'',
    ''process_vm_readv'', ''process_vm_writev'', ''kcmp'', ''finit_module'', ''sched_setattr'',
    ''sched_getattr'', ''renameat2'', ''seccomp'', ''getrandom'', ''memfd_create'',
    ''kexec_file_load'', ''bpf'', ''execveat'', ''userfaultfd'', ''membarrier'', ''mlock2'',
    ''copy_file_range'', ''preadv2'', ''pwritev2'', ''pkey_mprotect'', ''pkey_alloc'',
    ''pkey_free'', ''statx'', ''io_pgetevents'', ''rseq'']"

definition syscall_names_late :: "string list" where
  "syscall_names_late = [
    ''pidfd_send_signal'', ''io_uring_setup'', ''io_uring_enter'', ''io_uring_register'',
    ''open_tree'', ''move_mount'', ''fsopen'', ''fsconfig'', ''fsmount'', ''fspick'',
    ''pidfd_open'', ''clone3'', ''close_range'', ''openat2'', ''pidfd_getfd'', ''faccessat2'',
    ''process_madvise'', ''epoll_pwait2'', ''mount_setattr'', ''quotactl_fd'',
    ''landlock_create_ruleset'', ''landlock_add_rule'', ''landlock_restrict_self'',
    ''memfd_secret'', ''process_mrelease'', ''futex_waitv'', ''set_mempolicy_home_node'',
    ''cachestat'', ''fchmodat2'', ''map_shadow_stack'', ''futex_wake'', ''futex_wait'',
    ''futex_requeue'', ''statmount'', ''listmount'', ''lsm_get_self_attr'',
    ''lsm_set_self_attr'', ''lsm_list_modules'']"

definition syscall_names_early :: "string list" where
  "syscall_names_early =
     syscall_names_0 @ syscall_names_1 @ syscall_names_2 @ syscall_names_3 @
     syscall_names_4 @ syscall_names_5 @ syscall_names_6"

definition syscall_table :: "string option list" where
  "syscall_table =
     map Some syscall_names_early @ replicate 80 None @ map Some syscall_names_late"

definition syscall_name :: "u64 \<Rightarrow> string" where
  "syscall_name i =
     (if unat i < length syscall_table \<and> syscall_table ! unat i \<noteq> None
      then the (syscall_table ! unat i)
      else ''sys_'' @ to_string (unat i))"

lemma length_syscall_names:
  "length syscall_names_0 = 48"
  "length syscall_names_1 = 48"
  "length syscall_names_2 = 48"
  "length syscall_names_3 = 48"
  "length syscall_names_4 = 48"
  "length syscall_names_5 = 48"
  "length syscall_names_6 = 47"
  "length syscall_names_late = 38"
  by (simp_all add: syscall_names_0_def syscall_names_1_def syscall_names_2_def syscall_names_3_def syscall_names_4_def syscall_names_5_def syscall_names_6_def
    syscall_names_late_def)

lemma length_syscall_names_early: "length syscall_names_early = 335"
  by (simp add: syscall_names_early_def length_syscall_names)

lemma length_syscall_table: "length syscall_table = 453"
  by (simp add: syscall_table_def length_syscall_names length_syscall_names_early)

text \<open>The three zones of the table: names from 0, the gap, names after the gap.\<close>

lemma syscall_table_gap: "335 \<le> i \<Longrightarrow> i < 415 \<Longrightarrow> syscall_table ! i = None"
  using nth_replicate [of "i - 335" 80 None]
  by (simp add: syscall_table_def length_syscall_names_early nth_append less_diff_conv2)

lemma syscall_table_late:
  "415 \<le> i \<Longrightarrow> i < 453 \<Longrightarrow> syscall_table ! i = Some (syscall_names_late ! (i - 415))"
  by (simp add: syscall_table_def length_syscall_names length_syscall_names_early nth_append
      less_diff_conv2)

lemma syscall_table_early:
  "i < 335 \<Longrightarrow> syscall_table ! i = Some (syscall_names_early ! i)"
  by (simp add: syscall_table_def length_syscall_names_early nth_append)

end
