(* ===== verification/Classifications.thy ===== *)
theory Classifications
  imports Event_Model
begin

text \<open>
  The latency classifier, \<^verbatim>\<open>src/core/classifications.cpp\<close>: the syscall taxonomy and the
  class of an event. The lemmas give the exact condition under which each class is assigned.
\<close>

datatype SyscallGroup =
    FileIO | Sync | Network | Lock | Process | Memory | Signal | OtherGroup

definition syscall_group :: "u64 \<Rightarrow> SyscallGroup" where
  "syscall_group i =
     (if i \<in> {0, 1, 2, 3, 5, 8, 17, 18, 257, 262} then FileIO
      else if i \<in> {74, 75} then Sync
      else if i \<in> {41, 42, 43, 44, 45, 46, 47, 49, 50, 288} then Network
      else if i = 202 then Lock
      else if i \<in> {56, 57, 59, 61} then Process
      else if i \<in> {9, 10, 11, 12} then Memory
      else OtherGroup)"

definition classify_event :: "Event \<Rightarrow> LatencyClass" where
  "classify_event ev =
     (if ev_type ev = EvOffcpuSlice then LatOffCpu
      else if ev_type ev = EvSyscallSlow then
        (case syscall_group (ev_syscall_id ev) of
           Lock \<Rightarrow> LatLockWait
         | FileIO \<Rightarrow> LatIoWait
         | Sync \<Rightarrow> LatIoWait
         | Network \<Rightarrow> LatIoWait
         | _ \<Rightarrow> LatSyscallBlocked)
      else LatUnknown)"

text \<open>
  The live pipeline's callback step: copy the event and overwrite its classification
  (\<^verbatim>\<open>c.classification = classify_event(ev)\<close> in every \<^verbatim>\<open>set_callback\<close> of
  \<^verbatim>\<open>src/cli/commands.cpp\<close> and \<^verbatim>\<open>src/tui/app.cpp\<close>).
\<close>

definition classified :: "Event \<Rightarrow> Event" where
  "classified ev = ev\<lparr>ev_classification := classify_event ev\<rparr>"

lemma syscall_group_Lock [simp]: "syscall_group i = Lock \<longleftrightarrow> i = 202"
  by (auto simp: syscall_group_def)

lemma classify_event_wf [simp]: "latency_class_wf (classify_event ev)"
  by (simp add: classify_event_def split: SyscallGroup.split)

lemma classify_event_ignores_class [simp]:
  "classify_event (ev\<lparr>ev_classification := c\<rparr>) = classify_event ev"
  by (simp add: classify_event_def)

lemma event_wf_classified [simp]: "event_wf ev \<Longrightarrow> event_wf (classified ev)"
  by (simp add: classified_def event_wf_def)

lemma classified_idem [simp]: "classified (classified ev) = classified ev"
  by (simp add: classified_def)

lemma classified_sel [simp]:
  "ev_timestamp_ns (classified ev) = ev_timestamp_ns ev" "ev_pid (classified ev) = ev_pid ev"
  "ev_tid (classified ev) = ev_tid ev" "ev_comm (classified ev) = ev_comm ev"
  "ev_type (classified ev) = ev_type ev" "ev_duration_ns (classified ev) = ev_duration_ns ev"
  "ev_syscall_id (classified ev) = ev_syscall_id ev"
  "ev_user_stack_id (classified ev) = ev_user_stack_id ev"
  "ev_kern_stack_id (classified ev) = ev_kern_stack_id ev"
  "ev_flags (classified ev) = ev_flags ev" "comm_str (classified ev) = comm_str ev"
  by (simp_all add: classified_def comm_str_def)

text \<open>
  The exact condition for each class; no event is ever classified \<^verbatim>\<open>on_cpu\<close> or \<^verbatim>\<open>unknown_wait\<close>, and events
  of type \<^verbatim>\<open>lock_wait\<close> or \<^verbatim>\<open>io_wait\<close> stay \<^verbatim>\<open>unknown\<close>.
\<close>

lemma classify_event_exact:
  "(classify_event ev = LatOffCpu \<longleftrightarrow> ev_type ev = EvOffcpuSlice) \<and>
   (classify_event ev = LatLockWait \<longleftrightarrow> ev_type ev = EvSyscallSlow \<and> ev_syscall_id ev = 202) \<and>
   (classify_event ev = LatIoWait \<longleftrightarrow> ev_type ev = EvSyscallSlow \<and>
      ev_syscall_id ev \<in> {0, 1, 2, 3, 5, 8, 17, 18, 257, 262} \<union> {74, 75} \<union>
        {41, 42, 43, 44, 45, 46, 47, 49, 50, 288}) \<and>
   (classify_event ev = LatUnknown \<longleftrightarrow> ev_type ev \<noteq> EvOffcpuSlice \<and> ev_type ev \<noteq> EvSyscallSlow) \<and>
   classify_event ev \<in> {LatOffCpu, LatLockWait, LatIoWait, LatSyscallBlocked, LatUnknown}"
proof (cases "ev_type ev = EvSyscallSlow")
  case True
  then have "classify_event ev = (case syscall_group (ev_syscall_id ev) of
      Lock \<Rightarrow> LatLockWait | FileIO \<Rightarrow> LatIoWait | Sync \<Rightarrow> LatIoWait
    | Network \<Rightarrow> LatIoWait | _ \<Rightarrow> LatSyscallBlocked)"
    by (simp add: classify_event_def)
  with True show ?thesis by (simp add: syscall_group_def)
next
  case False
  then show ?thesis by (simp add: classify_event_def)
qed

end
