(* ===== verification/Bpf_Programs.thy ===== *)
theory Bpf_Programs
  imports Event_Model
begin

text \<open>
  The BPF side: \<^verbatim>\<open>bpf/maps.h\<close> (maps and constants), \<^verbatim>\<open>bpf/filters.h\<close> (filters and common
  fields) and \<^verbatim>\<open>bpf/kscope.bpf.c\<close> (the five tracepoint handlers). The state is the contents of
  the two hash maps and the records submitted to the ring buffer, oldest first. What the kernel's
  helpers return while a handler runs (clock, random number, current task, stack ids, whether
  the ring buffer has room) is an argument of the handler, so every theorem holds for every kernel
  behaviour.
\<close>

section \<open>Data\<close>

record task_key =
  tk_pid :: u32
  tk_tid :: u32

record active_syscall =
  as_id :: u64
  as_start_ns :: u64
  as_user_stack_id :: i64
  as_kern_stack_id :: i64
  as_flags :: u32

record kscope_sched_state =
  sc_switch_out_ns :: u64
  sc_switch_in_ns :: u64
  sc_accumulated_offcpu_ns :: u64
  sc_last_state :: u32

definition MAX_ACTIVE_SYSCALLS :: nat where
  "MAX_ACTIVE_SYSCALLS = 65536"

definition MAX_SCHED_ENTRIES :: nat where
  "MAX_SCHED_ENTRIES = 65536"

definition EVF_HAS_USER_STACK :: u32 where
  "EVF_HAS_USER_STACK = push_bit 0 1"

definition EVF_HAS_KERN_STACK :: u32 where
  "EVF_HAS_KERN_STACK = push_bit 1 1"

text \<open>The constants user space writes before the programs are loaded.\<close>

record BpfRodata =
  ro_target_pid :: u32
  ro_min_latency_ns :: u64
  ro_min_offcpu_ns :: u64
  ro_capture_user_stacks :: u32
  ro_capture_kern_stacks :: u32
  ro_stack_sampling_pct :: u32
  ro_pidns_dev :: u32
  ro_pidns_ino :: u32
  ro_target_comm :: string

definition rodata_default :: BpfRodata where
  "rodata_default = \<lparr>ro_target_pid = 0, ro_min_latency_ns = 100000, ro_min_offcpu_ns = 1000000,
     ro_capture_user_stacks = 1, ro_capture_kern_stacks = 0, ro_stack_sampling_pct = 100,
     ro_pidns_dev = 0, ro_pidns_ino = 0, ro_target_comm = replicate 16 (CHR 0x00)\<rparr>"

record BpfState =
  active_syscalls :: "(task_key, active_syscall) umap"
  sched_states :: "(task_key, kscope_sched_state) umap"
  events :: "Event list"

definition BpfState_init :: BpfState where
  "BpfState_init = \<lparr>active_syscalls = [], sched_states = [], events = []\<rparr>"

text \<open>
  What the helpers return during one invocation: the pid and tid in the configured namespace, if
  the helper succeeds; the packed global ids; the successive clock readings; and so on.
  \<open>he_slot_comm\<close> is what a reserved ring buffer slot happens to hold where the name goes.
\<close>

record Helpers =
  he_ns_pid_tgid :: "(u32 \<times> u32) option"
  he_pid_tgid :: u64
  he_ktime :: "nat \<Rightarrow> u64"
  he_cpu :: u32
  he_comm :: string
  he_prandom :: u32
  he_user_stackid :: i64
  he_kern_stackid :: i64
  he_reserve :: bool
  he_slot_comm :: string

section \<open>Hash maps with a bound\<close>

text \<open>
  \<^verbatim>\<open>bpf_map_update_elem\<close> with \<^verbatim>\<open>BPF_ANY\<close>: it replaces the value of a present key and refuses a
  new key when the map is full; the programs ignore the result.
\<close>

definition bpf_map_update_elem :: "nat \<Rightarrow> 'k \<Rightarrow> 'v \<Rightarrow> ('k, 'v) umap \<Rightarrow> ('k, 'v) umap" where
  "bpf_map_update_elem max_entries k v m =
     (if map_of m k = None \<and> max_entries \<le> length m then m else umap_upd k (\<lambda>_. v) v m)"

definition bpf_map_lookup_elem :: "('k, 'v) umap \<Rightarrow> 'k \<Rightarrow> 'v option" where
  "bpf_map_lookup_elem m k = map_of m k"

definition bpf_map_delete_elem :: "'k \<Rightarrow> ('k, 'v) umap \<Rightarrow> ('k, 'v) umap" where
  "bpf_map_delete_elem k m = filter (\<lambda>e. fst e \<noteq> k) m"

text \<open>Writing through the pointer a lookup returned: an update in place.\<close>

definition bpf_map_write :: "'k \<Rightarrow> 'v \<Rightarrow> ('k, 'v) umap \<Rightarrow> ('k, 'v) umap" where
  "bpf_map_write k v m = umap_upd k (\<lambda>_. v) v m"

section \<open>Filters\<close>

definition filter_pid :: "BpfRodata \<Rightarrow> u32 \<Rightarrow> bool" where
  "filter_pid ro pid = (if ro_target_pid ro = 0 then True else pid = ro_target_pid ro)"

text \<open>The comparison loop over the two 16-byte arrays.\<close>

fun comm_matches :: "string \<Rightarrow> string \<Rightarrow> bool" where
  "comm_matches (t # ts) (c # cs) =
     (if t \<noteq> c then False else if t = CHR 0x00 then True else comm_matches ts cs)"
| "comm_matches ts cs = True"

definition filter_comm :: "BpfRodata \<Rightarrow> string \<Rightarrow> bool" where
  "filter_comm ro comm =
     (if ro_target_comm ro ! 0 = CHR 0x00 then True
      else comm_matches (take kCommLen (ro_target_comm ro)) (take kCommLen comm))"

definition should_capture_stack :: "BpfRodata \<Rightarrow> Helpers \<Rightarrow> bool" where
  "should_capture_stack ro h =
     (if ro_stack_sampling_pct ro \<ge> 100 then True
      else if ro_stack_sampling_pct ro = 0 then False
      else he_prandom h mod 100 < ro_stack_sampling_pct ro)"

definition get_ns_pid_tgid :: "BpfRodata \<Rightarrow> Helpers \<Rightarrow> u32 \<times> u32" where
  "get_ns_pid_tgid ro h =
     (case (if ro_pidns_dev ro \<noteq> 0 \<and> ro_pidns_ino ro \<noteq> 0 then he_ns_pid_tgid h else None) of
        Some (tgid, pid) \<Rightarrow> (tgid, pid)
      | None \<Rightarrow> (ucast (drop_bit 32 (he_pid_tgid h)), ucast (he_pid_tgid h)))"

definition fill_task_key :: "BpfRodata \<Rightarrow> Helpers \<Rightarrow> task_key" where
  "fill_task_key ro h =
     \<lparr>tk_pid = fst (get_ns_pid_tgid ro h), tk_tid = snd (get_ns_pid_tgid ro h)\<rparr>"

text \<open>
  The common fields; the caller gives the remaining ones. \<open>i\<close> is the number of clock readings
  the handler has made before.
\<close>

definition fill_event_common ::
  "BpfRodata \<Rightarrow> Helpers \<Rightarrow> nat \<Rightarrow> EventType \<Rightarrow> u64 \<Rightarrow> u64 \<Rightarrow> Event" where
  "fill_event_common ro h i type duration_ns syscall_id = \<lparr>
     ev_timestamp_ns = he_ktime h i,
     ev_pid = fst (get_ns_pid_tgid ro h),
     ev_tid = snd (get_ns_pid_tgid ro h),
     ev_comm = he_comm h,
     ev_cpu = he_cpu h,
     ev_type = type,
     ev_classification = LatUnknown,
     ev_duration_ns = duration_ns,
     ev_syscall_id = syscall_id,
     ev_user_stack_id = - 1,
     ev_kern_stack_id = - 1,
     ev_flags = 0\<rparr>"

section \<open>Handlers\<close>

text \<open>\<^verbatim>\<open>bpf_ringbuf_reserve\<close>, the writes of the handler, \<^verbatim>\<open>bpf_ringbuf_submit\<close>.\<close>

definition submit :: "Helpers \<Rightarrow> Event \<Rightarrow> BpfState \<Rightarrow> BpfState" where
  "submit h e st = (if he_reserve h then st\<lparr>events := events st @ [e]\<rparr> else st)"

text \<open>The entry \<^verbatim>\<open>tp_sys_enter\<close> stores for a syscall.\<close>

definition syscall_entry_value :: "BpfRodata \<Rightarrow> Helpers \<Rightarrow> i64 \<Rightarrow> active_syscall" where
  "syscall_entry_value ro h nr =
     (if should_capture_stack ro h then
        let user = (if ro_capture_user_stacks ro \<noteq> 0 then he_user_stackid h else - 1);
            kern = (if ro_capture_kern_stacks ro \<noteq> 0 then he_kern_stackid h else - 1) in
        \<lparr>as_id = nr, as_start_ns = he_ktime h 0, as_user_stack_id = user, as_kern_stack_id = kern,
         as_flags = or (if sint user \<ge> 0 then EVF_HAS_USER_STACK else 0)
                       (if sint kern \<ge> 0 then EVF_HAS_KERN_STACK else 0)\<rparr>
      else
        \<lparr>as_id = nr, as_start_ns = he_ktime h 0, as_user_stack_id = - 1, as_kern_stack_id = - 1,
         as_flags = 0\<rparr>)"

definition tp_sys_enter :: "BpfRodata \<Rightarrow> Helpers \<Rightarrow> i64 \<Rightarrow> BpfState \<Rightarrow> BpfState" where
  "tp_sys_enter ro h nr st =
     (let key = fill_task_key ro h in
      if \<not> filter_pid ro (tk_pid key) then st
      else if \<not> filter_comm ro (he_comm h) then st
      else st\<lparr>active_syscalls := bpf_map_update_elem MAX_ACTIVE_SYSCALLS key
                (syscall_entry_value ro h nr) (active_syscalls st)\<rparr>)"

definition tp_sys_exit :: "BpfRodata \<Rightarrow> Helpers \<Rightarrow> BpfState \<Rightarrow> BpfState" where
  "tp_sys_exit ro h st =
     (let key = fill_task_key ro h in
      case bpf_map_lookup_elem (active_syscalls st) key of
        None \<Rightarrow> st
      | Some entry \<Rightarrow>
          let now = he_ktime h 0;
              delta_ns = now - as_start_ns entry;
              st' = (if delta_ns \<ge> ro_min_latency_ns ro
                     then submit h ((fill_event_common ro h 1 EvSyscallSlow delta_ns (as_id entry))
                            \<lparr>ev_timestamp_ns := now,
                             ev_user_stack_id := as_user_stack_id entry,
                             ev_kern_stack_id := as_kern_stack_id entry,
                             ev_flags := as_flags entry\<rparr>) st
                     else st) in
          st'\<lparr>active_syscalls := bpf_map_delete_elem key (active_syscalls st')\<rparr>)"

definition sched_state_zero :: kscope_sched_state where
  "sched_state_zero = \<lparr>sc_switch_out_ns = 0, sc_switch_in_ns = 0, sc_accumulated_offcpu_ns = 0,
     sc_last_state = 0\<rparr>"

text \<open>
  \<^verbatim>\<open>bpf_probe_read_kernel_str\<close> into an array of 16: the string with its terminator, cut to the
  array with a forced terminator; the bytes behind the terminator keep what the slot held.
\<close>

definition probe_read_kernel_str :: "string \<Rightarrow> string \<Rightarrow> string" where
  "probe_read_kernel_str slot src =
     (let s = take (kCommLen - 1) (c_str src) @ [CHR 0x00] in s @ drop (length s) slot)"

definition switch_out :: "BpfRodata \<Rightarrow> Helpers \<Rightarrow> u32 \<Rightarrow> i64 \<Rightarrow> BpfState \<Rightarrow> BpfState" where
  "switch_out ro h prev_tid prev_state st =
     (let prev_key = \<lparr>tk_pid = prev_tid, tk_tid = prev_tid\<rparr> in
      if filter_pid ro prev_tid then
        let existing = (case bpf_map_lookup_elem (sched_states st) prev_key of
                          Some s \<Rightarrow> s | None \<Rightarrow> sched_state_zero);
            new_state = existing\<lparr>sc_switch_out_ns := he_ktime h 0, sc_last_state := ucast prev_state\<rparr> in
        st\<lparr>sched_states := bpf_map_update_elem MAX_SCHED_ENTRIES prev_key new_state (sched_states st)\<rparr>
      else st)"

text \<open>\<open>i\<close> is 1 if the first half has read the clock, else 0.\<close>

definition switch_in :: "BpfRodata \<Rightarrow> Helpers \<Rightarrow> nat \<Rightarrow> u32 \<Rightarrow> string \<Rightarrow> BpfState \<Rightarrow> BpfState" where
  "switch_in ro h i next_tid next_comm st =
     (let next_key = \<lparr>tk_pid = next_tid, tk_tid = next_tid\<rparr> in
      if filter_pid ro next_tid then
        (case bpf_map_lookup_elem (sched_states st) next_key of
           None \<Rightarrow> st
         | Some state \<Rightarrow>
             if sc_switch_out_ns state > 0 then
               let now = he_ktime h i;
                   offcpu_ns = now - sc_switch_out_ns state;
                   st' = (if offcpu_ns \<ge> ro_min_offcpu_ns ro
                          then submit h \<lparr>
                            ev_timestamp_ns = now, ev_pid = next_tid, ev_tid = next_tid,
                            ev_comm = probe_read_kernel_str (he_slot_comm h) next_comm,
                            ev_cpu = he_cpu h, ev_type = EvOffcpuSlice,
                            ev_classification = LatOffCpu, ev_duration_ns = offcpu_ns,
                            ev_syscall_id = 0, ev_user_stack_id = - 1, ev_kern_stack_id = - 1,
                            ev_flags = 0\<rparr> st
                          else st) in
               st'\<lparr>sched_states := bpf_map_write next_key
                     (state\<lparr>sc_switch_in_ns := now,
                            sc_accumulated_offcpu_ns := sc_accumulated_offcpu_ns state + offcpu_ns,
                            sc_switch_out_ns := 0\<rparr>) (sched_states st')\<rparr>
             else st)
      else st)"

definition tp_sched_switch ::
  "BpfRodata \<Rightarrow> Helpers \<Rightarrow> u32 \<Rightarrow> i64 \<Rightarrow> u32 \<Rightarrow> string \<Rightarrow> BpfState \<Rightarrow> BpfState" where
  "tp_sched_switch ro h prev_tid prev_state next_tid next_comm st =
     switch_in ro h (if filter_pid ro prev_tid then 1 else 0) next_tid next_comm
       (switch_out ro h prev_tid prev_state st)"

definition tp_sched_process_exec :: "BpfRodata \<Rightarrow> Helpers \<Rightarrow> BpfState \<Rightarrow> BpfState" where
  "tp_sched_process_exec ro h st =
     (let key = fill_task_key ro h in
      if \<not> filter_pid ro (tk_pid key) then st
      else submit h (fill_event_common ro h 0 EvProcExec 0 0) st)"

definition tp_sched_process_exit :: "BpfRodata \<Rightarrow> Helpers \<Rightarrow> BpfState \<Rightarrow> BpfState" where
  "tp_sched_process_exit ro h st =
     (let key = fill_task_key ro h;
          st' = st\<lparr>active_syscalls := bpf_map_delete_elem key (active_syscalls st),
                   sched_states := bpf_map_delete_elem key (sched_states st)\<rparr> in
      if \<not> filter_pid ro (tk_pid key) then st'
      else submit h (fill_event_common ro h 0 EvProcExit 0 0) st')"

section \<open>Runs\<close>

text \<open>
  A tracepoint that fires, with its context, and the whole BPF side as a transition system: any
  tracepoint may fire next, with any results of the helpers that have the right sizes. (Handlers
  on different CPUs interleave; a handler is one step, since it works on its own task's key and
  the kernel serialises the map and ring buffer operations.)
\<close>

datatype Tracepoint =
    SysEnter i64
  | SysExit
  | SchedSwitch (sw_prev_tid: u32) (sw_prev_state: i64) (sw_next_tid: u32) (sw_next_comm: string)
  | ProcExec
  | ProcExit

fun fire :: "BpfRodata \<Rightarrow> Helpers \<Rightarrow> Tracepoint \<Rightarrow> BpfState \<Rightarrow> BpfState" where
  "fire ro h (SysEnter nr) st = tp_sys_enter ro h nr st"
| "fire ro h SysExit st = tp_sys_exit ro h st"
| "fire ro h (SchedSwitch prev_tid prev_state next_tid next_comm) st =
     tp_sched_switch ro h prev_tid prev_state next_tid next_comm st"
| "fire ro h ProcExec st = tp_sched_process_exec ro h st"
| "fire ro h ProcExit st = tp_sched_process_exit ro h st"

definition helpers_wf :: "Helpers \<Rightarrow> bool" where
  "helpers_wf h \<longleftrightarrow> length (he_comm h) = kCommLen \<and> length (he_slot_comm h) = kCommLen"

inductive reachable :: "BpfRodata \<Rightarrow> BpfState \<Rightarrow> bool" for ro where
  loaded: "reachable ro BpfState_init"
| fired: "reachable ro st \<Longrightarrow> helpers_wf h \<Longrightarrow> reachable ro (fire ro h tp st)"

text \<open>Runs as sequences, for statements about what happens between two tracepoints.\<close>

fun run :: "BpfRodata \<Rightarrow> (Helpers \<times> Tracepoint) list \<Rightarrow> BpfState \<Rightarrow> BpfState" where
  "run ro [] st = st"
| "run ro ((h, tp) # steps) st = run ro steps (fire ro h tp st)"

end
