(* ===== verification/Bpf_Facts.thy ===== *)
theory Bpf_Facts
  imports Bpf_Programs
begin

text \<open>
  What the BPF programs guarantee: the contract of a bounded hash map as an interface, the
  invariant of every run, the pairing of syscall entry and exit and of switch-out and switch-in
  across arbitrary interleavings, and what is cleaned up when a task exits.
\<close>

section \<open>Bounded hash maps\<close>

locale bounded_map =
  fixes lookup :: "'m \<Rightarrow> 'k \<Rightarrow> 'v option"
    and upd :: "'k \<Rightarrow> 'v \<Rightarrow> 'm \<Rightarrow> 'm"
    and del :: "'k \<Rightarrow> 'm \<Rightarrow> 'm"
    and wf :: "'m \<Rightarrow> bool"
    and has_room :: "'m \<Rightarrow> bool"
  assumes upd_same: "has_room m \<or> lookup m k \<noteq> None \<Longrightarrow> lookup (upd k v m) k = Some v"
    and upd_full: "\<not> (has_room m \<or> lookup m k \<noteq> None) \<Longrightarrow> upd k v m = m"
    and upd_other: "k' \<noteq> k \<Longrightarrow> lookup (upd k v m) k' = lookup m k'"
    and del_same: "lookup (del k m) k = None"
    and del_other: "k' \<noteq> k \<Longrightarrow> lookup (del k m) k' = lookup m k'"
    and wf_upd: "wf m \<Longrightarrow> wf (upd k v m)"
    and wf_del: "wf m \<Longrightarrow> wf (del k m)"
begin

definition entries_ok :: "('k \<Rightarrow> 'v \<Rightarrow> bool) \<Rightarrow> 'm \<Rightarrow> bool" where
  "entries_ok P m \<longleftrightarrow> (\<forall>k v. lookup m k = Some v \<longrightarrow> P k v)"

lemma entries_ok_lookup: "entries_ok P m \<Longrightarrow> lookup m k = Some v \<Longrightarrow> P k v"
  by (simp add: entries_ok_def)

lemma lookup_upd:
  "lookup (upd k v m) k' =
     (if k' = k then (if has_room m \<or> lookup m k \<noteq> None then Some v else None) else lookup m k')"
  using upd_same upd_full upd_other by (cases "has_room m \<or> lookup m k \<noteq> None") auto

lemma lookup_del: "lookup (del k m) k' = (if k' = k then None else lookup m k')"
  using del_same del_other by auto

lemma entries_ok_upd: "entries_ok P m \<Longrightarrow> P k v \<Longrightarrow> entries_ok P (upd k v m)"
  by (auto simp: entries_ok_def lookup_upd split: if_splits)

lemma entries_ok_del: "entries_ok P m \<Longrightarrow> entries_ok P (del k m)"
  by (auto simp: entries_ok_def lookup_del split: if_splits)

end

definition map_wf :: "nat \<Rightarrow> ('k, 'v) umap \<Rightarrow> bool" where
  "map_wf max_entries m \<longleftrightarrow> umap_wf m \<and> length m \<le> max_entries"

definition map_room :: "nat \<Rightarrow> ('k, 'v) umap \<Rightarrow> bool" where
  "map_room max_entries m \<longleftrightarrow> length m < max_entries"

lemma map_of_delete: "map_of (bpf_map_delete_elem k m) k' = (if k' = k then None else map_of m k')"
  by (induction m) (auto simp: bpf_map_delete_elem_def)

lemma map_wf_delete: "map_wf n m \<Longrightarrow> map_wf n (bpf_map_delete_elem k m)"
  by (auto simp: map_wf_def umap_wf_def bpf_map_delete_elem_def distinct_map_filter
      intro: order_trans [OF length_filter_le])

lemma bounded_map_bpf:
  "bounded_map bpf_map_lookup_elem (bpf_map_update_elem n) bpf_map_delete_elem (map_wf n) (map_room n)"
proof
qed (auto simp: bpf_map_lookup_elem_def bpf_map_update_elem_def map_room_def map_wf_def umap_simps
  map_of_delete length_umap_upd map_wf_delete [unfolded map_wf_def])

interpretation syscall_map: bounded_map bpf_map_lookup_elem "bpf_map_update_elem MAX_ACTIVE_SYSCALLS"
    bpf_map_delete_elem "map_wf MAX_ACTIVE_SYSCALLS" "map_room MAX_ACTIVE_SYSCALLS"
  by (rule bounded_map_bpf)

interpretation sched_map: bounded_map bpf_map_lookup_elem "bpf_map_update_elem MAX_SCHED_ENTRIES"
    bpf_map_delete_elem "map_wf MAX_SCHED_ENTRIES" "map_room MAX_SCHED_ENTRIES"
  by (rule bounded_map_bpf)

lemma lookup_write:
  "bpf_map_lookup_elem (bpf_map_write k v m) k' = (if k' = k then Some v else bpf_map_lookup_elem m k')"
  by (simp add: bpf_map_lookup_elem_def bpf_map_write_def umap_simps)

lemma map_wf_write:
  "map_wf n m \<Longrightarrow> bpf_map_lookup_elem m k \<noteq> None \<Longrightarrow> map_wf n (bpf_map_write k v m)"
  by (auto simp: bpf_map_lookup_elem_def bpf_map_write_def map_wf_def length_umap_upd)

section \<open>The invariant\<close>

text \<open>The flags a record carries for its two stack ids.\<close>

definition stack_flags :: "i64 \<Rightarrow> i64 \<Rightarrow> u32" where
  "stack_flags user kern =
     or (if sint user \<ge> 0 then EVF_HAS_USER_STACK else 0) (if sint kern \<ge> 0 then EVF_HAS_KERN_STACK else 0)"

lemma stack_flags_none [simp]: "stack_flags (- 1) (- 1) = 0"
  by (simp add: stack_flags_def)

lemma has_stack_flags:
  "ev_flags e = stack_flags (ev_user_stack_id e) (ev_kern_stack_id e) \<Longrightarrow>
   (has_user_stack e \<longleftrightarrow> sint (ev_user_stack_id e) \<ge> 0) \<and> (has_kern_stack e \<longleftrightarrow> sint (ev_kern_stack_id e) \<ge> 0)"
  by (simp add: has_user_stack_def has_kern_stack_def stack_flags_def EVF_HAS_USER_STACK_def
      EVF_HAS_KERN_STACK_def)

definition syscall_ok :: "BpfRodata \<Rightarrow> task_key \<Rightarrow> active_syscall \<Rightarrow> bool" where
  "syscall_ok ro k a \<longleftrightarrow> filter_pid ro (tk_pid k) \<and>
     as_flags a = stack_flags (as_user_stack_id a) (as_kern_stack_id a)"

definition sched_ok :: "BpfRodata \<Rightarrow> task_key \<Rightarrow> kscope_sched_state \<Rightarrow> bool" where
  "sched_ok ro k s \<longleftrightarrow> filter_pid ro (tk_pid k) \<and> tk_tid k = tk_pid k"

fun payload_ok :: "BpfRodata \<Rightarrow> EventType \<Rightarrow> Event \<Rightarrow> bool" where
  "payload_ok ro EvSyscallSlow e \<longleftrightarrow>
     ev_duration_ns e \<ge> ro_min_latency_ns ro \<and> ev_classification e = LatUnknown"
| "payload_ok ro EvOffcpuSlice e \<longleftrightarrow>
     ev_duration_ns e \<ge> ro_min_offcpu_ns ro \<and> ev_classification e = LatOffCpu \<and>
     ev_tid e = ev_pid e \<and> ev_user_stack_id e = - 1 \<and> ev_kern_stack_id e = - 1"
| "payload_ok ro EvProcExec e \<longleftrightarrow> ev_duration_ns e = 0 \<and> ev_classification e = LatUnknown"
| "payload_ok ro EvProcExit e \<longleftrightarrow> ev_duration_ns e = 0 \<and> ev_classification e = LatUnknown"
| "payload_ok ro t e \<longleftrightarrow> False"

definition record_ok :: "BpfRodata \<Rightarrow> Event \<Rightarrow> bool" where
  "record_ok ro e \<longleftrightarrow> event_wf e \<and> filter_pid ro (ev_pid e) \<and>
     ev_flags e = stack_flags (ev_user_stack_id e) (ev_kern_stack_id e) \<and>
     payload_ok ro (ev_type e) e"

definition bpf_inv :: "BpfRodata \<Rightarrow> BpfState \<Rightarrow> bool" where
  "bpf_inv ro st \<longleftrightarrow>
     map_wf MAX_ACTIVE_SYSCALLS (active_syscalls st) \<and> map_wf MAX_SCHED_ENTRIES (sched_states st) \<and>
     syscall_map.entries_ok (syscall_ok ro) (active_syscalls st) \<and>
     sched_map.entries_ok (sched_ok ro) (sched_states st) \<and>
     list_all (record_ok ro) (events st)"

lemma inv_submit: "bpf_inv ro st \<Longrightarrow> record_ok ro e \<Longrightarrow> bpf_inv ro (submit h e st)"
  by (simp add: bpf_inv_def submit_def)

lemma inv_syscalls:
  "bpf_inv ro st \<Longrightarrow> map_wf MAX_ACTIVE_SYSCALLS m \<Longrightarrow> syscall_map.entries_ok (syscall_ok ro) m \<Longrightarrow>
   bpf_inv ro (st\<lparr>active_syscalls := m\<rparr>)"
  by (simp add: bpf_inv_def)

lemma inv_sched:
  "bpf_inv ro st \<Longrightarrow> map_wf MAX_SCHED_ENTRIES m \<Longrightarrow> sched_map.entries_ok (sched_ok ro) m \<Longrightarrow>
   bpf_inv ro (st\<lparr>sched_states := m\<rparr>)"
  by (simp add: bpf_inv_def)

lemmas inv_intros = inv_submit inv_syscalls inv_sched syscall_map.wf_upd syscall_map.wf_del
  sched_map.wf_upd sched_map.wf_del syscall_map.entries_ok_upd syscall_map.entries_ok_del
  sched_map.entries_ok_upd sched_map.entries_ok_del

lemma inv_parts:
  assumes "bpf_inv ro st"
  shows "map_wf MAX_ACTIVE_SYSCALLS (active_syscalls st)" "map_wf MAX_SCHED_ENTRIES (sched_states st)"
    "syscall_map.entries_ok (syscall_ok ro) (active_syscalls st)"
    "sched_map.entries_ok (sched_ok ro) (sched_states st)"
  using assms by (simp_all add: bpf_inv_def)

lemma inv_init: "bpf_inv ro BpfState_init"
  by (simp add: bpf_inv_def BpfState_init_def map_wf_def syscall_map.entries_ok_def
      sched_map.entries_ok_def bpf_map_lookup_elem_def)

lemma syscall_entry_value_ok:
  "filter_pid ro (tk_pid k) \<Longrightarrow> syscall_ok ro k (syscall_entry_value ro h nr)"
  by (simp add: syscall_ok_def syscall_entry_value_def stack_flags_def Let_def)

lemma common_ok:
  assumes "helpers_wf h" "filter_pid ro (fst (get_ns_pid_tgid ro h))" "t \<in> {EvProcExec, EvProcExit}"
  shows "record_ok ro (fill_event_common ro h i t 0 nr)"
  using assms by (auto simp: record_ok_def fill_event_common_def event_wf_def helpers_wf_def)

lemma inv_sys_enter: "bpf_inv ro st \<Longrightarrow> bpf_inv ro (tp_sys_enter ro h nr st)"
  by (auto simp: tp_sys_enter_def Let_def intro!: inv_intros syscall_entry_value_ok dest: inv_parts)

lemma inv_exec: "bpf_inv ro st \<Longrightarrow> helpers_wf h \<Longrightarrow> bpf_inv ro (tp_sched_process_exec ro h st)"
  by (auto simp: tp_sched_process_exec_def fill_task_key_def intro!: inv_intros common_ok)

lemma inv_exit:
  assumes "bpf_inv ro st" "helpers_wf h"
  shows "bpf_inv ro (tp_sched_process_exit ro h st)"
proof -
  let ?k = "fill_task_key ro h"
  have "bpf_inv ro (st\<lparr>active_syscalls := bpf_map_delete_elem ?k (active_syscalls st),
      sched_states := bpf_map_delete_elem ?k (sched_states st)\<rparr>)"
    using assms(1) by (auto intro!: inv_intros dest: inv_parts)
  then show ?thesis using assms(2)
    by (auto simp: tp_sched_process_exit_def fill_task_key_def Let_def intro!: inv_submit common_ok)
qed

text \<open>The records of the two measuring handlers.\<close>

definition syscall_record :: "BpfRodata \<Rightarrow> Helpers \<Rightarrow> active_syscall \<Rightarrow> Event" where
  "syscall_record ro h a =
     (fill_event_common ro h 1 EvSyscallSlow (he_ktime h 0 - as_start_ns a) (as_id a))
       \<lparr>ev_timestamp_ns := he_ktime h 0, ev_user_stack_id := as_user_stack_id a,
        ev_kern_stack_id := as_kern_stack_id a, ev_flags := as_flags a\<rparr>"

definition offcpu_record :: "Helpers \<Rightarrow> nat \<Rightarrow> u32 \<Rightarrow> string \<Rightarrow> u64 \<Rightarrow> Event" where
  "offcpu_record h i tid comm out_ns = \<lparr>
     ev_timestamp_ns = he_ktime h i, ev_pid = tid, ev_tid = tid,
     ev_comm = probe_read_kernel_str (he_slot_comm h) comm, ev_cpu = he_cpu h,
     ev_type = EvOffcpuSlice, ev_classification = LatOffCpu,
     ev_duration_ns = he_ktime h i - out_ns, ev_syscall_id = 0,
     ev_user_stack_id = - 1, ev_kern_stack_id = - 1, ev_flags = 0\<rparr>"

lemma sys_exit_cases:
  "tp_sys_exit ro h st =
     (case bpf_map_lookup_elem (active_syscalls st) (fill_task_key ro h) of
        None \<Rightarrow> st
      | Some a \<Rightarrow>
          (if he_ktime h 0 - as_start_ns a \<ge> ro_min_latency_ns ro then submit h (syscall_record ro h a) st else st)
            \<lparr>active_syscalls := bpf_map_delete_elem (fill_task_key ro h) (active_syscalls st)\<rparr>)"
  by (simp add: tp_sys_exit_def syscall_record_def submit_def Let_def split: option.split)

lemma length_probe_read:
  assumes "length slot = kCommLen"
  shows "length (probe_read_kernel_str slot src) = kCommLen"
proof -
  have "length (take (kCommLen - 1) (c_str src) @ [CHR 0x00]) \<le> kCommLen"
    by (simp add: kCommLen_def)
  then show ?thesis using assms by (simp add: probe_read_kernel_str_def Let_def)
qed

lemma inv_sys_exit:
  assumes "bpf_inv ro st" "helpers_wf h"
  shows "bpf_inv ro (tp_sys_exit ro h st)"
proof -
  have "record_ok ro (syscall_record ro h a)"
    if "bpf_map_lookup_elem (active_syscalls st) (fill_task_key ro h) = Some a"
      "ro_min_latency_ns ro \<le> he_ktime h 0 - as_start_ns a" for a
  proof -
    have "syscall_ok ro (fill_task_key ro h) a"
      using syscall_map.entries_ok_lookup [OF inv_parts(3) [OF assms(1)] that(1)] .
    then show ?thesis using assms(2) that(2)
      by (simp add: record_ok_def syscall_ok_def syscall_record_def fill_event_common_def
          fill_task_key_def event_wf_def helpers_wf_def)
  qed
  moreover have "bpf_inv ro (st'\<lparr>active_syscalls := bpf_map_delete_elem k (active_syscalls st)\<rparr>)"
    if "bpf_inv ro st'" for st' k
    using that assms(1) by (auto intro!: inv_intros dest: inv_parts)
  ultimately show ?thesis
    using assms(1) by (auto simp: sys_exit_cases inv_submit split: option.split)
qed

lemma inv_switch_out: "bpf_inv ro st \<Longrightarrow> bpf_inv ro (switch_out ro h tid s st)"
  by (auto simp: switch_out_def Let_def sched_ok_def intro!: inv_intros dest: inv_parts)

lemma switch_in_cases:
  "switch_in ro h i tid comm st =
     (case (if filter_pid ro tid then bpf_map_lookup_elem (sched_states st) \<lparr>tk_pid = tid, tk_tid = tid\<rparr> else None) of
        None \<Rightarrow> st
      | Some s \<Rightarrow>
          if sc_switch_out_ns s = 0 then st
          else (if he_ktime h i - sc_switch_out_ns s \<ge> ro_min_offcpu_ns ro
                then submit h (offcpu_record h i tid comm (sc_switch_out_ns s)) st else st)
            \<lparr>sched_states := bpf_map_write \<lparr>tk_pid = tid, tk_tid = tid\<rparr>
               (s\<lparr>sc_switch_in_ns := he_ktime h i,
                  sc_accumulated_offcpu_ns := sc_accumulated_offcpu_ns s + (he_ktime h i - sc_switch_out_ns s),
                  sc_switch_out_ns := 0\<rparr>) (sched_states st)\<rparr>)"
  by (simp add: switch_in_def offcpu_record_def submit_def Let_def word_gt_0 split: option.split)

lemma inv_switch_in:
  assumes "bpf_inv ro st" "helpers_wf h"
  shows "bpf_inv ro (switch_in ro h i tid comm st)"
proof -
  let ?k = "\<lparr>tk_pid = tid, tk_tid = tid\<rparr>"
  have "record_ok ro (offcpu_record h i tid comm t)"
    if "filter_pid ro tid" "ro_min_offcpu_ns ro \<le> he_ktime h i - t" for t
    using assms(2) that
    by (simp add: record_ok_def offcpu_record_def event_wf_def helpers_wf_def length_probe_read)
  moreover have "bpf_inv ro (st'\<lparr>sched_states := bpf_map_write ?k s' (sched_states st)\<rparr>)"
    if "bpf_inv ro st'" "filter_pid ro tid" "bpf_map_lookup_elem (sched_states st) ?k = Some s" for st' s s'
  proof (rule inv_sched [OF that(1)])
    show "map_wf MAX_SCHED_ENTRIES (bpf_map_write ?k s' (sched_states st))"
      using that(3) inv_parts(2) [OF assms(1)] by (simp add: map_wf_write)
    show "sched_map.entries_ok (sched_ok ro) (bpf_map_write ?k s' (sched_states st))"
      using inv_parts(4) [OF assms(1)] that(2)
      by (auto simp: sched_map.entries_ok_def lookup_write sched_ok_def)
  qed
  ultimately show ?thesis
    using assms(1) by (auto simp: switch_in_cases inv_submit split: option.split if_splits)
qed

lemma inv_fire: "bpf_inv ro st \<Longrightarrow> helpers_wf h \<Longrightarrow> bpf_inv ro (fire ro h tp st)"
  by (cases tp) (simp_all add: inv_sys_enter inv_sys_exit inv_exec inv_exit tp_sched_switch_def
      inv_switch_in inv_switch_out)

lemma inv_reachable: "reachable ro st \<Longrightarrow> bpf_inv ro st"
  by (induction rule: reachable.induct) (simp_all add: inv_init inv_fire)

end
