(* ===== verification/Event_Decoder.thy ===== *)
theory Event_Decoder
  imports Event_Model
begin

text \<open>
  The first user-space stage, \<^verbatim>\<open>decode_event\<close> of \<^verbatim>\<open>src/core/event_decoder.cpp\<close>: a raw
  ring-buffer record becomes an \<^verbatim>\<open>Event\<close>, or nothing when the record is too short.
\<close>

definition decode_event :: "bytes \<Rightarrow> Event option" where
  "decode_event raw =
     (if length raw < sizeof_event then None else Some (event_at raw))"

text \<open>
  C30: a record that holds the layout of an event, whatever its padding bytes and whatever
  follows it, decodes to exactly that event, and every record cut before the end of the layout
  is rejected.
\<close>

theorem decode_event_roundtrip:
  assumes "length pad1 = 4" "length pad2 = 4" "event_wf ev"
  shows "decode_event (event_bytes pad1 pad2 ev @ rest) = Some ev \<and>
    (n < length (event_bytes pad1 pad2 ev) \<longrightarrow> decode_event (take n (event_bytes pad1 pad2 ev)) = None)"
proof -
  have "length (event_bytes pad1 pad2 ev) = sizeof_event"
    using assms by (simp add: event_wf_def)
  then show ?thesis using event_at_bytes [OF assms] by (simp add: decode_event_def)
qed

theorem decode_event_roundtrip_witness:
  "decode_event (event_bytes [1, 2, 3, 4] [0, 0, 0, 0] (slow_read 7 99) @ [255]) = Some (slow_read 7 99) \<and>
   decode_event (take 87 (event_bytes [1, 2, 3, 4] [0, 0, 0, 0] (slow_read 7 99))) = None"
  using decode_event_roundtrip [of "[1, 2, 3, 4]" "[0, 0, 0, 0]" "slow_read 7 99" "[255]" 87]
  by (simp add: sizeof_event_def)

lemma decode_event_None: "decode_event raw = None \<longleftrightarrow> length raw < sizeof_event"
  by (simp add: decode_event_def)

lemma decode_event_wf: "decode_event raw = Some ev \<Longrightarrow> event_wf ev"
  by (auto simp: decode_event_def event_wf_event_at split: if_splits)

lemma decode_event_prefix:
  "sizeof_event \<le> length raw \<Longrightarrow> decode_event raw = decode_event (take sizeof_event raw)"
  by (simp add: decode_event_def event_at_take)

end
