(* ===== verification/Bpf_Properties.thy ===== *)
theory Bpf_Properties
  imports Bpf_Facts Event_Decoder
begin

text \<open>
  The properties of the BPF programs over all runs: what every submitted record satisfies, that
  measured durations pair the right entry with the right exit whatever runs in between, and what
  remains of a task after it has exited.
\<close>

section \<open>Every record of every run\<close>

text \<open>
  C6: in every reachable state, whatever the kernel's helpers returned: both hash maps are within
  their declared bounds; and every record in the ring buffer is well-formed, carries the target pid
  if one is set, announces a user or kernel stack exactly if it carries a valid
  stack id, and is either a syscall at or above the latency threshold, an off-CPU slice at or
  above its threshold without stacks, or an exec or exit notice.
\<close>

theorem bpf_records_ok:
  assumes "reachable ro st"
  shows "length (active_syscalls st) \<le> MAX_ACTIVE_SYSCALLS \<and> length (sched_states st) \<le> MAX_SCHED_ENTRIES \<and>
    (\<forall>e \<in> set (events st).
      event_wf e \<and> (ro_target_pid ro = 0 \<or> ev_pid e = ro_target_pid ro) \<and>
      (has_user_stack e \<longleftrightarrow> sint (ev_user_stack_id e) \<ge> 0) \<and>
      (has_kern_stack e \<longleftrightarrow> sint (ev_kern_stack_id e) \<ge> 0) \<and>
      (ev_type e = EvSyscallSlow \<and> ev_duration_ns e \<ge> ro_min_latency_ns ro \<or>
       ev_type e = EvOffcpuSlice \<and> ev_duration_ns e \<ge> ro_min_offcpu_ns ro \<and> ev_classification e = LatOffCpu \<and>
         ev_user_stack_id e = - 1 \<and> ev_kern_stack_id e = - 1 \<or>
       ev_type e \<in> {EvProcExec, EvProcExit} \<and> ev_duration_ns e = 0))"
proof (intro conjI ballI)
  have inv: "bpf_inv ro st" using assms(1) by (rule inv_reachable)
  then show "length (active_syscalls st) \<le> MAX_ACTIVE_SYSCALLS" "length (sched_states st) \<le> MAX_SCHED_ENTRIES"
    by (simp_all add: bpf_inv_def map_wf_def)
  fix e
  assume "e \<in> set (events st)"
  then have ok: "record_ok ro e" using inv by (auto simp: bpf_inv_def list_all_iff)
  then show "event_wf e" "ro_target_pid ro = 0 \<or> ev_pid e = ro_target_pid ro"
    "has_user_stack e \<longleftrightarrow> sint (ev_user_stack_id e) \<ge> 0" "has_kern_stack e \<longleftrightarrow> sint (ev_kern_stack_id e) \<ge> 0"
    using has_stack_flags [of e] by (auto simp: record_ok_def filter_pid_def split: if_splits)
  show "ev_type e = EvSyscallSlow \<and> ev_duration_ns e \<ge> ro_min_latency_ns ro \<or>
    ev_type e = EvOffcpuSlice \<and> ev_duration_ns e \<ge> ro_min_offcpu_ns ro \<and> ev_classification e = LatOffCpu \<and>
      ev_user_stack_id e = - 1 \<and> ev_kern_stack_id e = - 1 \<or>
    ev_type e \<in> {EvProcExec, EvProcExit} \<and> ev_duration_ns e = 0"
    using ok by (cases "ev_type e") (auto simp: record_ok_def)
qed

text \<open>A task and what the helpers return for it, for the concrete instances.\<close>

definition task_helpers :: "u64 \<Rightarrow> u64 \<Rightarrow> Helpers" where
  "task_helpers pid_tgid now = \<lparr>he_ns_pid_tgid = None, he_pid_tgid = pid_tgid, he_ktime = (\<lambda>_. now),
     he_cpu = 0, he_comm = ''app'' @ replicate 13 (CHR 0x00), he_prandom = 4, he_user_stackid = 3,
     he_kern_stackid = - 14, he_reserve = True, he_slot_comm = replicate 16 (CHR ''x'')\<rparr>"

lemma task_helpers_wf [simp]: "helpers_wf (task_helpers p t)"
  by (simp add: helpers_wf_def task_helpers_def kCommLen_def)

lemmas bpf_run_simps = tp_sys_enter_def sys_exit_cases fill_task_key_def get_ns_pid_tgid_def
  rodata_default_def filter_pid_def filter_comm_def BpfState_init_def bpf_map_update_elem_def
  bpf_map_lookup_elem_def bpf_map_delete_elem_def syscall_entry_value_def should_capture_stack_def
  syscall_record_def fill_event_common_def submit_def task_helpers_def MAX_ACTIVE_SYSCALLS_def
  MAX_SCHED_ENTRIES_def tp_sched_switch_def switch_out_def switch_in_cases offcpu_record_def
  sched_state_zero_def bpf_map_write_def

theorem bpf_records_ok_witness:
  "\<exists>e. e \<in> set (events (fire rodata_default (task_helpers 7 250000) SysExit
      (fire rodata_default (task_helpers 7 100000) (SysEnter 35) BpfState_init))) \<and>
    ev_type e = EvSyscallSlow \<and> has_user_stack e \<and> \<not> has_kern_stack e"
proof -
  let ?st = "fire rodata_default (task_helpers 7 250000) SysExit
      (fire rodata_default (task_helpers 7 100000) (SysEnter 35) BpfState_init)"
  have "reachable rodata_default ?st" by (intro fired loaded task_helpers_wf)
  moreover obtain e where "e \<in> set (events ?st)" "ev_type e = EvSyscallSlow"
    "sint (ev_user_stack_id e) \<ge> 0" "\<not> sint (ev_kern_stack_id e) \<ge> 0"
    by (simp add: bpf_run_simps)
  ultimately show ?thesis using bpf_records_ok by blast
qed

section \<open>Pairing\<close>

definition acts_on_syscall :: "BpfRodata \<Rightarrow> task_key \<Rightarrow> Helpers \<times> Tracepoint \<Rightarrow> bool" where
  "acts_on_syscall ro k step \<longleftrightarrow> fill_task_key ro (fst step) = k \<and>
     (case snd step of SysEnter nr \<Rightarrow> True | SysExit \<Rightarrow> True | ProcExit \<Rightarrow> True | _ \<Rightarrow> False)"

lemma switch_syscalls [simp]:
  "active_syscalls (switch_out ro h tid s st) = active_syscalls st"
  "active_syscalls (switch_in ro h i tid comm st) = active_syscalls st"
  "active_syscalls (submit h e st) = active_syscalls st"
  by (auto simp: switch_out_def switch_in_cases submit_def Let_def split: option.split)

lemma syscall_frame:
  "\<not> acts_on_syscall ro k (h, tp) \<Longrightarrow>
   bpf_map_lookup_elem (active_syscalls (fire ro h tp st)) k = bpf_map_lookup_elem (active_syscalls st) k"
  by (cases tp) (auto simp: acts_on_syscall_def tp_sys_enter_def sys_exit_cases tp_sched_switch_def
      tp_sched_process_exec_def tp_sched_process_exit_def Let_def syscall_map.upd_other
      syscall_map.del_other split: option.split)

lemma syscall_frame_run:
  "list_all (\<lambda>s. \<not> acts_on_syscall ro k s) steps \<Longrightarrow>
   bpf_map_lookup_elem (active_syscalls (run ro steps st)) k = bpf_map_lookup_elem (active_syscalls st) k"
  by (induction ro steps st rule: run.induct) (simp_all add: syscall_frame)

text \<open>
  C7: a task that passes the filters enters a syscall while the map has room; then anything
  happens on the machine except another entry or exit of a syscall or the end of that same task;
  then the task leaves the syscall. The exit submits exactly one record if the time since this
  entry reaches the threshold and the ring buffer has room, and none otherwise; the record has
  the number and stack of the entry and the difference of the two clock readings as its
  duration; and the task's entry is gone.
\<close>

theorem syscall_pairing:
  assumes "fill_task_key ro h1 = k" "fill_task_key ro h2 = k"
    and "filter_pid ro (tk_pid k)" "filter_comm ro (he_comm h1)"
    and "length (active_syscalls st) < MAX_ACTIVE_SYSCALLS"
    and "list_all (\<lambda>s. \<not> acts_on_syscall ro k s) steps"
  shows "let st1 = run ro ((h1, SysEnter nr) # steps) st;
             st2 = fire ro h2 SysExit st1;
             e = syscall_record ro h2 (syscall_entry_value ro h1 nr);
             d = he_ktime h2 0 - he_ktime h1 0
         in events st2 = events st1 @ (if d \<ge> ro_min_latency_ns ro \<and> he_reserve h2 then [e] else []) \<and>
            bpf_map_lookup_elem (active_syscalls st2) k = None \<and>
            ev_duration_ns e = d \<and> ev_syscall_id e = nr \<and>
            ev_pid e = tk_pid k \<and> ev_tid e = tk_tid k \<and> ev_timestamp_ns e = he_ktime h2 0"
proof -
  have "bpf_map_lookup_elem (active_syscalls (run ro ((h1, SysEnter nr) # steps) st)) k =
      Some (syscall_entry_value ro h1 nr)"
    using assms by (simp add: syscall_frame_run tp_sys_enter_def syscall_map.upd_same map_room_def)
  moreover have "as_start_ns (syscall_entry_value ro h1 nr) = he_ktime h1 0"
    "as_id (syscall_entry_value ro h1 nr) = nr"
    by (simp_all add: syscall_entry_value_def Let_def)
  moreover have "fst (get_ns_pid_tgid ro h2) = tk_pid k" "snd (get_ns_pid_tgid ro h2) = tk_tid k"
    using assms(2) by (auto simp: fill_task_key_def)
  ultimately show ?thesis
    using assms(2) by (auto simp: sys_exit_cases syscall_map.del_same syscall_record_def
        fill_event_common_def submit_def Let_def)
qed

theorem syscall_pairing_witness:
  "\<exists>e. events (run rodata_default
      [(task_helpers 7 100000, SysEnter 35), (task_helpers 8 120000, SysEnter 0),
       (task_helpers 8 130000, SysExit), (task_helpers 7 250000, SysExit)] BpfState_init) = [e] \<and>
    ev_duration_ns e = 150000 \<and> ev_syscall_id e = 35"
proof -
  let ?h1 = "task_helpers 7 100000" and ?h2 = "task_helpers 7 250000"
  let ?steps = "[(task_helpers 8 120000, SysEnter 0), (task_helpers 8 130000, SysExit)]"
  have "list_all (\<lambda>s. \<not> acts_on_syscall rodata_default \<lparr>tk_pid = 0, tk_tid = 7\<rparr> s) ?steps"
    by (simp add: acts_on_syscall_def bpf_run_simps)
  moreover have "events (run rodata_default ((?h1, SysEnter 35) # ?steps) BpfState_init) = []"
    by (simp add: bpf_run_simps)
  ultimately show ?thesis
    using syscall_pairing [of rodata_default ?h1 "\<lparr>tk_pid = 0, tk_tid = 7\<rparr>" ?h2 BpfState_init ?steps 35]
    by (simp add: bpf_run_simps Let_def)
qed

definition thread_slot :: "u32 \<Rightarrow> task_key" where
  "thread_slot tid = \<lparr>tk_pid = tid, tk_tid = tid\<rparr>"

definition acts_on_sched :: "BpfRodata \<Rightarrow> u32 \<Rightarrow> Helpers \<times> Tracepoint \<Rightarrow> bool" where
  "acts_on_sched ro tid step \<longleftrightarrow>
     (case snd step of
        SchedSwitch prev s next comm \<Rightarrow> prev = tid \<or> next = tid
      | ProcExit \<Rightarrow> fill_task_key ro (fst step) = thread_slot tid
      | _ \<Rightarrow> False)"

lemma lookup_switch_out_other:
  "prev \<noteq> tid \<Longrightarrow> bpf_map_lookup_elem (sched_states (switch_out ro h prev s st)) (thread_slot tid) =
     bpf_map_lookup_elem (sched_states st) (thread_slot tid)"
  by (simp add: switch_out_def thread_slot_def sched_map.upd_other Let_def)

lemma lookup_switch_in_other:
  "next \<noteq> tid \<Longrightarrow> bpf_map_lookup_elem (sched_states (switch_in ro h i next comm st)) (thread_slot tid) =
     bpf_map_lookup_elem (sched_states st) (thread_slot tid)"
  by (auto simp: switch_in_cases thread_slot_def lookup_write submit_def split: option.split)

lemma sched_frame:
  "\<not> acts_on_sched ro tid (h, tp) \<Longrightarrow>
   bpf_map_lookup_elem (sched_states (fire ro h tp st)) (thread_slot tid) =
   bpf_map_lookup_elem (sched_states st) (thread_slot tid)"
  by (cases tp) (auto simp: acts_on_sched_def tp_sys_enter_def sys_exit_cases tp_sched_switch_def
      lookup_switch_out_other lookup_switch_in_other tp_sched_process_exec_def
      tp_sched_process_exit_def sched_map.del_other submit_def Let_def split: option.split)

lemma sched_frame_run:
  "list_all (\<lambda>s. \<not> acts_on_sched ro tid s) steps \<Longrightarrow>
   bpf_map_lookup_elem (sched_states (run ro steps st)) (thread_slot tid) =
   bpf_map_lookup_elem (sched_states st) (thread_slot tid)"
  by (induction ro steps st rule: run.induct) (simp_all add: sched_frame)

lemma events_switch_out [simp]: "events (switch_out ro h tid s st) = events st"
  by (simp add: switch_out_def Let_def)

lemma c_str_probe_read: "c_str (probe_read_kernel_str slot src) = take (kCommLen - 1) (c_str src)"
proof -
  have "CHR 0x00 \<notin> set (take n (c_str src))" for n
    by (auto simp: c_str_def dest!: in_set_takeD set_takeWhileD)
  then have "takeWhile (\<lambda>c. c \<noteq> CHR 0x00) (take n (c_str src) @ CHR 0x00 # rest) = take n (c_str src)"
    for n rest by (subst takeWhile_append2) auto
  then show ?thesis unfolding probe_read_kernel_str_def c_str_def [of "_ @ _"] Let_def by simp
qed

text \<open>
  C8: a tracked task is switched out while the map has room; then anything happens except another
  switch of the same task or its exit; then it is switched in. The second switch submits exactly
  one record if the time in between reaches the threshold and the ring buffer has room, and none
  otherwise; its duration is the difference of the two clock readings, it is attributed to the
  task, its name is the task's name whatever the slot held before, and the slice is closed, so it
  cannot be reported twice.
\<close>

theorem offcpu_pairing:
  assumes "filter_pid ro tid" "prev \<noteq> tid" "next' \<noteq> tid" "he_ktime h1 0 \<noteq> 0"
    and "length (sched_states st) < MAX_SCHED_ENTRIES" "length (he_slot_comm h2) = kCommLen"
    and "list_all (\<lambda>s. \<not> acts_on_sched ro tid s) steps"
  shows "let st1 = run ro ((h1, SchedSwitch tid s next' comm') # steps) st;
             st2 = fire ro h2 (SchedSwitch prev s' tid comm) st1;
             now = he_ktime h2 (if filter_pid ro prev then 1 else 0);
             d = now - he_ktime h1 0
         in (\<exists>e. events st2 = events st1 @ (if d \<ge> ro_min_offcpu_ns ro \<and> he_reserve h2 then [e] else []) \<and>
               ev_type e = EvOffcpuSlice \<and> ev_duration_ns e = d \<and> ev_pid e = tid \<and> ev_tid e = tid \<and>
               ev_timestamp_ns e = now \<and> comm_str e = take (kCommLen - 1) (c_str comm)) \<and>
            map_option sc_switch_out_ns (bpf_map_lookup_elem (sched_states st2) (thread_slot tid)) = Some 0"
proof -
  let ?st1 = "run ro ((h1, SchedSwitch tid s next' comm') # steps) st"
  let ?i = "if filter_pid ro prev then 1 else 0"
  obtain a where a: "bpf_map_lookup_elem (sched_states ?st1) (thread_slot tid) = Some a"
    "sc_switch_out_ns a = he_ktime h1 0"
    using assms
    by (simp add: sched_frame_run tp_sched_switch_def lookup_switch_in_other)
       (simp add: switch_out_def thread_slot_def sched_map.upd_same map_room_def Let_def)
  then have "bpf_map_lookup_elem (sched_states (switch_out ro h2 prev s' ?st1)) (thread_slot tid) = Some a"
    using assms(2) by (simp add: lookup_switch_out_other)
  moreover have "comm_str (offcpu_record h2 ?i tid comm (he_ktime h1 0)) = take (kCommLen - 1) (c_str comm)"
    using assms(6) by (subst comm_str_c_str) (simp_all add: offcpu_record_def length_probe_read c_str_probe_read)
  ultimately show ?thesis
    using assms(1,4) a(2) unfolding Let_def
    by (intro conjI exI [of _ "offcpu_record h2 ?i tid comm (he_ktime h1 0)"])
       (auto simp: tp_sched_switch_def switch_in_cases thread_slot_def submit_def lookup_write
         offcpu_record_def)
qed

theorem offcpu_pairing_witness:
  "\<exists>e. events (run rodata_default
      [(task_helpers 0 1000000, SchedSwitch 7 1 0 ''swapper''),
       (task_helpers 0 2500000, SchedSwitch 8 0 9 ''other''),
       (task_helpers 0 4000000, SchedSwitch 0 0 7 ''app'')] BpfState_init) = [e] \<and>
    ev_duration_ns e = 3000000 \<and> ev_tid e = 7 \<and> comm_str e = ''app''"
proof -
  let ?ro = rodata_default and ?h1 = "task_helpers 0 1000000" and ?h2 = "task_helpers 0 4000000"
  let ?steps = "[(task_helpers 0 2500000, SchedSwitch 8 0 9 ''other'')]"
  have "events (run ?ro ((?h1, SchedSwitch 7 1 0 ''swapper'') # ?steps) BpfState_init) = []"
    by (simp add: bpf_run_simps)
  moreover have "list_all (\<lambda>s. \<not> acts_on_sched ?ro 7 s) ?steps" by (simp add: acts_on_sched_def)
  ultimately show ?thesis
    using offcpu_pairing [of ?ro 7 0 0 ?h1 BpfState_init ?h2 ?steps 1 "''swapper''" 0 "''app''"]
    by (auto simp: rodata_default_def filter_pid_def task_helpers_def kCommLen_def BpfState_init_def
        MAX_SCHED_ENTRIES_def c_str_def Let_def)
qed

section \<open>Filters and task exit\<close>

lemma comm_matches_c_str:
  "length ts = length cs \<Longrightarrow> comm_matches ts cs \<longleftrightarrow> c_str ts = c_str cs"
  by (induction ts cs rule: comm_matches.induct) (auto simp: c_str_def)

text \<open>
  The name filter accepts a task exactly if no name is configured or the task's name is the
  configured one, compared as C strings, whatever follows the terminators.
\<close>

lemma filter_comm_exact:
  assumes "length (ro_target_comm ro) = kCommLen" "length comm = kCommLen"
  shows "filter_comm ro comm \<longleftrightarrow> c_str (ro_target_comm ro) = [] \<or> c_str (ro_target_comm ro) = c_str comm"
proof -
  have "ro_target_comm ro \<noteq> []" using assms(1) by (auto simp: kCommLen_def)
  then have "ro_target_comm ro ! 0 = CHR 0x00 \<longleftrightarrow> c_str (ro_target_comm ro) = []"
    by (cases "ro_target_comm ro") (auto simp: c_str_def)
  then show ?thesis using assms by (simp add: filter_comm_def comm_matches_c_str)
qed

text \<open>
  C32: when a task exits, its own pending syscall and the scheduler entry under its (process,
  thread) key are removed and every other entry is kept. The scheduler entries are stored under
  (thread, thread), however, so the entry of a thread that is not its process's main thread
  survives the thread's exit.
\<close>

theorem process_exit_cleanup:
  "let k = fill_task_key ro h; st' = fire ro h ProcExit st in
    bpf_map_lookup_elem (active_syscalls st') k = None \<and>
    bpf_map_lookup_elem (sched_states st') k = None \<and>
    (\<forall>k'. k' = k \<or>
       bpf_map_lookup_elem (active_syscalls st') k' = bpf_map_lookup_elem (active_syscalls st) k' \<and>
       bpf_map_lookup_elem (sched_states st') k' = bpf_map_lookup_elem (sched_states st) k') \<and>
    (tk_pid k = tk_tid k \<or>
       bpf_map_lookup_elem (sched_states st') (thread_slot (tk_tid k)) =
       bpf_map_lookup_elem (sched_states st) (thread_slot (tk_tid k)))"
  by (auto simp: tp_sched_process_exit_def submit_def Let_def syscall_map.lookup_del
      sched_map.lookup_del thread_slot_def dest: arg_cong [where f = tk_pid])

text \<open>
  C33: with a target process set, the off-CPU slices of its threads are compared with the target
  by thread id: in every run, an off-CPU record can only be one of the main thread, so the
  off-CPU time of the process's other threads is never reported.
\<close>

theorem offcpu_main_thread_only:
  assumes "reachable ro st" "ro_target_pid ro \<noteq> 0" "e \<in> set (events st)" "ev_type e = EvOffcpuSlice"
  shows "ev_tid e = ro_target_pid ro"
proof -
  have "record_ok ro e"
    using inv_reachable [OF assms(1)] assms(3) by (auto simp: bpf_inv_def list_all_iff)
  then show ?thesis using assms(2,4) by (simp add: record_ok_def filter_pid_def)
qed

theorem offcpu_main_thread_only_witness:
  "\<exists>e. events (run (rodata_default\<lparr>ro_target_pid := 7\<rparr>)
      [(task_helpers 0 1000000, SchedSwitch 7 1 8 ''worker''),
       (task_helpers 0 4000000, SchedSwitch 8 0 7 ''app''),
       (task_helpers 0 9000000, SchedSwitch 7 0 8 ''worker'')] BpfState_init) = [e] \<and> ev_tid e = 7"
proof -
  let ?ro = "rodata_default\<lparr>ro_target_pid := 7\<rparr>"
  let ?steps = "[(task_helpers 0 1000000, SchedSwitch 7 1 8 ''worker''),
       (task_helpers 0 4000000, SchedSwitch 8 0 7 ''app''),
       (task_helpers 0 9000000, SchedSwitch 7 0 8 ''worker'')]"
  have "reachable ?ro (run ?ro ?steps BpfState_init)"
    by (simp only: run.simps) (intro fired loaded task_helpers_wf)
  moreover obtain e where "events (run ?ro ?steps BpfState_init) = [e]" "ev_type e = EvOffcpuSlice"
    by (simp add: bpf_run_simps umap_simps)
  moreover have "ro_target_pid ?ro = 7" by simp
  ultimately show ?thesis using offcpu_main_thread_only [of ?ro] by fastforce
qed

end
