(* ===== verification/Classification_Properties.thy ===== *)
theory Classification_Properties
  imports Classifications Bpf_Properties
begin

text \<open>
  The classifier goes by syscall numbers, the output by the names of a separate table: the two agree. Together
  with the invariant of the kernel side this gives the classes of all records that a run can produce.
\<close>

section \<open>Numbers and names\<close>

definition lock_syscalls :: "string list" where
  "lock_syscalls = [''futex'']"

text \<open>
  The groups FileIO, Sync and Network as the documentation of the event model lists them, and three calls that
  the classifier puts into FileIO without being listed there.
\<close>

definition documented_io :: "string list" where
  "documented_io =
     [''read'', ''write'', ''open'', ''close'', ''pread64'', ''pwrite64'', ''openat'',
      ''fsync'', ''fdatasync'',
      ''socket'', ''connect'', ''accept'', ''sendto'', ''recvfrom'', ''sendmsg'', ''recvmsg'', ''bind'', ''listen'', ''accept4'']"

definition undocumented_io :: "string list" where
  "undocumented_io = [''fstat'', ''lseek'', ''newfstatat'']"

definition io_syscalls :: "string list" where
  "io_syscalls = documented_io @ undocumented_io"

definition io_numbers :: "nat list" where
  "io_numbers = [0, 1, 2, 3, 5, 8, 17, 18, 257, 262, 74, 75, 41, 42, 43, 44, 45, 46, 47, 49, 50, 288]"

definition agrees :: "nat \<Rightarrow> string option \<Rightarrow> bool" where
  "agrees i entry \<longleftrightarrow> (case entry of
     None \<Rightarrow> i \<notin> set io_numbers \<and> i \<noteq> 202
   | Some s \<Rightarrow> (s \<in> set io_syscalls \<longleftrightarrow> i \<in> set io_numbers) \<and> (s \<in> set lock_syscalls \<longleftrightarrow> i = 202))"

text \<open>The entries of the table, part by part.\<close>

lemma names_agree_0: "list_all2 agrees [0..<48] (map Some syscall_names_0)"
  by code_simp

lemma names_agree_1: "list_all2 agrees [48..<96] (map Some syscall_names_1)"
  by code_simp

lemma names_agree_2: "list_all2 agrees [96..<144] (map Some syscall_names_2)"
  by code_simp

lemma names_agree_3: "list_all2 agrees [144..<192] (map Some syscall_names_3)"
  by code_simp

lemma names_agree_4: "list_all2 agrees [192..<240] (map Some syscall_names_4)"
  by code_simp

lemma names_agree_5: "list_all2 agrees [240..<288] (map Some syscall_names_5)"
  by code_simp

lemma names_agree_6: "list_all2 agrees [288..<335] (map Some syscall_names_6)"
  by code_simp

lemma gap_agrees: "list_all2 agrees [335..<415] (replicate 80 None)"
  by code_simp

lemma names_agree_late: "list_all2 agrees [415..<453] (map Some syscall_names_late)"
  by code_simp

lemmas names_agree = names_agree_0 names_agree_1 names_agree_2 names_agree_3 names_agree_4 names_agree_5 names_agree_6
  gap_agrees names_agree_late

lemma upt_split: "a \<le> b \<Longrightarrow> b \<le> c \<Longrightarrow> [a..<b] @ [b..<c] = [a..<c]"
  using upt_add_eq_append [of a b "c - b"] by simp

lemma table_agrees: "list_all2 agrees [0..<453] syscall_table"
proof -
  have "[0..<453] = [0..<48] @ [48..<96] @ [96..<144] @ [144..<192] @ [192..<240] @ [240..<288] @ [288..<335] @
      [335..<415] @ [415..<453]"
    by (simp add: upt_split del: upt_rec_numeral)
  then show ?thesis
    unfolding syscall_table_def syscall_names_early_def map_append append.assoc
    by (simp only:) (intro list_all2_appendI names_agree)
qed

lemma table_entry_agrees: "i < length syscall_table \<Longrightarrow> agrees i (syscall_table ! i)"
  using table_agrees by (simp add: list_all2_conv_all_nth)

lemma unnamed_syscall: "''sys_'' @ s \<notin> set io_syscalls" "''sys_'' @ s \<notin> set lock_syscalls"
  by (simp_all add: io_syscalls_def documented_io_def undocumented_io_def lock_syscalls_def)

lemma numbers_bounded: "i \<in> set io_numbers \<Longrightarrow> i < 453"
  by (auto simp: io_numbers_def)

lemma syscall_name_agrees:
  "syscall_name nr \<in> set io_syscalls \<longleftrightarrow> unat nr \<in> set io_numbers"
  "syscall_name nr \<in> set lock_syscalls \<longleftrightarrow> unat nr = 202"
proof -
  have "(syscall_name nr \<in> set io_syscalls \<longleftrightarrow> unat nr \<in> set io_numbers) \<and>
    (syscall_name nr \<in> set lock_syscalls \<longleftrightarrow> unat nr = 202)"
  proof (cases "unat nr < length syscall_table")
    case True
    then show ?thesis
      using table_entry_agrees [OF True] unnamed_syscall [of "to_string (unat nr)"]
      by (cases "syscall_table ! unat nr") (simp_all add: syscall_name_def agrees_def)
  next
    case False
    then show ?thesis
      using unnamed_syscall [of "to_string (unat nr)"] numbers_bounded [of "unat nr"]
      by (auto simp: syscall_name_def length_syscall_table)
  qed
  then show "syscall_name nr \<in> set io_syscalls \<longleftrightarrow> unat nr \<in> set io_numbers"
    "syscall_name nr \<in> set lock_syscalls \<longleftrightarrow> unat nr = 202" by blast+
qed

lemma io_number_iff:
  fixes nr :: u64
  shows "unat nr \<in> set io_numbers \<longleftrightarrow> syscall_group nr \<in> {FileIO, Sync, Network}"
  by (simp add: io_numbers_def syscall_group_def word_unat_eq_iff)

lemma lock_number_iff:
  fixes nr :: u64
  shows "unat nr = 202 \<longleftrightarrow> syscall_group nr = Lock"
  by (simp add: word_unat_eq_iff)

text \<open>
  C11: in every run of the kernel side, the class that user space gives to a record agrees with what it prints of
  it: off-CPU slices are \<^verbatim>\<open>off_cpu\<close>; a slow syscall is \<^verbatim>\<open>lock_wait\<close> exactly if it prints as \<^verbatim>\<open>futex\<close>, \<^verbatim>\<open>io_wait\<close> exactly
  if it prints as one of the 19 calls documented for the groups FileIO, Sync and Network or as \<^verbatim>\<open>fstat\<close>, \<^verbatim>\<open>lseek\<close> or
  \<^verbatim>\<open>newfstatat\<close>, and else \<^verbatim>\<open>syscall_blocked\<close>; \<^verbatim>\<open>unknown\<close> are exactly the records of program starts and exits.
  No record gets any other class.
\<close>

theorem classification_by_name:
  assumes "reachable ro st" "ev \<in> set (events st)"
  shows "case classify_event ev of
      LatOffCpu \<Rightarrow> ev_type ev = EvOffcpuSlice
    | LatLockWait \<Rightarrow> ev_type ev = EvSyscallSlow \<and> syscall_name (ev_syscall_id ev) \<in> set lock_syscalls
    | LatIoWait \<Rightarrow> ev_type ev = EvSyscallSlow \<and> syscall_name (ev_syscall_id ev) \<in> set documented_io \<union> set undocumented_io
    | LatSyscallBlocked \<Rightarrow> ev_type ev = EvSyscallSlow \<and>
        syscall_name (ev_syscall_id ev) \<notin> set lock_syscalls \<union> set documented_io \<union> set undocumented_io
    | LatUnknown \<Rightarrow> ev_type ev = EvProcExec \<or> ev_type ev = EvProcExit
    | _ \<Rightarrow> False"
proof -
  have io: "x \<in> set documented_io \<union> set undocumented_io \<longleftrightarrow> x \<in> set io_syscalls"
    "x \<notin> set lock_syscalls \<union> set documented_io \<union> set undocumented_io \<longleftrightarrow> x \<notin> set lock_syscalls \<and> x \<notin> set io_syscalls" for x
    by (auto simp: io_syscalls_def)
  have "payload_ok ro (ev_type ev) ev"
    using inv_reachable [OF assms(1)] assms(2) by (auto simp: bpf_inv_def record_ok_def list_all_iff)
  then have types: "ev_type ev \<in> {EvSyscallSlow, EvOffcpuSlice, EvProcExec, EvProcExit}"
    by (cases "ev_type ev") auto
  show ?thesis
  proof (cases "ev_type ev = EvSyscallSlow")
    case True
    then show ?thesis
      unfolding classify_event_def io syscall_name_agrees io_number_iff lock_number_iff
      by (cases "syscall_group (ev_syscall_id ev)") (simp_all add: syscall_name_agrees io_number_iff lock_number_iff del: syscall_group_Lock)
  next
    case False
    then show ?thesis using types by (auto simp: classify_event_def)
  qed
qed

theorem classification_by_name_witness:
  "\<exists>e. e \<in> set (events (fire rodata_default (task_helpers 7 250000) SysExit
      (fire rodata_default (task_helpers 7 100000) (SysEnter 202) BpfState_init))) \<and>
    classify_event e = LatLockWait \<and> syscall_name (ev_syscall_id e) = ''futex''"
proof -
  let ?st = "fire rodata_default (task_helpers 7 250000) SysExit
      (fire rodata_default (task_helpers 7 100000) (SysEnter 202) BpfState_init)"
  have run: "reachable rodata_default ?st" by (intro fired loaded task_helpers_wf)
  obtain e where e: "e \<in> set (events ?st)" "ev_type e = EvSyscallSlow" "ev_syscall_id e = 202"
    by (simp add: bpf_run_simps)
  then have lock: "classify_event e = LatLockWait" by (simp add: classify_event_def syscall_group_def)
  then show ?thesis
    using classification_by_name [OF run e(1)] e(1) by (auto simp: lock_syscalls_def)
qed

end
