(* ===== verification/Doubles.thy ===== *)
theory Doubles
  imports Kscope_Prelude Complex_Main "HOL-Library.Log_Nat"
begin

text \<open>
  IEEE-754 double arithmetic as the sources use it. A non-negative double is its rational
  value; every C++ operation on doubles is the exact operation followed by \<open>dbl\<close>, which rounds
  to 53 significant bits, ties to even. The values the program computes (event counts and
  nanosecond totals up to \<open>2 ^ 64\<close>, percentages, and their quotients) are far inside the
  exponent range, so subnormal numbers, infinities and NaN do not occur.
\<close>

section \<open>Rounding\<close>

text \<open>The exponent \<open>e\<close> with \<open>2 powi e \<le> x < 2 powi (e + 1)\<close>.\<close>

definition binexp :: "rat \<Rightarrow> int" where
  "binexp x =
     (if 1 \<le> x then int (floorlog 2 (nat \<lfloor>x\<rfloor>)) - 1
      else - int (floorlog 2 (nat (\<lceil>1 / x\<rceil> - 1))))"

definition round_half_even :: "rat \<Rightarrow> int" where
  "round_half_even x =
     (let f = \<lfloor>x\<rfloor>; d = x - of_int f in
      if d < 1 / 2 then f else if d > 1 / 2 then f + 1 else if even f then f else f + 1)"

definition dbl :: "rat \<Rightarrow> rat" where
  "dbl x = (if x \<le> 0 then 0
            else let e = binexp x - 52 in of_int (round_half_even (x / 2 powi e)) * 2 powi e)"

lemma binexp_bounds:
  assumes "0 < x"
  shows "2 powi binexp x \<le> x" and "x < 2 powi (binexp x + 1)"
proof -
  have "2 powi binexp x \<le> x \<and> x < 2 powi (binexp x + 1)"
  proof (cases "1 \<le> x")
    case True
    define n where "n = nat \<lfloor>x\<rfloor>"
    define k where "k = floorlog 2 n"
    have n: "0 < n" and fl: "int n = \<lfloor>x\<rfloor>" using True by (auto simp: n_def le_floor_iff)
    have b: "2 ^ (k - 1) \<le> n" "n < 2 ^ k"
      using floorlog_bounds [of n 2] n by (auto simp: k_def)
    have kpos: "0 < k" using b n by (cases k) auto
    have e: "binexp x = int (k - 1)" "binexp x + 1 = int k"
      using True kpos by (auto simp: binexp_def n_def k_def)
    have "int (2 ^ (k - 1)) \<le> \<lfloor>x\<rfloor>" using b(1) fl by linarith
    then have "(2::rat) ^ (k - 1) \<le> x" by (simp add: le_floor_iff)
    moreover have "\<lfloor>x\<rfloor> < int (2 ^ k)" using b(2) fl by linarith
    then have "x < 2 ^ k" by (simp add: floor_less_iff)
    moreover have "(2::rat) powi (binexp x + 1) = 2 ^ k" by (subst e(2)) simp
    moreover have "(2::rat) powi binexp x = 2 ^ (k - 1)" by (subst e(1)) simp
    ultimately show ?thesis by simp
  next
    case False
    define m where "m = nat (\<lceil>1 / x\<rceil> - 1)"
    define k where "k = floorlog 2 m"
    have y: "1 < 1 / x" using assms False by simp
    then have "1 < \<lceil>1 / x\<rceil>" using less_ceiling_iff [of 1 "1 / x"] assms by simp
    then have m: "0 < m" and cl: "\<lceil>1 / x\<rceil> = int m + 1" unfolding m_def by linarith+
    have b: "2 ^ (k - 1) \<le> m" "m < 2 ^ k"
      using floorlog_bounds [of m 2] m by (auto simp: k_def)
    have kpos: "0 < k" using b m by (cases k) auto
    have e: "binexp x = - int k" "binexp x + 1 = - int (k - 1)"
      using False kpos by (auto simp: binexp_def m_def k_def)
    have "\<lceil>1 / x\<rceil> \<le> int (2 ^ k)" using b(2) cl by linarith
    then have up: "1 / x \<le> 2 ^ k" by (simp add: ceiling_le_iff)
    have "int (2 ^ (k - 1)) < \<lceil>1 / x\<rceil>" using b(1) cl by linarith
    then have lo: "2 ^ (k - 1) < 1 / x" by (simp add: less_ceiling_iff)
    have "(2::rat) powi (binexp x + 1) = 1 / 2 ^ (k - 1)"
      by (subst e(2)) (simp add: power_int_minus divide_inverse)
    moreover have "(2::rat) powi binexp x = 1 / 2 ^ k"
      by (subst e(1)) (simp add: power_int_minus divide_inverse)
    moreover have "1 / 2 ^ k \<le> x" "x < 1 / 2 ^ (k - 1)"
      using up lo assms by (simp_all add: field_simps)
    ultimately show ?thesis by simp
  qed
  then show "2 powi binexp x \<le> x" and "x < 2 powi (binexp x + 1)" by auto
qed

lemma round_half_even_int [simp]: "round_half_even (of_int n) = n"
  by (simp add: round_half_even_def)

lemma round_half_even_error: "\<bar>of_int (round_half_even x) - x\<bar> \<le> 1 / 2"
proof -
  have "0 \<le> x - of_int \<lfloor>x\<rfloor>" "x - of_int \<lfloor>x\<rfloor> < 1" by linarith+
  then show ?thesis by (auto simp: round_half_even_def Let_def)
qed

lemma round_half_even_mono: "x \<le> y \<Longrightarrow> round_half_even x \<le> round_half_even y"
proof -
  assume le: "x \<le> y"
  then have fl: "\<lfloor>x\<rfloor> \<le> \<lfloor>y\<rfloor>" by (rule floor_mono)
  show ?thesis
  proof (cases "\<lfloor>x\<rfloor> = \<lfloor>y\<rfloor>")
    case True
    with le show ?thesis by (auto simp: round_half_even_def Let_def)
  next
    case False
    with fl have "\<lfloor>x\<rfloor> + 1 \<le> \<lfloor>y\<rfloor>" by linarith
    then show ?thesis by (auto simp: round_half_even_def Let_def)
  qed
qed

lemma dbl_error:
  assumes "0 < x"
  shows "\<bar>dbl x - x\<bar> \<le> 2 powi (binexp x - 53)"
proof -
  define e where "e = binexp x - 52"
  define s where "s = x / 2 powi e"
  have p: "(0::rat) < 2 powi e" by simp
  have xs: "x = s * 2 powi e" using p by (simp add: s_def)
  have "dbl x - x = (of_int (round_half_even s) - s) * 2 powi e"
    using assms by (simp add: dbl_def Let_def e_def s_def algebra_simps)
  then have "\<bar>dbl x - x\<bar> = \<bar>of_int (round_half_even s) - s\<bar> * 2 powi e"
    by (simp add: abs_mult)
  also have "\<dots> \<le> 1 / 2 * 2 powi e"
    by (rule mult_right_mono [OF round_half_even_error]) simp
  also have "\<dots> = 2 powi (binexp x - 53)"
  proof -
    have "(2::rat) powi e = 2 powi (binexp x - 53) * 2"
      using power_int_add_1 [of "2::rat" "binexp x - 53"] by (simp add: e_def algebra_simps)
    then show ?thesis by simp
  qed
  finally show ?thesis .
qed

lemma dbl_zero [simp]: "dbl 0 = 0"
  by (simp add: dbl_def)

text \<open>Integers of at most 53 bits are doubles.\<close>

lemma dbl_of_nat:
  assumes "n < 2 ^ 53"
  shows "dbl (of_nat n) = of_nat n"
proof (cases "n = 0")
  case False
  define e where "e = binexp (of_nat n) - 52"
  have "(2::rat) powi binexp (of_nat n) \<le> of_nat n"
    using binexp_bounds(1) [of "of_nat n"] False by simp
  also have "\<dots> < 2 ^ 53" using assms by (metis of_nat_less_iff of_nat_numeral of_nat_power)
  finally have "(2::rat) powi binexp (of_nat n) < 2 powi 53" by simp
  then have "binexp (of_nat n) < 53" by (metis linorder_not_less one_le_numeral power_int_increasing)
  then have e: "e \<le> 0" by (simp add: e_def)
  then have "(2::rat) powi e = 1 / 2 ^ nat (- e)"
    by (metis divide_inverse int_nat_eq minus_equation_iff mult_1 neg_0_le_iff_le power_int_minus
        power_int_of_nat)
  then have "of_nat n / (2::rat) powi e = of_int (int n * 2 ^ nat (- e))" by simp
  then have "dbl (of_nat n) = of_int (int n * 2 ^ nat (- e)) * 2 powi e"
    using False by (simp add: dbl_def Let_def e_def del: of_int_mult of_int_power)
  also have "\<dots> = of_nat n"
    using \<open>(2::rat) powi e = 1 / 2 ^ nat (- e)\<close> by simp
  finally show ?thesis .
qed simp

text \<open>Rounding is monotone and stays between the neighbouring powers of two.\<close>

lemma dbl_powi_bounds:
  assumes "0 < x"
  shows "2 powi binexp x \<le> dbl x" and "dbl x \<le> 2 powi (binexp x + 1)"
proof -
  define e where "e = binexp x - 52"
  define s where "s = x / 2 powi e"
  have p: "(0::rat) < 2 powi e" by simp
  have d: "dbl x = of_int (round_half_even s) * 2 powi e"
    using assms by (simp add: dbl_def Let_def e_def s_def)
  have lo: "(2::rat) powi binexp x = 2 ^ 52 * 2 powi e"
    using power_int_add [of "2::rat" 52 e] by (simp add: e_def)
  have hi: "(2::rat) powi (binexp x + 1) = 2 ^ 53 * 2 powi e"
    using power_int_add [of "2::rat" 53 e] by (simp add: e_def add.commute)
  have "2 ^ 52 \<le> s" "s \<le> 2 ^ 53"
    using binexp_bounds [OF assms] p unfolding lo hi s_def
    by (simp_all add: pos_le_divide_eq pos_divide_le_eq)
  then have "round_half_even (of_int (2 ^ 52)) \<le> round_half_even s"
    "round_half_even s \<le> round_half_even (of_int (2 ^ 53))"
    by (simp_all add: round_half_even_mono)
  then have "2 ^ 52 \<le> round_half_even s" "round_half_even s \<le> 2 ^ 53"
    by (simp_all only: round_half_even_int)
  then have "(of_int (2 ^ 52) :: rat) \<le> of_int (round_half_even s)"
    "(of_int (round_half_even s) :: rat) \<le> of_int (2 ^ 53)"
    by (simp_all only: of_int_le_iff)
  then show "2 powi binexp x \<le> dbl x" "dbl x \<le> 2 powi (binexp x + 1)"
    unfolding d lo hi using p by (simp_all add: mult_right_mono)
qed

lemma binexp_mono: "0 < x \<Longrightarrow> x \<le> y \<Longrightarrow> binexp x \<le> binexp y"
proof (rule ccontr)
  assume xy: "0 < x" "x \<le> y" and "\<not> binexp x \<le> binexp y"
  then have "(2::rat) powi (binexp y + 1) \<le> 2 powi binexp x"
    by (intro power_int_increasing) auto
  also have "\<dots> \<le> x" using binexp_bounds(1) xy(1) .
  finally show False using binexp_bounds(2) [of y] xy by linarith
qed

lemma dbl_mono: "x \<le> y \<Longrightarrow> dbl x \<le> dbl y"
proof -
  assume xy: "x \<le> y"
  show ?thesis
  proof (cases "0 < x")
    case False
    have "0 \<le> dbl y"
    proof (cases "0 < y")
      case True
      then show ?thesis using dbl_powi_bounds(1) [of y]
        by (meson less_le_not_le linorder_not_le order_less_le_trans zero_less_numeral
            zero_less_power_int)
    qed (simp add: dbl_def)
    then show ?thesis using False by (simp add: dbl_def)
  next
    case True
    then have y: "0 < y" using xy by simp
    show ?thesis
    proof (cases "binexp x = binexp y")
      case True
      have "round_half_even (x / 2 powi (binexp y - 52)) \<le> round_half_even (y / 2 powi (binexp y - 52))"
        by (intro round_half_even_mono divide_right_mono xy) simp
      then show ?thesis using \<open>0 < x\<close> y True by (simp add: dbl_def Let_def)
    next
      case False
      with binexp_mono [OF \<open>0 < x\<close> xy] have "binexp x + 1 \<le> binexp y" by simp
      then have "(2::rat) powi (binexp x + 1) \<le> 2 powi binexp y"
        by (intro power_int_increasing) auto
      then show ?thesis
        using dbl_powi_bounds(2) [OF \<open>0 < x\<close>] dbl_powi_bounds(1) [OF y] by linarith
    qed
  qed
qed

lemma dbl_nonneg [simp]: "0 \<le> dbl x"
proof (cases "0 \<le> x")
  case True
  then show ?thesis using dbl_mono [of 0 x] by simp
qed (simp add: dbl_def)

text \<open>
  Division of an exact integer by 100 and truncation agree with integer division while the
  quotient has at most 46 bits: the rounding error is then below the distance to the next
  integer.
\<close>

lemma floor_dbl_div_100:
  assumes "a < 100 * 2 ^ 46"
  shows "\<lfloor>dbl (of_nat a / 100)\<rfloor> = int (a div 100)"
proof (cases "a mod 100 = 0")
  case True
  then have "of_nat a / 100 = (of_nat (a div 100) :: rat)"
    by (metis dvd_imp_mod_0 mod_0_imp_dvd of_nat_div_le_of_nat of_nat_numeral real_of_nat_div
        div_mult_mod_eq add_0_right nonzero_eq_divide_eq of_nat_mult zero_neq_numeral)
  moreover have "a div 100 < 2 ^ 53" using assms by (simp add: less_mult_imp_div_less)
  ultimately show ?thesis by (simp add: dbl_of_nat)
next
  case False
  let ?x = "of_nat a / 100 :: rat"
  let ?q = "of_nat (a div 100) :: rat"
  have a: "(of_nat a :: rat) = 100 * ?q + of_nat (a mod 100)"
    by (metis mult_div_mod_eq of_nat_add of_nat_mult of_nat_numeral)
  have "a mod 100 < 100" by simp
  then have "a mod 100 \<le> 99" by linarith
  then have r: "1 \<le> (of_nat (a mod 100) :: rat)" "(of_nat (a mod 100) :: rat) \<le> 99"
    using False by (simp_all add: of_nat_le_iff [of _ 99, simplified])
  have x0: "0 < ?x" using False by (cases a) auto
  have "(of_nat a :: rat) < of_nat (100 * 2 ^ 46)" using assms by (simp only: of_nat_less_iff)
  then have "?x < 2 powi 46" by simp
  moreover have "2 powi binexp ?x \<le> ?x" using binexp_bounds(1) [OF x0] .
  ultimately have "(2::rat) powi binexp ?x < 2 powi 46" by linarith
  then have "binexp ?x < 46" by (metis linorder_not_less one_le_numeral power_int_increasing)
  then have "(2::rat) powi (binexp ?x - 53) \<le> 2 powi - 8" by (intro power_int_increasing) auto
  then have "\<bar>dbl ?x - ?x\<bar> \<le> 2 powi - 8" using dbl_error [OF x0] by linarith
  then have err: "\<bar>dbl ?x - ?x\<bar> \<le> 1 / 256" by (simp add: power_int_minus)
  have "?x = ?q + of_nat (a mod 100) / 100" using a by simp
  then have "?q \<le> dbl ?x" "dbl ?x < ?q + 1" using err r by linarith+
  then show ?thesis by (simp add: floor_eq_iff)
qed

end
