(* ===== verification/Histograms.thy ===== *)
theory Histograms
  imports Doubles
begin

text \<open>
  The log2 latency histogram, \<^verbatim>\<open>src/core/histograms.cpp\<close>: recording, reset, and the
  percentile estimate. The abstract view of a histogram is the list of the values recorded
  into it; the refinement lemmas give every field as a function of that list, and the rank
  theorem relates the estimate to the exact order statistic.
\<close>

section \<open>The histogram\<close>

definition kBucketCount :: nat where
  "kBucketCount = 64"

record Histogram =
  h_buckets :: "u64 list"
  h_sum :: u64
  h_min :: u64
  h_max :: u64
  h_count :: u64

definition Histogram_init :: Histogram where
  "Histogram_init =
     \<lparr>h_buckets = replicate kBucketCount 0, h_sum = 0, h_min = - 1, h_max = 0, h_count = 0\<rparr>"

text \<open>\<^verbatim>\<open>std::bit_width\<close>: the number of bits needed for the value.\<close>

definition bit_width :: "u64 \<Rightarrow> nat" where
  "bit_width v = floorlog 2 (unat v)"

definition bucket_index :: "u64 \<Rightarrow> nat" where
  "bucket_index v = (if v = 0 then 0 else min (bit_width v - 1) (kBucketCount - 1))"

definition hist_record :: "u64 \<Rightarrow> Histogram \<Rightarrow> Histogram" where
  "hist_record v h =
     (let idx = bucket_index v in
      h\<lparr>h_buckets := (h_buckets h)[idx := h_buckets h ! idx + 1],
        h_sum := h_sum h + v,
        h_count := h_count h + 1,
        h_min := (if v < h_min h then v else h_min h),
        h_max := (if v > h_max h then v else h_max h)\<rparr>)"

definition hist_reset :: "Histogram \<Rightarrow> Histogram" where
  "hist_reset h =
     h\<lparr>h_buckets := replicate kBucketCount 0, h_sum := 0, h_min := - 1, h_max := 0, h_count := 0\<rparr>"

definition hist_average :: "Histogram \<Rightarrow> rat" where
  "hist_average h =
     (if h_count h = 0 then 0
      else dbl (dbl (of_nat (unat (h_sum h))) / dbl (of_nat (unat (h_count h)))))"

definition bucket_mid :: "nat \<Rightarrow> u64" where
  "bucket_mid i =
     (let lo = push_bit i 1; hi = (if i + 1 < 64 then push_bit (i + 1) 1 else lo)
      in lo + (hi - lo) div 2)"

text \<open>The loop over the buckets: \<open>i\<close> is the index of the first bucket of the list.\<close>

fun percentile_scan :: "u64 \<Rightarrow> u64 \<Rightarrow> nat \<Rightarrow> u64 list \<Rightarrow> u64 option" where
  "percentile_scan threshold cumulative i [] = None"
| "percentile_scan threshold cumulative i (b # bs) =
     (let cumulative' = cumulative + b in
      if cumulative' \<ge> threshold then Some (bucket_mid i)
      else percentile_scan threshold cumulative' (Suc i) bs)"

definition percentile_threshold :: "u64 \<Rightarrow> rat \<Rightarrow> u64" where
  "percentile_threshold n p = word_of_int \<lfloor>dbl (dbl (dbl (of_nat (unat n)) * p) / 100)\<rfloor>"

definition percentile :: "rat \<Rightarrow> Histogram \<Rightarrow> u64" where
  "percentile p h =
     (if h_count h = 0 then 0
      else case percentile_scan (percentile_threshold (h_count h) p) 0 0 (h_buckets h) of
             Some v \<Rightarrow> v
           | None \<Rightarrow> h_max h)"

text \<open>The histogram after recording a list of values, oldest first.\<close>

definition hist_of :: "u64 list \<Rightarrow> Histogram" where
  "hist_of vs = fold hist_record vs Histogram_init"

section \<open>Buckets\<close>

lemma bit_width_bounds:
  assumes "v \<noteq> 0"
  shows "2 ^ (bit_width v - 1) \<le> unat v" and "unat v < 2 ^ bit_width v"
    and "0 < bit_width v" and "bit_width v \<le> 64"
proof -
  have v: "0 < unat v" using assms by (simp add: unat_gt_0)
  then show b: "2 ^ (bit_width v - 1) \<le> unat v" "unat v < 2 ^ bit_width v"
    using floorlog_bounds [of "unat v" 2] by (auto simp: bit_width_def)
  show p: "0 < bit_width v" using v b(2) by (cases "bit_width v") auto
  have "2 ^ (bit_width v - 1) < (2::nat) ^ 64"
    using b(1) unsigned_less [of v, where ?'a = nat] by simp
  then have "bit_width v - 1 < 64" by (simp only: power_strict_increasing_iff one_less_numeral_iff
        semiring_norm)
  then show "bit_width v \<le> 64" by simp
qed

lemma bucket_index_eq: "v \<noteq> 0 \<Longrightarrow> bucket_index v = bit_width v - 1"
  using bit_width_bounds(4) [of v] by (simp add: bucket_index_def kBucketCount_def)

lemma bucket_index_less [simp]: "bucket_index v < 64"
  by (auto simp: bucket_index_def kBucketCount_def)

lemma bucket_index_bounds:
  assumes "v \<noteq> 0"
  shows "2 ^ bucket_index v \<le> unat v" and "unat v < 2 ^ Suc (bucket_index v)"
  using bit_width_bounds [OF assms] by (simp_all add: bucket_index_eq [OF assms])

lemma bucket_index_iff:
  "bucket_index v = i \<longleftrightarrow> v \<noteq> 0 \<and> 2 ^ i \<le> unat v \<and> unat v < 2 ^ Suc i \<or> v = 0 \<and> i = 0"
proof (cases "v = 0")
  case False
  have "bucket_index v = i" if "2 ^ i \<le> unat v" "unat v < 2 ^ Suc i"
  proof -
    have "2 ^ i < (2::nat) ^ Suc (bucket_index v)" "2 ^ bucket_index v < (2::nat) ^ Suc i"
      using bucket_index_bounds [OF False] that by linarith+
    then have "i < Suc (bucket_index v)" "bucket_index v < Suc i"
      by (simp_all only: power_strict_increasing_iff one_less_numeral_iff semiring_norm)
    then show ?thesis by simp
  qed
  then show ?thesis using bucket_index_bounds [OF False] False by blast
qed (auto simp: bucket_index_def)

lemma bucket_index_mono: "v \<le> w \<Longrightarrow> bucket_index v \<le> bucket_index w"
proof (cases "v = 0 \<or> w = 0")
  case False
  assume "v \<le> w"
  then have "2 ^ bucket_index v < (2::nat) ^ Suc (bucket_index w)"
    using bucket_index_bounds [of v] bucket_index_bounds [of w] False
    by (auto simp: word_le_nat_alt)
  then have "bucket_index v < Suc (bucket_index w)"
    by (simp only: power_strict_increasing_iff one_less_numeral_iff semiring_norm)
  then show ?thesis by simp
qed (auto simp: bucket_index_def)

lemma unat_push_bit_1: "i < 64 \<Longrightarrow> unat (push_bit i 1 :: u64) = 2 ^ i"
proof -
  assume "i < 64"
  then have "(2::nat) ^ i < 2 ^ 64" by (intro power_strict_increasing) auto
  moreover have "(push_bit i 1 :: u64) = word_of_nat (2 ^ i)" by (simp add: push_bit_eq_mult)
  ultimately show ?thesis by (simp only: unat_of_nat) simp
qed

lemma unat_bucket_mid:
  assumes "i < 64"
  shows "unat (bucket_mid i) = (if i = 63 then 2 ^ 63 else 2 ^ i + 2 ^ i div 2)"
proof (cases "i = 63")
  case True
  then show ?thesis by (simp add: bucket_mid_def Let_def push_bit_eq_mult)
next
  case False
  with assms have i: "i + 1 < 64" by simp
  have "(push_bit (i + 1) 1 :: u64) - push_bit i 1 = push_bit i 1"
    by (simp add: push_bit_eq_mult)
  then have m: "bucket_mid i = push_bit i 1 + push_bit i 1 div 2"
    using i by (simp add: bucket_mid_def Let_def)
  have "(2::nat) ^ Suc i \<le> 2 ^ 63" using i by (intro power_increasing) auto
  then have small: "2 ^ i + 2 ^ i div 2 < (2::nat) ^ 64" by simp
  have u: "unat (push_bit i 1 :: u64) = 2 ^ i" using assms by (rule unat_push_bit_1)
  have "unat (push_bit i 1 div 2 :: u64) = 2 ^ i div 2" using u by (simp only: unat_div) simp
  with u small show ?thesis using False by (simp only: m unat_word_ariths) simp
qed

text \<open>The midpoint of a value's bucket is within half of the value.\<close>

lemma bucket_mid_error:
  assumes "v \<noteq> 0"
  shows "2 * unat (bucket_mid (bucket_index v)) \<le> 3 * unat v"
    and "unat v \<le> 2 * unat (bucket_mid (bucket_index v))"
proof -
  let ?i = "bucket_index v"
  have b: "2 ^ ?i \<le> unat v" "unat v < 2 ^ Suc ?i" using bucket_index_bounds [OF assms] .
  have m: "unat (bucket_mid ?i) = (if ?i = 63 then 2 ^ 63 else 2 ^ ?i + 2 ^ ?i div 2)"
    by (simp add: unat_bucket_mid)
  show "2 * unat (bucket_mid ?i) \<le> 3 * unat v" using b(1) m by (auto split: if_splits)
  show "unat v \<le> 2 * unat (bucket_mid ?i)" using b(2) m by (auto split: if_splits)
qed

section \<open>Refinement: a histogram as the list of its values\<close>

lemma hist_of_Nil [simp]: "hist_of [] = Histogram_init"
  by (simp add: hist_of_def)

lemma hist_of_snoc: "hist_of (vs @ [v]) = hist_record v (hist_of vs)"
  by (simp add: hist_of_def)

lemma hist_reset_init: "hist_reset h = Histogram_init"
  by (simp add: hist_reset_def Histogram_init_def)

lemma length_buckets_record [simp]: "length (h_buckets (hist_record v h)) = length (h_buckets h)"
  by (simp add: hist_record_def Let_def)

lemma length_buckets_hist_of [simp]: "length (h_buckets (hist_of vs)) = 64"
  by (induction vs rule: rev_induct) (simp_all add: hist_of_snoc Histogram_init_def kBucketCount_def)

lemma buckets_hist_of:
  "i < 64 \<Longrightarrow> h_buckets (hist_of vs) ! i = of_nat (length (filter (\<lambda>v. bucket_index v = i) vs))"
proof (induction vs rule: rev_induct)
  case Nil
  then show ?case by (simp add: Histogram_init_def kBucketCount_def)
next
  case (snoc v vs)
  then show ?case by (simp add: hist_of_snoc hist_record_def Let_def nth_list_update)
qed

lemma sum_hist_of: "h_sum (hist_of vs) = sum_list vs"
  by (induction vs rule: rev_induct) (simp_all add: hist_of_snoc hist_record_def Let_def
      Histogram_init_def)

lemma count_hist_of: "h_count (hist_of vs) = of_nat (length vs)"
  by (induction vs rule: rev_induct) (simp_all add: hist_of_snoc hist_record_def Let_def
      Histogram_init_def)

lemma max_hist_of: "h_max (hist_of vs) = Max (set (0 # vs))"
proof -
  have "h_max (hist_of vs) = fold max vs 0"
    by (induction vs rule: rev_induct)
       (simp_all add: hist_of_snoc hist_record_def Let_def Histogram_init_def if_greater_max)
  then show ?thesis by (simp only: Max.set_eq_fold)
qed

lemma min_hist_of: "h_min (hist_of vs) = Min (set (- 1 # vs))"
proof -
  have "h_min (hist_of vs) = fold min vs (- 1)"
    by (induction vs rule: rev_induct)
       (simp_all add: hist_of_snoc hist_record_def Let_def Histogram_init_def if_less_min)
  then show ?thesis by (simp only: Min.set_eq_fold)
qed

section \<open>Percentiles\<close>

text \<open>How many of the values fall into the buckets up to \<open>i\<close>.\<close>

definition upto_bucket :: "u64 list \<Rightarrow> nat \<Rightarrow> nat" where
  "upto_bucket vs i = length (filter (\<lambda>v. bucket_index v \<le> i) vs)"

definition below_bucket :: "u64 list \<Rightarrow> nat \<Rightarrow> nat" where
  "below_bucket vs i = length (filter (\<lambda>v. bucket_index v < i) vs)"

lemma upto_bucket_split:
  "upto_bucket vs i = below_bucket vs i + length (filter (\<lambda>v. bucket_index v = i) vs)"
  by (induction vs) (auto simp: upto_bucket_def below_bucket_def)

lemma below_bucket_Suc: "below_bucket vs (Suc i) = upto_bucket vs i"
  by (simp add: upto_bucket_def below_bucket_def less_Suc_eq_le)

lemma below_bucket_0 [simp]: "below_bucket vs 0 = 0"
  by (simp add: below_bucket_def)

lemma upto_bucket_le: "upto_bucket vs i \<le> length vs"
  by (simp add: upto_bucket_def)

lemma upto_bucket_last: "upto_bucket vs 63 = length vs"
proof -
  have "bucket_index v \<le> 63" for v using bucket_index_less [of v] by linarith
  then show ?thesis by (simp add: upto_bucket_def)
qed

text \<open>The loop stops at the first bucket whose cumulative count reaches the threshold.\<close>

lemma percentile_scan_stops:
  assumes "length vs < 2 ^ 64" "j < 64" "thr \<le> upto_bucket vs j"
    and "\<And>l. l < j \<Longrightarrow> upto_bucket vs l < thr" and "i \<le> j"
  shows "percentile_scan (of_nat thr) (of_nat (below_bucket vs i)) i (drop i (h_buckets (hist_of vs)))
    = Some (bucket_mid j)"
  using assms(5)
proof (induction "j - i" arbitrary: i)
  case 0
  then have ij: "i = j" by simp
  have d: "drop j (h_buckets (hist_of vs)) =
      h_buckets (hist_of vs) ! j # drop (Suc j) (h_buckets (hist_of vs))"
    using assms(2) by (simp add: Cons_nth_drop_Suc)
  have c: "of_nat (below_bucket vs j) + h_buckets (hist_of vs) ! j = (of_nat (upto_bucket vs j) :: u64)"
    using assms(2) by (simp add: buckets_hist_of upto_bucket_split)
  have "(of_nat thr :: u64) \<le> of_nat (upto_bucket vs j)"
    using assms(1,3) upto_bucket_le [of vs j] by (subst of_nat_le_u64) linarith+
  then show ?case by (simp add: ij d c)
next
  case (Suc n)
  then have ij: "i < j" and n: "n = j - Suc i" by simp_all
  have d: "drop i (h_buckets (hist_of vs)) =
      h_buckets (hist_of vs) ! i # drop (Suc i) (h_buckets (hist_of vs))"
    using assms(2) ij by (simp add: Cons_nth_drop_Suc)
  have c: "of_nat (below_bucket vs i) + h_buckets (hist_of vs) ! i = (of_nat (upto_bucket vs i) :: u64)"
    using assms(2) ij by (simp add: buckets_hist_of upto_bucket_split)
  have "thr < 2 ^ 64" using assms(1,3) upto_bucket_le [of vs j] by linarith
  then have "\<not> (of_nat thr :: u64) \<le> of_nat (upto_bucket vs i)"
    using assms(1) assms(4) [OF ij] upto_bucket_le [of vs i]
    by (subst of_nat_le_u64) linarith+
  then show ?case using Suc.hyps(1) [OF n] ij
    by (simp add: d c below_bucket_Suc)
qed

lemma percentile_threshold_exact:
  assumes "n < 2 ^ 46" "p \<le> 100"
  shows "percentile_threshold (of_nat n) (of_nat p) = of_nat (n * p div 100)"
proof -
  have u: "unat (of_nat n :: u64) = n"
    using assms(1) by (simp add: unat_of_nat)
  have np: "n * p < 100 * 2 ^ 46"
  proof -
    have "n * p \<le> n * 100" using assms(2) by simp
    also have "\<dots> < 100 * 2 ^ 46" using assms(1) by simp
    finally show ?thesis .
  qed
  have "dbl (of_nat n) = (of_nat n :: rat)" using assms(1) by (intro dbl_of_nat) simp
  moreover have "dbl (of_nat (n * p)) = (of_nat (n * p) :: rat)"
    using np by (intro dbl_of_nat) simp
  ultimately show ?thesis
    using floor_dbl_div_100 [OF np] by (simp add: percentile_threshold_def u)
qed

text \<open>The first bucket that reaches a rank holds the value of that rank.\<close>

lemma rank_bucket:
  assumes "0 < k" "k \<le> length vs"
  defines "j \<equiv> bucket_index (sort vs ! (k - 1))"
  shows "k \<le> upto_bucket vs j" and "l < j \<Longrightarrow> upto_bucket vs l < k"
proof -
  let ?s = "sort vs"
  have len: "length (filter P ?s) = length (filter P vs)" for P
    by (metis mset_filter mset_sort size_mset)
  have up: "bucket_index (?s ! m) \<le> j" if "m < k" for m
    unfolding j_def using that assms(1,2) by (intro bucket_index_mono sorted_nth_mono) auto
  have lo: "j \<le> bucket_index (?s ! m)" if "k - 1 \<le> m" "m < length vs" for m
    unfolding j_def using that by (intro bucket_index_mono sorted_nth_mono) auto
  have "\<forall>x \<in> set (take k ?s). bucket_index x \<le> j"
    using up assms(2) by (auto simp: in_set_conv_nth)
  then have "length (filter (\<lambda>v. bucket_index v \<le> j) (take k ?s)) = k"
    using assms(2) by simp
  moreover have "length (filter P (take k ?s)) \<le> length (filter P ?s)" for P
    by (metis append_take_drop_id filter_append le_add1 length_append)
  ultimately show "k \<le> upto_bucket vs j"
    unfolding upto_bucket_def using len by metis
  show "upto_bucket vs l < k" if "l < j"
  proof -
    have "\<not> bucket_index x \<le> l" if xin: "x \<in> set (drop (k - 1) ?s)" for x
    proof -
      obtain m where "m < length (drop (k - 1) ?s)" "drop (k - 1) ?s ! m = x"
        using xin unfolding in_set_conv_nth by blast
      then show ?thesis using lo [of "k - 1 + m"] \<open>l < j\<close> by (simp add: less_diff_conv add.commute)
    qed
    then have "filter (\<lambda>v. bucket_index v \<le> l) (drop (k - 1) ?s) = []" by simp
    then have "filter (\<lambda>v. bucket_index v \<le> l) ?s = filter (\<lambda>v. bucket_index v \<le> l) (take (k - 1) ?s)"
      by (metis append_Nil2 append_take_drop_id filter_append)
    then have "upto_bucket vs l \<le> length (take (k - 1) ?s)"
      unfolding upto_bucket_def by (metis len length_filter_le)
    then have "upto_bucket vs l \<le> k - 1" by simp
    then show ?thesis using assms(1) by linarith
  qed
qed

lemma percentile_at_rank:
  assumes "length vs < 2 ^ 46" "p \<le> 100" "0 < length vs * p div 100"
  shows "percentile (of_nat p) (hist_of vs) =
    bucket_mid (bucket_index (sort vs ! (length vs * p div 100 - 1)))"
proof -
  let ?k = "length vs * p div 100"
  have "?k \<le> length vs * 100 div 100" using assms(2) by (intro div_le_mono mult_le_mono2)
  then have k: "0 < ?k" "?k \<le> length vs" using assms(3) by simp_all
  have small: "length vs < 2 ^ 64" using assms(1) by simp
  have nz: "h_count (hist_of vs) \<noteq> 0"
  proof -
    have "unat (h_count (hist_of vs)) = length vs"
      using small by (simp add: count_hist_of unat_of_nat)
    then show ?thesis using k by auto
  qed
  have "percentile_scan (of_nat ?k) (of_nat (below_bucket vs 0)) 0 (drop 0 (h_buckets (hist_of vs)))
      = Some (bucket_mid (bucket_index (sort vs ! (?k - 1))))"
    by (rule percentile_scan_stops [OF small]) (use rank_bucket [OF k] in auto)
  then show ?thesis
    using nz percentile_threshold_exact [OF assms(1,2)] by (simp add: percentile_def count_hist_of)
qed

lemma percentile_scan_zero: "bs \<noteq> [] \<Longrightarrow> percentile_scan 0 c i bs = Some (bucket_mid i)"
  by (cases bs) simp_all

section \<open>Properties\<close>

text \<open>
  A histogram refines the list of values recorded into it: bucket \<open>i\<close> counts the values
  whose highest bit is bit \<open>i\<close> (bucket 0 also the zeros), sum and count are the sum and the
  number of the values modulo \<open>2 ^ 64\<close>, and minimum and maximum are those of the values, with
  \<^verbatim>\<open>UINT64_MAX\<close> and 0 for the empty list.
\<close>

lemma hist_of_refines:
  "h_buckets (hist_of vs) =
     map (\<lambda>i. of_nat (length (filter
       (\<lambda>v. v \<noteq> 0 \<and> 2 ^ i \<le> unat v \<and> unat v < 2 ^ Suc i \<or> v = 0 \<and> i = 0) vs))) [0..<kBucketCount] \<and>
   h_sum (hist_of vs) = sum_list vs \<and> h_count (hist_of vs) = of_nat (length vs) \<and>
   h_min (hist_of vs) = Min (set (- 1 # vs)) \<and> h_max (hist_of vs) = Max (set (0 # vs))"
  unfolding bucket_index_iff [symmetric]
  by (intro conjI nth_equalityI sum_hist_of count_hist_of min_hist_of max_hist_of)
     (simp_all add: buckets_hist_of kBucketCount_def)

text \<open>
  C5: on a histogram of fewer than \<open>2 ^ 46\<close> values the percentile estimate is the midpoint of
  the bucket of the exact order statistic of rank \<open>count * p div 100\<close>, so for a non-zero
  statistic the estimate is off by at most half of it. The floating-point computation of the
  rank is part of the theorem.
\<close>

theorem percentile_rank_accuracy:
  assumes "length vs < 2 ^ 46" "p \<le> 100" "0 < length vs * p div 100"
    and "x = sort vs ! (length vs * p div 100 - 1)" "x \<noteq> 0"
  shows "percentile (of_nat p) (hist_of vs) = bucket_mid (bucket_index x) \<and>
    2 * unat (percentile (of_nat p) (hist_of vs)) \<le> 3 * unat x \<and>
    unat x \<le> 2 * unat (percentile (of_nat p) (hist_of vs))"
  using percentile_at_rank [OF assms(1-3)] bucket_mid_error [OF assms(5)] assms(4) by simp

theorem percentile_rank_accuracy_witness:
  "percentile (of_nat 95) (hist_of (replicate 20 1000)) = bucket_mid (bucket_index 1000) \<and>
   2 * unat (percentile (of_nat 95) (hist_of (replicate 20 1000))) \<le> 3 * 1000 \<and>
   1000 \<le> 2 * unat (percentile (of_nat 95) (hist_of (replicate 20 1000)))"
  using percentile_rank_accuracy [of "replicate 20 1000" 95 1000] by auto

text \<open>
  C34: when \<open>count * p\<close> is below 100 (a single sample, for P50, P95 and P99 alike) the rank is 0,
  the loop stops at bucket 0 whatever was recorded, and the estimate is 1 ns.
\<close>

theorem percentile_small_count:
  assumes "vs \<noteq> []" "length vs < 2 ^ 46" "p \<le> 100" "length vs * p < 100"
  shows "percentile (of_nat p) (hist_of vs) = 1"
proof -
  have "unat (h_count (hist_of vs)) = length vs"
    using assms(2) by (simp add: count_hist_of unat_of_nat)
  then have "h_count (hist_of vs) \<noteq> 0" using assms(1) by auto
  moreover have "percentile_threshold (h_count (hist_of vs)) (of_nat p) = 0"
    using percentile_threshold_exact [OF assms(2,3)] assms(4) by (simp add: count_hist_of)
  moreover have "h_buckets (hist_of vs) \<noteq> []"
    by (metis length_buckets_hist_of list.size(3) zero_neq_numeral)
  moreover have "bucket_mid 0 = 1" by (simp add: bucket_mid_def)
  ultimately show ?thesis by (simp add: percentile_def percentile_scan_zero)
qed

theorem percentile_small_count_witness:
  "percentile (of_nat 95) (hist_of [1000000]) = 1"
  by (rule percentile_small_count) simp_all

end
