(* ===== verification/Aggregator.thy ===== *)
theory Aggregator
  imports Event_Model Histograms
begin

text \<open>
  The aggregation engine, \<^verbatim>\<open>src/core/aggregator.cpp\<close>. Each event updates up to four hash
  maps (process, thread, syscall, stack); the queries sort a snapshot of one of them. Every
  public method holds the mutex for its whole body, so each is one atomic step here. The
  refinement theorems give every entry of every map as a summary of the events of its key.
\<close>

section \<open>State\<close>

datatype SortBy = TotalLatency | OffcpuTime | MaxLatency | EventCount

record ThreadStats =
  ts_pid :: u32
  ts_tid :: u32
  ts_comm :: string
  ts_total_syscall_ns :: u64
  ts_total_offcpu_ns :: u64
  ts_max_latency_ns :: u64
  ts_slow_event_count :: u32
  ts_latency_hist :: Histogram

record ProcessStats =
  ps_pid :: u32
  ps_comm :: string
  ps_total_syscall_ns :: u64
  ps_total_offcpu_ns :: u64
  ps_max_latency_ns :: u64
  ps_slow_event_count :: u32
  ps_latency_hist :: Histogram

record SyscallStats =
  ss_syscall_id :: u64
  ss_count :: u64
  ss_total_ns :: u64
  ss_max_ns :: u64
  ss_latency_hist :: Histogram
  ss_affected_pids :: "u32 set"

record StackStats =
  st_stack_id :: i64
  st_total_ns :: u64
  st_count :: u64
  st_pid :: u32
  st_representative_type :: EventType
  st_is_kernel :: bool

record Aggregator =
  procs :: "(u32, ProcessStats) umap"
  threads :: "(u64, ThreadStats) umap"
  syscalls :: "(u64, SyscallStats) umap"
  stacks :: "(i64, StackStats) umap"
  total :: u64

definition ThreadStats_init :: ThreadStats where
  "ThreadStats_init = \<lparr>ts_pid = 0, ts_tid = 0, ts_comm = [], ts_total_syscall_ns = 0,
     ts_total_offcpu_ns = 0, ts_max_latency_ns = 0, ts_slow_event_count = 0,
     ts_latency_hist = Histogram_init\<rparr>"

definition ProcessStats_init :: ProcessStats where
  "ProcessStats_init = \<lparr>ps_pid = 0, ps_comm = [], ps_total_syscall_ns = 0,
     ps_total_offcpu_ns = 0, ps_max_latency_ns = 0, ps_slow_event_count = 0,
     ps_latency_hist = Histogram_init\<rparr>"

definition SyscallStats_init :: SyscallStats where
  "SyscallStats_init = \<lparr>ss_syscall_id = 0, ss_count = 0, ss_total_ns = 0, ss_max_ns = 0,
     ss_latency_hist = Histogram_init, ss_affected_pids = {}\<rparr>"

definition StackStats_init :: StackStats where
  "StackStats_init = \<lparr>st_stack_id = 0, st_total_ns = 0, st_count = 0, st_pid = 0,
     st_representative_type = EvNone, st_is_kernel = False\<rparr>"

definition Aggregator_init :: Aggregator where
  "Aggregator_init = \<lparr>procs = [], threads = [], syscalls = [], stacks = [], total = 0\<rparr>"

section \<open>Updates\<close>

definition process_entry :: "Event \<Rightarrow> ProcessStats \<Rightarrow> ProcessStats" where
  "process_entry ev p =
     (let p = p\<lparr>ps_pid := ev_pid ev, ps_comm := comm_str ev,
                ps_slow_event_count := ps_slow_event_count p + 1,
                ps_max_latency_ns := (if ev_duration_ns ev > ps_max_latency_ns p
                                      then ev_duration_ns ev else ps_max_latency_ns p),
                ps_latency_hist := hist_record (ev_duration_ns ev) (ps_latency_hist p)\<rparr>
      in if ev_type ev = EvOffcpuSlice
         then p\<lparr>ps_total_offcpu_ns := ps_total_offcpu_ns p + ev_duration_ns ev\<rparr>
         else p\<lparr>ps_total_syscall_ns := ps_total_syscall_ns p + ev_duration_ns ev\<rparr>)"

definition update_process :: "Event \<Rightarrow> Aggregator \<Rightarrow> Aggregator" where
  "update_process ev a =
     a\<lparr>procs := umap_upd (ev_pid ev) (process_entry ev) ProcessStats_init (procs a)\<rparr>"

definition thread_key :: "u32 \<Rightarrow> u32 \<Rightarrow> u64" where
  "thread_key pid tid = or (push_bit 32 (ucast pid)) (ucast tid)"

definition thread_entry :: "Event \<Rightarrow> ThreadStats \<Rightarrow> ThreadStats" where
  "thread_entry ev t =
     (let t = t\<lparr>ts_pid := ev_pid ev, ts_tid := ev_tid ev, ts_comm := comm_str ev,
                ts_slow_event_count := ts_slow_event_count t + 1,
                ts_max_latency_ns := (if ev_duration_ns ev > ts_max_latency_ns t
                                      then ev_duration_ns ev else ts_max_latency_ns t),
                ts_latency_hist := hist_record (ev_duration_ns ev) (ts_latency_hist t)\<rparr>
      in if ev_type ev = EvOffcpuSlice
         then t\<lparr>ts_total_offcpu_ns := ts_total_offcpu_ns t + ev_duration_ns ev\<rparr>
         else t\<lparr>ts_total_syscall_ns := ts_total_syscall_ns t + ev_duration_ns ev\<rparr>)"

definition update_thread :: "Event \<Rightarrow> Aggregator \<Rightarrow> Aggregator" where
  "update_thread ev a =
     a\<lparr>threads := umap_upd (thread_key (ev_pid ev) (ev_tid ev)) (thread_entry ev)
                    ThreadStats_init (threads a)\<rparr>"

definition syscall_entry :: "Event \<Rightarrow> SyscallStats \<Rightarrow> SyscallStats" where
  "syscall_entry ev s =
     s\<lparr>ss_syscall_id := ev_syscall_id ev,
       ss_count := ss_count s + 1,
       ss_total_ns := ss_total_ns s + ev_duration_ns ev,
       ss_max_ns := (if ev_duration_ns ev > ss_max_ns s then ev_duration_ns ev else ss_max_ns s),
       ss_latency_hist := hist_record (ev_duration_ns ev) (ss_latency_hist s),
       ss_affected_pids := insert (ev_pid ev) (ss_affected_pids s)\<rparr>"

definition update_syscall :: "Event \<Rightarrow> Aggregator \<Rightarrow> Aggregator" where
  "update_syscall ev a =
     a\<lparr>syscalls := umap_upd (ev_syscall_id ev) (syscall_entry ev) SyscallStats_init (syscalls a)\<rparr>"

text \<open>The lambda \<^verbatim>\<open>add\<close> of \<^verbatim>\<open>update_stack\<close>: a negative stack id is skipped.\<close>

definition stack_entry :: "Event \<Rightarrow> i64 \<Rightarrow> bool \<Rightarrow> StackStats \<Rightarrow> StackStats" where
  "stack_entry ev sid kern st =
     st\<lparr>st_stack_id := sid,
        st_total_ns := st_total_ns st + ev_duration_ns ev,
        st_count := st_count st + 1,
        st_is_kernel := kern,
        st_pid := (if st_pid st = 0 then ev_pid ev else st_pid st),
        st_representative_type := (if st_representative_type st = EvNone then ev_type ev
                                   else st_representative_type st)\<rparr>"

definition add_stack :: "Event \<Rightarrow> i64 \<Rightarrow> bool \<Rightarrow> Aggregator \<Rightarrow> Aggregator" where
  "add_stack ev sid kern a =
     (if sint sid < 0 then a
      else a\<lparr>stacks := umap_upd sid (stack_entry ev sid kern) StackStats_init (stacks a)\<rparr>)"

definition update_stack :: "Event \<Rightarrow> Aggregator \<Rightarrow> Aggregator" where
  "update_stack ev a =
     add_stack ev (ev_kern_stack_id ev) True (add_stack ev (ev_user_stack_id ev) False a)"

definition process_event :: "Event \<Rightarrow> Aggregator \<Rightarrow> Aggregator" where
  "process_event ev a =
     (let a = a\<lparr>total := total a + 1\<rparr> in
      if ev_type ev \<in> {EvSyscallSlow, EvIoWait, EvLockWait}
      then update_stack ev (update_syscall ev (update_thread ev (update_process ev a)))
      else if ev_type ev = EvOffcpuSlice
      then update_stack ev (update_thread ev (update_process ev a))
      else a)"

definition agg_reset :: "Aggregator \<Rightarrow> Aggregator" where
  "agg_reset a = a\<lparr>procs := [], threads := [], syscalls := [], stacks := [], total := 0\<rparr>"

definition total_events :: "Aggregator \<Rightarrow> u64" where
  "total_events a = total a"

text \<open>The aggregator after a sequence of events, oldest first.\<close>

definition aggregate :: "Event list \<Rightarrow> Aggregator" where
  "aggregate evs = fold process_event evs Aggregator_init"

section \<open>Queries\<close>

text \<open>
  \<open>iter\<close> is the iteration order of the hash map and \<open>srt\<close> the sorter; both are unspecified by
  the library beyond their contracts.
\<close>

fun process_before :: "SortBy \<Rightarrow> ProcessStats \<Rightarrow> ProcessStats \<Rightarrow> bool" where
  "process_before TotalLatency a b \<longleftrightarrow>
     ps_total_syscall_ns a + ps_total_offcpu_ns a > ps_total_syscall_ns b + ps_total_offcpu_ns b"
| "process_before OffcpuTime a b \<longleftrightarrow> ps_total_offcpu_ns a > ps_total_offcpu_ns b"
| "process_before MaxLatency a b \<longleftrightarrow> ps_max_latency_ns a > ps_max_latency_ns b"
| "process_before EventCount a b \<longleftrightarrow> ps_slow_event_count a > ps_slow_event_count b"

fun thread_before :: "SortBy \<Rightarrow> ThreadStats \<Rightarrow> ThreadStats \<Rightarrow> bool" where
  "thread_before TotalLatency a b \<longleftrightarrow>
     ts_total_syscall_ns a + ts_total_offcpu_ns a > ts_total_syscall_ns b + ts_total_offcpu_ns b"
| "thread_before OffcpuTime a b \<longleftrightarrow> ts_total_offcpu_ns a > ts_total_offcpu_ns b"
| "thread_before MaxLatency a b \<longleftrightarrow> ts_max_latency_ns a > ts_max_latency_ns b"
| "thread_before EventCount a b \<longleftrightarrow> ts_slow_event_count a > ts_slow_event_count b"

type_synonym 'v sorter = "('v \<Rightarrow> 'v \<Rightarrow> bool) \<Rightarrow> 'v list \<Rightarrow> 'v list"
type_synonym ('k, 'v) iteration = "('k, 'v) umap \<Rightarrow> ('k \<times> 'v) list"

definition top_processes ::
  "ProcessStats sorter \<Rightarrow> (u32, ProcessStats) iteration \<Rightarrow> nat \<Rightarrow> SortBy \<Rightarrow> Aggregator \<Rightarrow> ProcessStats list"
where
  "top_processes srt iter n by a =
     (let v = srt (process_before by) (map snd (iter (procs a)))
      in if length v > n then take n v else v)"

definition top_threads ::
  "ThreadStats sorter \<Rightarrow> (u64, ThreadStats) iteration \<Rightarrow> nat \<Rightarrow> SortBy \<Rightarrow> Aggregator \<Rightarrow> ThreadStats list"
where
  "top_threads srt iter n by a =
     (let v = srt (thread_before by) (map snd (iter (threads a)))
      in if length v > n then take n v else v)"

definition top_syscalls ::
  "SyscallStats sorter \<Rightarrow> (u64, SyscallStats) iteration \<Rightarrow> nat \<Rightarrow> Aggregator \<Rightarrow> SyscallStats list"
where
  "top_syscalls srt iter n a =
     (let v = srt (\<lambda>a b. ss_total_ns a > ss_total_ns b) (map snd (iter (syscalls a)))
      in if length v > n then take n v else v)"

definition top_stacks ::
  "StackStats sorter \<Rightarrow> (i64, StackStats) iteration \<Rightarrow> nat \<Rightarrow> Aggregator \<Rightarrow> StackStats list"
where
  "top_stacks srt iter n a =
     (let v = srt (\<lambda>a b. st_total_ns a > st_total_ns b) (map snd (iter (stacks a)))
      in if length v > n then take n v else v)"

end
