(* ===== verification/Aggregator_Facts.thy ===== *)
theory Aggregator_Facts
  imports Aggregator
begin

text \<open>
  What the aggregator computes. A dimension is one of its hash maps seen through the entries an
  event touches; the locale proves once that a map filled by a sequence of events holds, for
  each key, the fold of that key's updates, and the four dimensions interpret it. The theorems
  turn the folds into summaries (sums, counts, histograms, last names), prove conservation
  across dimensions and the contracts of the top-N queries.
\<close>

section \<open>One dimension\<close>

definition touch :: "'v \<Rightarrow> ('k \<times> ('v \<Rightarrow> 'v)) \<Rightarrow> ('k, 'v) umap \<Rightarrow> ('k, 'v) umap" where
  "touch v0 t m = umap_upd (fst t) (snd t) v0 m"

lemma umap_wf_touches: "umap_wf m \<Longrightarrow> umap_wf (fold (touch v0) ts m)"
  by (induction ts arbitrary: m) (simp_all add: touch_def)

lemma umap_get_touches:
  "umap_get (fold (touch v0) ts m) v0 k = fold snd (filter (\<lambda>t. fst t = k) ts) (umap_get m v0 k)"
  by (induction ts arbitrary: m) (simp_all add: touch_def umap_simps)

lemma keys_touches: "fst ` set (fold (touch v0) ts m) = fst ` set m \<union> fst ` set ts"
  by (induction ts arbitrary: m) (auto simp: touch_def keys_umap_upd)

lemma map_of_touches:
  "map_of (fold (touch v0) ts []) k =
     (case filter (\<lambda>t. fst t = k) ts of [] \<Rightarrow> None | us \<Rightarrow> Some (fold snd us v0))"
proof (cases "k \<in> fst ` set ts")
  case False
  then have "map_of (fold (touch v0) ts []) k = None"
    using keys_touches [of v0 ts "[]"] by (simp add: map_of_eq_None_iff)
  moreover have "filter (\<lambda>t. fst t = k) ts = []" using False by (auto simp: filter_empty_conv)
  ultimately show ?thesis by simp
next
  case True
  then obtain v where v: "map_of (fold (touch v0) ts []) k = Some v"
    using keys_touches [of v0 ts "[]"] by (metis Un_iff map_of_eq_None_iff not_None_eq)
  then have "v = fold snd (filter (\<lambda>t. fst t = k) ts) v0"
    using umap_get_touches [of v0 ts "[]" k] by (simp add: umap_get_def)
  moreover have "filter (\<lambda>t. fst t = k) ts \<noteq> []" using True by (auto simp: filter_empty_conv)
  ultimately show ?thesis using v by (simp split: list.split)
qed

locale dimension =
  fixes proj :: "Aggregator \<Rightarrow> ('k, 'v) umap"
    and touches :: "Event \<Rightarrow> ('k \<times> ('v \<Rightarrow> 'v)) list"
    and v0 :: 'v
  assumes proj_init: "proj Aggregator_init = []"
    and proj_step: "proj (process_event ev a) = fold (touch v0) (touches ev) (proj a)"
begin

lemma proj_aggregate: "proj (aggregate evs) = fold (touch v0) (concat (map touches evs)) []"
proof -
  have "proj (fold process_event evs a) = fold (touch v0) (concat (map touches evs)) (proj a)" for a
    by (induction evs arbitrary: a) (simp_all add: proj_step)
  then show ?thesis by (simp add: aggregate_def proj_init)
qed

lemma wf_aggregate: "umap_wf (proj (aggregate evs))"
  by (simp add: proj_aggregate umap_wf_touches)

lemma lookup_aggregate:
  "map_of (proj (aggregate evs)) k =
     (case filter (\<lambda>t. fst t = k) (concat (map touches evs)) of
        [] \<Rightarrow> None | us \<Rightarrow> Some (fold snd us v0))"
  by (simp add: proj_aggregate map_of_touches)

text \<open>A quantity that every touch increases by its own amount is conserved by the map.\<close>

lemma sum_aggregate:
  fixes g :: "'v \<Rightarrow> 'n :: ab_group_add"
  assumes "g v0 = 0"
    and "\<And>ev k f v. ev \<in> set evs \<Longrightarrow> (k, f) \<in> set (touches ev) \<Longrightarrow> g (f v) = g v + amount ev"
  shows "sum_list (map (g \<circ> snd) (proj (aggregate evs))) =
    sum_list (map (\<lambda>ev. sum_list (map (\<lambda>_. amount ev) (touches ev))) evs)"
proof -
  have upd: "sum_list (map (g \<circ> snd) (umap_upd k f v0 m)) = sum_list (map (g \<circ> snd) m) + d"
    if "\<And>v. g (f v) = g v + d" for k f m d
    using that assms(1) by (induction k f v0 m rule: umap_upd.induct) (simp_all add: algebra_simps)
  have one: "sum_list (map (g \<circ> snd) (fold (touch v0) ts m)) =
      sum_list (map (g \<circ> snd) m) + sum_list (map (\<lambda>_. d) ts)"
    if "\<And>k f v. (k, f) \<in> set ts \<Longrightarrow> g (f v) = g v + d" for ts m d
    using that
  proof (induction ts arbitrary: m)
    case (Cons t ts)
    have "sum_list (map (g \<circ> snd) (touch v0 t m)) = sum_list (map (g \<circ> snd) m) + d"
      unfolding touch_def using Cons.prems [of "fst t" "snd t"] by (intro upd) simp
    moreover have "sum_list (map (g \<circ> snd) (fold (touch v0) ts (touch v0 t m))) =
        sum_list (map (g \<circ> snd) (touch v0 t m)) + sum_list (map (\<lambda>_. d) ts)"
      using Cons.prems by (intro Cons.IH) auto
    ultimately show ?case by (simp add: algebra_simps comp_def)
  qed simp
  have "sum_list (map (g \<circ> snd) (proj (fold process_event evs' a))) =
      sum_list (map (g \<circ> snd) (proj a)) +
      sum_list (map (\<lambda>ev. sum_list (map (\<lambda>_. amount ev) (touches ev))) evs')"
    if "set evs' \<subseteq> set evs" for evs' a
    using that
  proof (induction evs' arbitrary: a)
    case (Cons ev evs')
    have "sum_list (map (g \<circ> snd) (proj (process_event ev a))) =
        sum_list (map (g \<circ> snd) (proj a)) + sum_list (map (\<lambda>_. amount ev) (touches ev))"
      unfolding proj_step using assms(2) Cons.prems by (intro one) auto
    then show ?case using Cons by (simp add: algebra_simps comp_def)
  qed simp
  from this [of evs Aggregator_init] show ?thesis by (simp add: aggregate_def proj_init)
qed

end

section \<open>The four dimensions\<close>

definition aggregated :: "Event \<Rightarrow> bool" where
  "aggregated ev \<longleftrightarrow> ev_type ev \<in> {EvSyscallSlow, EvIoWait, EvLockWait, EvOffcpuSlice}"

definition syscall_like :: "Event \<Rightarrow> bool" where
  "syscall_like ev \<longleftrightarrow> ev_type ev \<in> {EvSyscallSlow, EvIoWait, EvLockWait}"

definition process_touches :: "Event \<Rightarrow> (u32 \<times> (ProcessStats \<Rightarrow> ProcessStats)) list" where
  "process_touches ev = (if aggregated ev then [(ev_pid ev, process_entry ev)] else [])"

definition thread_touches :: "Event \<Rightarrow> (u64 \<times> (ThreadStats \<Rightarrow> ThreadStats)) list" where
  "thread_touches ev =
     (if aggregated ev then [(thread_key (ev_pid ev) (ev_tid ev), thread_entry ev)] else [])"

definition syscall_touches :: "Event \<Rightarrow> (u64 \<times> (SyscallStats \<Rightarrow> SyscallStats)) list" where
  "syscall_touches ev = (if syscall_like ev then [(ev_syscall_id ev, syscall_entry ev)] else [])"

definition stack_touch :: "Event \<Rightarrow> i64 \<Rightarrow> bool \<Rightarrow> (i64 \<times> (StackStats \<Rightarrow> StackStats)) list" where
  "stack_touch ev sid kern = (if sint sid < 0 then [] else [(sid, stack_entry ev sid kern)])"

definition stack_touches :: "Event \<Rightarrow> (i64 \<times> (StackStats \<Rightarrow> StackStats)) list" where
  "stack_touches ev =
     (if aggregated ev
      then stack_touch ev (ev_user_stack_id ev) False @ stack_touch ev (ev_kern_stack_id ev) True
      else [])"

lemmas update_defs = process_event_def update_process_def update_thread_def update_syscall_def
  update_stack_def add_stack_def Let_def

lemmas touch_defs = touch_def aggregated_def syscall_like_def process_touches_def
  thread_touches_def syscall_touches_def stack_touch_def stack_touches_def

interpretation process_dim: dimension procs process_touches ProcessStats_init
  by unfold_locales (simp_all add: Aggregator_init_def update_defs touch_defs)

interpretation thread_dim: dimension threads thread_touches ThreadStats_init
  by unfold_locales (simp_all add: Aggregator_init_def update_defs touch_defs)

interpretation syscall_dim: dimension syscalls syscall_touches SyscallStats_init
  by unfold_locales (simp_all add: Aggregator_init_def update_defs touch_defs)

interpretation stack_dim: dimension stacks stack_touches StackStats_init
  by unfold_locales (simp_all add: Aggregator_init_def update_defs touch_defs)

section \<open>Summaries\<close>

text \<open>What the entry of a key should hold, as a function of the events of that key.\<close>

definition durations :: "Event list \<Rightarrow> u64 list" where
  "durations es = map ev_duration_ns es"

definition offcpu_ns :: "Event list \<Rightarrow> u64" where
  "offcpu_ns es = sum_list (durations (filter (\<lambda>e. ev_type e = EvOffcpuSlice) es))"

definition syscall_ns :: "Event list \<Rightarrow> u64" where
  "syscall_ns es = sum_list (durations (filter (\<lambda>e. ev_type e \<noteq> EvOffcpuSlice) es))"

definition peak :: "u64 list \<Rightarrow> u64" where
  "peak vs = fold max vs 0"

lemma peak_Max: "peak vs = Max (set (0 # vs))"
  by (simp only: peak_def Max.set_eq_fold)

definition process_summary :: "u32 \<Rightarrow> Event list \<Rightarrow> ProcessStats" where
  "process_summary pid es =
     \<lparr>ps_pid = pid, ps_comm = comm_str (last es), ps_total_syscall_ns = syscall_ns es,
      ps_total_offcpu_ns = offcpu_ns es, ps_max_latency_ns = peak (durations es),
      ps_slow_event_count = of_nat (length es), ps_latency_hist = hist_of (durations es)\<rparr>"

definition thread_summary :: "u32 \<Rightarrow> u32 \<Rightarrow> Event list \<Rightarrow> ThreadStats" where
  "thread_summary pid tid es =
     \<lparr>ts_pid = pid, ts_tid = tid, ts_comm = comm_str (last es),
      ts_total_syscall_ns = syscall_ns es, ts_total_offcpu_ns = offcpu_ns es,
      ts_max_latency_ns = peak (durations es),
      ts_slow_event_count = of_nat (length es), ts_latency_hist = hist_of (durations es)\<rparr>"

definition syscall_summary :: "u64 \<Rightarrow> Event list \<Rightarrow> SyscallStats" where
  "syscall_summary sid es =
     \<lparr>ss_syscall_id = sid, ss_count = of_nat (length es), ss_total_ns = sum_list (durations es),
      ss_max_ns = peak (durations es), ss_latency_hist = hist_of (durations es),
      ss_affected_pids = set (map ev_pid es)\<rparr>"

lemma summary_snoc [simp]:
  "durations (es @ [e]) = durations es @ [ev_duration_ns e]"
  "offcpu_ns (es @ [e]) =
     (if ev_type e = EvOffcpuSlice then offcpu_ns es + ev_duration_ns e else offcpu_ns es)"
  "syscall_ns (es @ [e]) =
     (if ev_type e = EvOffcpuSlice then syscall_ns es else syscall_ns es + ev_duration_ns e)"
  by (simp_all add: durations_def offcpu_ns_def syscall_ns_def)

lemma summary_Nil [simp]: "durations [] = []" "offcpu_ns [] = 0" "syscall_ns [] = 0"
  by (simp_all add: durations_def offcpu_ns_def syscall_ns_def)

lemma process_entry_summary:
  "ev_pid e = pid \<Longrightarrow> process_entry e ProcessStats_init = process_summary pid [e]"
  "ev_pid e = pid \<Longrightarrow> process_entry e (process_summary pid es) = process_summary pid (es @ [e])"
  unfolding process_entry_def process_summary_def ProcessStats_init_def Let_def if_greater_max
  by (auto simp: durations_def offcpu_ns_def syscall_ns_def hist_of_def peak_def max.commute)

lemma fold_process_entry:
  "es \<noteq> [] \<Longrightarrow> (\<And>e. e \<in> set es \<Longrightarrow> ev_pid e = pid) \<Longrightarrow>
   fold process_entry es ProcessStats_init = process_summary pid es"
  by (induction es rule: rev_nonempty_induct) (simp_all add: process_entry_summary)

lemma thread_entry_summary:
  "ev_pid e = pid \<and> ev_tid e = tid \<Longrightarrow> thread_entry e ThreadStats_init = thread_summary pid tid [e]"
  "ev_pid e = pid \<and> ev_tid e = tid \<Longrightarrow> thread_entry e (thread_summary pid tid es) = thread_summary pid tid (es @ [e])"
  unfolding thread_entry_def thread_summary_def ThreadStats_init_def Let_def if_greater_max
  by (auto simp: durations_def offcpu_ns_def syscall_ns_def hist_of_def peak_def max.commute)

lemma fold_thread_entry:
  "es \<noteq> [] \<Longrightarrow> (\<And>e. e \<in> set es \<Longrightarrow> ev_pid e = pid \<and> ev_tid e = tid) \<Longrightarrow>
   fold thread_entry es ThreadStats_init = thread_summary pid tid es"
  by (induction es rule: rev_nonempty_induct) (simp_all add: thread_entry_summary)

lemma syscall_entry_summary:
  "ev_syscall_id e = sid \<Longrightarrow> syscall_entry e SyscallStats_init = syscall_summary sid [e]"
  "ev_syscall_id e = sid \<Longrightarrow> syscall_entry e (syscall_summary sid es) = syscall_summary sid (es @ [e])"
  unfolding syscall_entry_def syscall_summary_def SyscallStats_init_def if_greater_max
  by (auto simp: durations_def offcpu_ns_def syscall_ns_def hist_of_def peak_def max.commute)

lemma fold_syscall_entry:
  "es \<noteq> [] \<Longrightarrow> (\<And>e. e \<in> set es \<Longrightarrow> ev_syscall_id e = sid) \<Longrightarrow>
   fold syscall_entry es SyscallStats_init = syscall_summary sid es"
  by (induction es rule: rev_nonempty_induct) (simp_all add: syscall_entry_summary)

lemma fold_snd_touches: "fold snd (map (\<lambda>e. (k, f e)) es) v = fold f es v"
  by (induction es arbitrary: v) simp_all

lemma filter_touches_if:
  "filter (\<lambda>t. fst t = k) (concat (map (\<lambda>e. if P e then [(key e, f e)] else []) evs)) =
   map (\<lambda>e. (k, f e)) (filter (\<lambda>e. P e \<and> key e = k) evs)"
  by (induction evs) auto

lemma case_touches:
  "(case map (\<lambda>e. (k, f e)) es of [] \<Rightarrow> None | us \<Rightarrow> Some (fold snd us v)) =
   (if es = [] then None else Some (fold f es v))"
  by (cases es) (simp_all add: fold_snd_touches)

lemmas lookup_touches = filter_touches_if case_touches

lemma lookup_process:
  "map_of (procs (aggregate evs)) pid =
     (if filter (\<lambda>e. aggregated e \<and> ev_pid e = pid) evs = [] then None
      else Some (process_summary pid (filter (\<lambda>e. aggregated e \<and> ev_pid e = pid) evs)))"
  unfolding process_dim.lookup_aggregate process_touches_def lookup_touches
  by (auto intro!: fold_process_entry)

section \<open>Packing the thread key\<close>

lemma thread_key_parts:
  "ucast (thread_key pid tid) = tid" "ucast (drop_bit 32 (thread_key pid tid)) = pid"
proof -
  have "\<not> bit tid (32 + n)" for n using bit_imp_le_length [of tid "32 + n"] by auto
  then show "ucast (thread_key pid tid) = tid" "ucast (drop_bit 32 (thread_key pid tid)) = pid"
    by (auto intro!: bit_word_eqI simp: thread_key_def bit_simps)
qed

lemma thread_key_eq_iff: "thread_key p t = thread_key p' t' \<longleftrightarrow> p = p' \<and> t = t'"
  by (metis thread_key_parts)

section \<open>Stacks\<close>

text \<open>
  The entry of a stack id: every event that carries it as its user or its kernel stack adds its
  duration, and once more when it carries it as both.
\<close>

definition stack_refs :: "i64 \<Rightarrow> Event \<Rightarrow> nat" where
  "stack_refs sid ev =
     (if ev_user_stack_id ev = sid then 1 else 0) + (if ev_kern_stack_id ev = sid then 1 else 0)"

lemma filter_stack_touches:
  "0 \<le> sint sid \<Longrightarrow> filter (\<lambda>t. fst t = sid) (stack_touches ev) =
     (if aggregated ev
      then (if ev_user_stack_id ev = sid then [(sid, stack_entry ev sid False)] else []) @
           (if ev_kern_stack_id ev = sid then [(sid, stack_entry ev sid True)] else [])
      else [])"
  by (auto simp: stack_touches_def stack_touch_def)

lemma stack_fold_totals:
  assumes "0 \<le> sint sid"
  shows "st_total_ns (fold snd (filter (\<lambda>t. fst t = sid) (concat (map stack_touches evs))) st) =
      st_total_ns st + sum_list (map (\<lambda>ev. of_nat (stack_refs sid ev) * ev_duration_ns ev)
        (filter aggregated evs))"
    and "st_count (fold snd (filter (\<lambda>t. fst t = sid) (concat (map stack_touches evs))) st) =
      st_count st + sum_list (map (\<lambda>ev. of_nat (stack_refs sid ev)) (filter aggregated evs))"
  by (induction evs arbitrary: st)
     (simp_all add: filter_stack_touches [OF assms] stack_refs_def stack_entry_def algebra_simps)

lemma stack_touched_iff:
  assumes "0 \<le> sint sid"
  shows "filter (\<lambda>t. fst t = sid) (concat (map stack_touches evs)) = [] \<longleftrightarrow>
    (\<forall>ev \<in> set evs. aggregated ev \<longrightarrow> stack_refs sid ev = 0)"
  by (induction evs) (auto simp: filter_stack_touches [OF assms] stack_refs_def)

end
