(* ===== verification/Aggregator_Properties.thy ===== *)
theory Aggregator_Properties
  imports Aggregator_Facts
begin

text \<open>
  The properties of the aggregator: refinement of each dimension to the summary of its events,
  conservation of time and counts across dimensions, independence of the order of the events,
  and the contract of the top-N queries.
\<close>

section \<open>Each dimension is the summary of its events\<close>

lemma aggregate_threads:
  "map_of (threads (aggregate evs)) (thread_key pid tid) =
     (let es = filter (\<lambda>e. aggregated e \<and> ev_pid e = pid \<and> ev_tid e = tid) evs
      in if es = [] then None else Some (thread_summary pid tid es))"
  unfolding thread_dim.lookup_aggregate thread_touches_def lookup_touches Let_def
  by (auto simp: thread_key_eq_iff intro!: fold_thread_entry)

lemma aggregate_syscalls:
  "map_of (syscalls (aggregate evs)) sid =
     (let es = filter (\<lambda>e. syscall_like e \<and> ev_syscall_id e = sid) evs
      in if es = [] then None else Some (syscall_summary sid es))"
  unfolding syscall_dim.lookup_aggregate syscall_touches_def lookup_touches Let_def
  by (auto intro!: fold_syscall_entry)

text \<open>
  C3: after any sequence of events the process map has an entry exactly for the pids with at
  least one slow event, and the entry is the summary of that pid's events: the totals of
  off-CPU and of syscall time, the maximum, the count, the histogram of the durations, and the
  name carried by the latest event. The thread map is keyed by pid and tid packed into 64 bits
  without collisions: the entry found under the packed key is the summary of exactly the events
  of that pid and that tid. The syscall map holds, for every syscall number with a slow syscall
  event, the number of those events, their total and maximal duration, their histogram and the
  set of pids that made them; off-CPU slices never enter it.
\<close>

theorem aggregate_refines:
  "map_of (procs (aggregate evs)) pid =
     (let es = filter (\<lambda>e. aggregated e \<and> ev_pid e = pid) evs
      in if es = [] then None else Some (process_summary pid es)) \<and>
   map_of (threads (aggregate evs)) (thread_key pid tid) =
     (let es = filter (\<lambda>e. aggregated e \<and> ev_pid e = pid \<and> ev_tid e = tid) evs
      in if es = [] then None else Some (thread_summary pid tid es)) \<and>
   map_of (syscalls (aggregate evs)) sid =
     (let es = filter (\<lambda>e. syscall_like e \<and> ev_syscall_id e = sid) evs
      in if es = [] then None else Some (syscall_summary sid es))"
  by (simp only: lookup_process aggregate_threads aggregate_syscalls Let_def simp_thms)

text \<open>
  C21: a non-negative stack id has an entry exactly when an aggregated event carries it, and the
  entry's time and count are those of the events that carry it, an event that carries it both as
  user and as kernel stack counting twice; negative ids have no entry.
\<close>

theorem aggregate_stacks:
  "(sint sid < 0 \<longrightarrow> map_of (stacks (aggregate evs)) sid = None) \<and>
   (0 \<le> sint sid \<longrightarrow>
      (case map_of (stacks (aggregate evs)) sid of
         None \<Rightarrow> \<forall>ev \<in> set evs. aggregated ev \<longrightarrow> stack_refs sid ev = 0
       | Some st \<Rightarrow>
           st_total_ns st = sum_list (map (\<lambda>ev. of_nat (stack_refs sid ev) * ev_duration_ns ev)
             (filter aggregated evs)) \<and>
           st_count st = sum_list (map (\<lambda>ev. of_nat (stack_refs sid ev)) (filter aggregated evs)) \<and>
           (\<exists>ev \<in> set evs. aggregated ev \<and> stack_refs sid ev \<noteq> 0)))"
proof (cases "sint sid < 0")
  case True
  have "filter (\<lambda>t. fst t = sid) (concat (map stack_touches evs)) = []"
    using True by (auto simp: filter_empty_conv stack_touches_def stack_touch_def split: if_splits)
  then show ?thesis using True by (simp add: stack_dim.lookup_aggregate)
next
  case False
  then have sid: "0 \<le> sint sid" by simp
  show ?thesis
  proof (cases "filter (\<lambda>t. fst t = sid) (concat (map stack_touches evs))")
    case Nil
    then have "\<forall>ev \<in> set evs. aggregated ev \<longrightarrow> stack_refs sid ev = 0"
      using stack_touched_iff [OF sid] by blast
    moreover have "map_of (stacks (aggregate evs)) sid = None"
      by (simp add: stack_dim.lookup_aggregate Nil)
    ultimately show ?thesis using sid by simp
  next
    case (Cons t ts)
    then have "\<exists>ev \<in> set evs. aggregated ev \<and> stack_refs sid ev \<noteq> 0"
      using stack_touched_iff [OF sid, of evs] by auto
    moreover have "map_of (stacks (aggregate evs)) sid = Some (fold snd (t # ts) StackStats_init)"
      by (simp add: stack_dim.lookup_aggregate Cons)
    ultimately show ?thesis
      using sid stack_fold_totals [OF sid, of evs StackStats_init] unfolding Cons
      by (simp add: StackStats_init_def)
  qed
qed

theorem aggregate_stacks_witness:
  "map_option st_total_ns (map_of (stacks (aggregate [slow_read 1 7, slow_read 2 9])) 5) = Some 16 \<and>
   map_option st_count (map_of (stacks (aggregate [slow_read 1 7, slow_read 2 9])) 5) = Some 2"
  using aggregate_stacks [of 5 "[slow_read 1 7, slow_read 2 9]"]
  by (auto simp: stack_refs_def aggregated_def slow_read_def split: option.splits)

section \<open>Conservation\<close>

lemma sum_list_touches:
  "sum_list (map (\<lambda>x. sum_list (map (\<lambda>_. f x) (if P x then [y x] else []))) xs) =
   (sum_list (map f (filter P xs)) :: 'n :: monoid_add)"
  by (induction xs) simp_all

lemma sum_list_ones: "sum_list (map (\<lambda>_. 1) xs) = (of_nat (length xs) :: 'n :: semiring_1)"
  by (induction xs) simp_all

lemma process_amounts:
  "sum_list (map (\<lambda>ev. sum_list (map (\<lambda>_. f ev) (process_touches ev))) evs) =
   sum_list (map f (filter aggregated evs))"
  unfolding process_touches_def by (rule sum_list_touches)

lemma thread_amounts:
  "sum_list (map (\<lambda>ev. sum_list (map (\<lambda>_. f ev) (thread_touches ev))) evs) =
   sum_list (map f (filter aggregated evs))"
  unfolding thread_touches_def by (rule sum_list_touches)

lemma syscall_amounts:
  "sum_list (map (\<lambda>ev. sum_list (map (\<lambda>_. f ev) (syscall_touches ev))) evs) =
   sum_list (map f (filter syscall_like evs))"
  unfolding syscall_touches_def by (rule sum_list_touches)

lemma total_events_aggregate: "total_events (aggregate evs) = of_nat (length evs)"
proof -
  have "total (fold process_event evs a) = total a + of_nat (length evs)" for a
    by (induction evs arbitrary: a) (simp_all add: update_defs algebra_simps)
  then show ?thesis by (simp add: total_events_def aggregate_def Aggregator_init_def)
qed

text \<open>
  C4: nothing is lost or counted twice across the dimensions: summed over all entries, the
  process map and the thread map each hold the total duration and the number of the aggregated
  events, and the syscall map holds those of the syscall events; all sums are in the counters'
  own modular arithmetic, so this holds also when counters wrap. Every event, aggregated or not,
  is counted in the grand total.
\<close>

theorem aggregate_conserves:
  "sum_list (map ((\<lambda>p. ps_total_syscall_ns p + ps_total_offcpu_ns p) \<circ> snd) (procs (aggregate evs)))
     = sum_list (map ev_duration_ns (filter aggregated evs)) \<and>
   sum_list (map ((\<lambda>t. ts_total_syscall_ns t + ts_total_offcpu_ns t) \<circ> snd) (threads (aggregate evs)))
     = sum_list (map ev_duration_ns (filter aggregated evs)) \<and>
   sum_list (map (ss_total_ns \<circ> snd) (syscalls (aggregate evs)))
     = sum_list (map ev_duration_ns (filter syscall_like evs)) \<and>
   sum_list (map (ps_slow_event_count \<circ> snd) (procs (aggregate evs)))
     = of_nat (length (filter aggregated evs)) \<and>
   sum_list (map (ts_slow_event_count \<circ> snd) (threads (aggregate evs)))
     = of_nat (length (filter aggregated evs)) \<and>
   sum_list (map (ss_count \<circ> snd) (syscalls (aggregate evs)))
     = of_nat (length (filter syscall_like evs)) \<and>
   total_events (aggregate evs) = of_nat (length evs)"
proof (intro conjI)
  show "sum_list (map ((\<lambda>p. ps_total_syscall_ns p + ps_total_offcpu_ns p) \<circ> snd) (procs (aggregate evs)))
     = sum_list (map ev_duration_ns (filter aggregated evs))"
    by (rule trans [OF process_dim.sum_aggregate process_amounts])
       (auto simp: ProcessStats_init_def process_touches_def process_entry_def Let_def split: if_splits)
  show "sum_list (map ((\<lambda>t. ts_total_syscall_ns t + ts_total_offcpu_ns t) \<circ> snd) (threads (aggregate evs)))
     = sum_list (map ev_duration_ns (filter aggregated evs))"
    by (rule trans [OF thread_dim.sum_aggregate thread_amounts])
       (auto simp: ThreadStats_init_def thread_touches_def thread_entry_def Let_def split: if_splits)
  show "sum_list (map (ss_total_ns \<circ> snd) (syscalls (aggregate evs)))
     = sum_list (map ev_duration_ns (filter syscall_like evs))"
    by (rule trans [OF syscall_dim.sum_aggregate syscall_amounts])
       (auto simp: SyscallStats_init_def syscall_touches_def syscall_entry_def split: if_splits)
  show "sum_list (map (ps_slow_event_count \<circ> snd) (procs (aggregate evs)))
     = of_nat (length (filter aggregated evs))"
    by (rule trans [OF trans [OF process_dim.sum_aggregate process_amounts] sum_list_ones])
       (auto simp: ProcessStats_init_def process_touches_def process_entry_def Let_def split: if_splits)
  show "sum_list (map (ts_slow_event_count \<circ> snd) (threads (aggregate evs)))
     = of_nat (length (filter aggregated evs))"
    by (rule trans [OF trans [OF thread_dim.sum_aggregate thread_amounts] sum_list_ones])
       (auto simp: ThreadStats_init_def thread_touches_def thread_entry_def Let_def split: if_splits)
  show "sum_list (map (ss_count \<circ> snd) (syscalls (aggregate evs)))
     = of_nat (length (filter syscall_like evs))"
    by (rule trans [OF trans [OF syscall_dim.sum_aggregate syscall_amounts] sum_list_ones])
       (auto simp: SyscallStats_init_def syscall_touches_def syscall_entry_def split: if_splits)
  show "total_events (aggregate evs) = of_nat (length evs)" by (rule total_events_aggregate)
qed

section \<open>Order independence\<close>

lemma sum_list_perm: "mset vs = mset ws \<Longrightarrow> sum_list vs = (sum_list ws :: 'n :: comm_monoid_add)"
  by (simp flip: sum_mset_sum_list)

lemma hist_of_perm:
  assumes "mset vs = mset ws"
  shows "hist_of vs = hist_of ws"
proof -
  have set: "set vs = set ws" and len: "length vs = length ws"
    using assms by (rule mset_eq_setD, rule mset_eq_length)
  have flt: "length (filter P vs) = length (filter P ws)" for P
    by (rule mset_eq_length) (simp add: assms)
  have "h_buckets (hist_of vs) = h_buckets (hist_of ws)"
    by (rule nth_equalityI) (simp_all add: buckets_hist_of flt)
  then show ?thesis
    by (intro Histogram.equality)
       (simp_all add: sum_hist_of count_hist_of max_hist_of min_hist_of len set sum_list_perm [OF assms])
qed

lemma durations_perm: "mset es = mset fs \<Longrightarrow> mset (durations es) = mset (durations fs)"
  by (simp add: durations_def)

lemma process_summary_perm:
  assumes "mset es = mset fs"
  shows "(process_summary pid es)\<lparr>ps_comm := []\<rparr> = (process_summary pid fs)\<lparr>ps_comm := []\<rparr>"
proof -
  have sum: "sum_list (durations (filter Q es)) = sum_list (durations (filter Q fs))" for Q
    by (rule sum_list_perm, rule durations_perm) (simp add: assms)
  have "set (durations es) = set (durations fs)"
    using durations_perm [OF assms] by (rule mset_eq_setD)
  then have "peak (durations es) = peak (durations fs)" by (simp add: peak_Max)
  moreover have "hist_of (durations es) = hist_of (durations fs)"
    using durations_perm [OF assms] by (rule hist_of_perm)
  moreover have "length es = length fs" using assms by (rule mset_eq_length)
  ultimately show ?thesis by (simp add: process_summary_def offcpu_ns_def syscall_ns_def sum)
qed

text \<open>
  C22: the interleaving of the per-CPU event streams does not matter: for two orders of the same
  events, every pid has an entry in both aggregations or in neither, and the two entries agree
  in every field except possibly the process name (which is the latest one seen).
\<close>

theorem aggregate_order_independent:
  assumes "mset evs = mset evs'"
  shows "map_option (\<lambda>p. p\<lparr>ps_comm := []\<rparr>) (map_of (procs (aggregate evs)) pid) =
         map_option (\<lambda>p. p\<lparr>ps_comm := []\<rparr>) (map_of (procs (aggregate evs')) pid)"
proof -
  let ?P = "\<lambda>e. aggregated e \<and> ev_pid e = pid"
  have m: "mset (filter ?P evs) = mset (filter ?P evs')" using assms by simp
  have "filter ?P evs = [] \<longleftrightarrow> filter ?P evs' = []"
    using mset_eq_length [OF m] unfolding length_0_conv [symmetric] by simp
  then show ?thesis using process_summary_perm [OF m] by (simp add: lookup_process)
qed

theorem aggregate_order_independent_witness:
  "mset [slow_read 1 7, slow_read 1 9] = mset [slow_read 1 9, slow_read 1 7] \<and>
   map_option (\<lambda>p. p\<lparr>ps_comm := []\<rparr>) (map_of (procs (aggregate [slow_read 1 7, slow_read 1 9])) 1) =
   map_option (\<lambda>p. p\<lparr>ps_comm := []\<rparr>) (map_of (procs (aggregate [slow_read 1 9, slow_read 1 7])) 1)"
proof -
  have "mset [slow_read 1 7, slow_read 1 9] = mset [slow_read 1 9, slow_read 1 7]" by simp
  then show ?thesis using aggregate_order_independent by blast
qed

end
