(* ===== verification/Aggregator_Queries.thy ===== *)
theory Aggregator_Queries
  imports Aggregator_Facts
begin

text \<open>
  The top-N queries. The order in which a hash map is iterated and the order in which
  \<^verbatim>\<open>std::sort\<close> leaves equivalent elements are not specified, so the queries are verified
  against the contracts of both: the locale states what any sorter and any iteration order give,
  and the properties restate it over the events that were aggregated.
\<close>

section \<open>Sorting and cutting a hash map\<close>

locale top_query = std_sort srt
  for srt :: "('v \<Rightarrow> 'v \<Rightarrow> bool) \<Rightarrow> 'v list \<Rightarrow> 'v list" +
  fixes iter :: "('k, 'v) umap \<Rightarrow> ('k \<times> 'v) list"
  assumes iter_mset: "umap_wf m \<Longrightarrow> mset (iter m) = mset m"
begin

lemma top_perm:
  assumes "strict_weak lt" "umap_wf m"
  shows "mset (srt lt (map snd (iter m))) = mset (map snd m)"
  using iter_mset [OF assms(2)] by (simp add: sort_mset [OF assms(1)])

lemma top_length:
  assumes "strict_weak lt" "umap_wf m"
  shows "length (take n (srt lt (map snd (iter m)))) = min n (length m)"
  using mset_eq_length [OF top_perm [OF assms]] by simp

lemma top_ordered:
  assumes "strict_weak lt"
  shows "sorted_wrt (\<lambda>x y. \<not> lt y x) (take n (srt lt (map snd (iter m))))"
  by (rule sorted_wrt_take) (rule sort_ordered [OF assms])

lemma top_members:
  assumes "strict_weak lt" "umap_wf m"
  shows "set (take n (srt lt (map snd (iter m)))) \<subseteq> snd ` set m"
  using mset_eq_setD [OF top_perm [OF assms]] set_take_subset [of n] by fastforce

lemma top_distinct:
  assumes "strict_weak lt" "umap_wf m" "\<And>k v. (k, v) \<in> set m \<Longrightarrow> key v = k"
  shows "distinct (map key (take n (srt lt (map snd (iter m)))))"
proof -
  have "map (key \<circ> snd) m = map fst m" using assms(3) by (intro map_cong) auto
  then have "distinct (map key (map snd m))" using assms(2) unfolding umap_wf_def map_map by metis
  moreover have "mset (map key (srt lt (map snd (iter m)))) = mset (map key (map snd m))"
    unfolding mset_map [of key] top_perm [OF assms(1,2)] ..
  ultimately have "distinct (map key (srt lt (map snd (iter m))))"
    by (metis mset_eq_imp_distinct_iff)
  then show ?thesis by (simp flip: take_map)
qed

lemma top_dominates:
  assumes "strict_weak lt" "umap_wf m" "v \<in> snd ` set m"
    and "v \<notin> set (take n (srt lt (map snd (iter m))))"
    and "w \<in> set (take n (srt lt (map snd (iter m))))"
  shows "\<not> lt v w"
proof -
  have "v \<in> set (srt lt (map snd (iter m)))"
    using mset_eq_setD [OF top_perm [OF assms(1,2)]] assms(3) by simp
  then have "v \<in> set (drop n (srt lt (map snd (iter m))))"
    using assms(4) by (metis Un_iff append_take_drop_id set_append)
  then show ?thesis using sort_take_dominates [OF assms(1)] assms(5) by blast
qed

end

interpretation listed: top_query insertion_sort id
  by unfold_locales simp

lemma cut_take: "(if length v > n then take n v else v) = take n v"
  by simp

lemma strict_weak_process_before [simp]: "strict_weak (process_before by)"
  by (cases "by") (auto simp: strict_weak_def irreflp_def transp_def)

lemma strict_weak_thread_before [simp]: "strict_weak (thread_before by)"
  by (cases "by") (auto simp: strict_weak_def irreflp_def transp_def)

section \<open>The process report\<close>

definition process_report :: "Event list \<Rightarrow> u32 \<Rightarrow> ProcessStats" where
  "process_report evs pid = process_summary pid (filter (\<lambda>e. aggregated e \<and> ev_pid e = pid) evs)"

definition reported_pids :: "Event list \<Rightarrow> u32 set" where
  "reported_pids evs = ev_pid ` set (filter aggregated evs)"

lemma procs_entries:
  "(pid, p) \<in> set (procs (aggregate evs)) \<longleftrightarrow> pid \<in> reported_pids evs \<and> p = process_report evs pid"
  unfolding umap_wf_map_of [OF process_dim.wf_aggregate]
  by (auto simp: lookup_process process_report_def reported_pids_def filter_empty_conv)

lemma procs_set:
  "set (procs (aggregate evs)) = (\<lambda>pid. (pid, process_report evs pid)) ` reported_pids evs"
  by (auto simp: procs_entries)

lemma procs_values: "snd ` set (procs (aggregate evs)) = process_report evs ` reported_pids evs"
  by (simp add: procs_set image_image)

lemma procs_size: "length (procs (aggregate evs)) = card (reported_pids evs)"
proof -
  have "fst ` set (procs (aggregate evs)) = reported_pids evs"
    by (simp add: procs_set image_image)
  then show ?thesis
    using process_dim.wf_aggregate [of evs] distinct_card [of "map fst (procs (aggregate evs))"]
    by (simp add: umap_wf_def)
qed

text \<open>
  C12: for every sorter and every hash-map iteration order that keep their contracts, the top-N
  process query over any history of events returns the N processes (or all, when fewer have
  slow events) that rank highest under the chosen key: one entry per process, each the exact
  summary of its events, in non-increasing order, and no process left out ranks above one
  returned.
\<close>

theorem top_processes_contract:
  assumes "top_query srt iter"
  shows "let r = top_processes srt iter n by (aggregate evs) in
    length r = min n (card (reported_pids evs)) \<and>
    distinct (map ps_pid r) \<and>
    set r \<subseteq> process_report evs ` reported_pids evs \<and>
    sorted_wrt (\<lambda>p q. \<not> process_before by q p) r \<and>
    (\<forall>pid \<in> reported_pids evs. process_report evs pid \<notin> set r \<longrightarrow>
       (\<forall>p \<in> set r. \<not> process_before by (process_report evs pid) p))"
proof -
  let ?m = "procs (aggregate evs)"
  note wf = process_dim.wf_aggregate [of evs]
  have key: "ps_pid p = pid" if "(pid, p) \<in> set ?m" for pid p
    using that by (simp add: procs_entries process_report_def process_summary_def)
  show ?thesis
    unfolding top_processes_def cut_take Let_def
    using top_query.top_length [OF assms strict_weak_process_before wf]
      top_query.top_distinct [OF assms strict_weak_process_before wf key]
      top_query.top_members [OF assms strict_weak_process_before wf]
      top_query.top_ordered [OF assms strict_weak_process_before]
      top_query.top_dominates [OF assms strict_weak_process_before wf]
    by (auto simp: procs_size procs_values)
qed

theorem top_processes_contract_witness:
  "map ps_pid (top_processes insertion_sort id 1 TotalLatency
      (aggregate [slow_read 1 7, slow_read 2 9])) = [2]"
proof -
  let ?evs = "[slow_read 1 7, slow_read 2 9]"
  let ?r = "top_processes insertion_sort id 1 TotalLatency (aggregate ?evs)"
  have pids: "reported_pids ?evs = {1, 2}"
    by (auto simp: reported_pids_def aggregated_def slow_read_def)
  have keys: "ps_pid (process_report ?evs p) = p" for p
    by (simp add: process_report_def process_summary_def)
  have less: "process_before TotalLatency (process_report ?evs 2) (process_report ?evs 1)"
    by (simp add: process_report_def process_summary_def aggregated_def slow_read_def
        offcpu_ns_def syscall_ns_def durations_def)
  from top_processes_contract [OF listed.top_query_axioms, of 1 TotalLatency ?evs, unfolded Let_def]
  have "length ?r = 1" "set ?r \<subseteq> process_report ?evs ` {1, 2}"
    "process_report ?evs 2 \<notin> set ?r \<longrightarrow>
      (\<forall>p \<in> set ?r. \<not> process_before TotalLatency (process_report ?evs 2) p)"
    unfolding pids by simp_all
  then obtain p where "?r = [p]" "p = process_report ?evs 1 \<or> p = process_report ?evs 2"
    "p \<noteq> process_report ?evs 2 \<longrightarrow> \<not> process_before TotalLatency (process_report ?evs 2) p"
    by (cases ?r) auto
  then show ?thesis using less keys by auto
qed

end
