(* ===== verification/Ksr_Format.thy ===== *)
theory Ksr_Format
  imports Event_Model
begin

text \<open>
  The \<^verbatim>\<open>.ksr\<close> recording format (\<^verbatim>\<open>src/record/format.cpp\<close>): a 64-byte header followed by
  length-prefixed events in their memory layout. The clock readings of the header are arguments.
\<close>

definition kKsrMagic :: bytes where
  "kKsrMagic = bytes_of_chars ''KSCOPE'' @ [1, 0]"

definition kKsrVersion :: u32 where
  "kKsrVersion = 1"

record KsrHeader =
  kh_magic :: bytes
  kh_version :: u32
  kh_flags :: u32
  kh_timebase_ns :: u64
  kh_start_time_ns :: u64
  kh_reserved :: bytes

definition sizeof_header :: nat where
  "sizeof_header = 64"

definition make_header :: "u64 \<Rightarrow> u64 \<Rightarrow> KsrHeader" where
  "make_header mono_ns wall_ns = \<lparr>
     kh_magic = take 8 kKsrMagic,
     kh_version = kKsrVersion,
     kh_flags = 0,
     kh_timebase_ns = mono_ns,
     kh_start_time_ns = wall_ns,
     kh_reserved = replicate 32 0\<rparr>"

definition validate_header :: "KsrHeader \<Rightarrow> bool" where
  "validate_header hdr \<longleftrightarrow> kh_magic hdr = take 8 kKsrMagic \<and> kh_version hdr \<le> kKsrVersion"

text \<open>The header in memory: it has no padding.\<close>

definition header_bytes :: "KsrHeader \<Rightarrow> bytes" where
  "header_bytes hdr =
     kh_magic hdr @ put32 (kh_version hdr) @ put32 (kh_flags hdr) @
     put64 (kh_timebase_ns hdr) @ put64 (kh_start_time_ns hdr) @ kh_reserved hdr"

definition header_at :: "bytes \<Rightarrow> KsrHeader" where
  "header_at bs = \<lparr>
     kh_magic = field_at 0 8 bs,
     kh_version = get32 8 bs,
     kh_flags = get32 12 bs,
     kh_timebase_ns = get64 16 bs,
     kh_start_time_ns = get64 24 bs,
     kh_reserved = field_at 32 32 bs\<rparr>"

definition header_wf :: "KsrHeader \<Rightarrow> bool" where
  "header_wf hdr \<longleftrightarrow> length (kh_magic hdr) = 8 \<and> length (kh_reserved hdr) = 32"

lemma length_header_bytes [simp]: "header_wf hdr \<Longrightarrow> length (header_bytes hdr) = sizeof_header"
  by (simp add: header_wf_def header_bytes_def sizeof_header_def)

lemma header_at_bytes: "header_wf hdr \<Longrightarrow> header_at (header_bytes hdr @ rest) = hdr"
  by (simp add: header_wf_def header_at_def header_bytes_def get32_def get64_def layout_simps)

lemma length_magic [simp]: "length kKsrMagic = 8"
  by (simp add: kKsrMagic_def bytes_of_chars_def)

lemma header_wf_make [simp]: "header_wf (make_header t w)"
  by (simp add: header_wf_def make_header_def)

lemma validate_make_header [simp]: "validate_header (make_header t w)"
  by (simp add: validate_header_def make_header_def)

section \<open>Events\<close>

text \<open>
  \<^verbatim>\<open>memcpy\<close> of the whole object, with whatever its padding bytes are; reading back fails on a
  short buffer and otherwise takes the object from the front of the buffer.
\<close>

definition serialize_event :: "bytes \<Rightarrow> bytes \<Rightarrow> Event \<Rightarrow> bytes" where
  "serialize_event pad1 pad2 ev = event_bytes pad1 pad2 ev"

definition deserialize_event :: "bytes \<Rightarrow> Event option" where
  "deserialize_event data = (if length data < sizeof_event then None else Some (event_at data))"

end
