(* ===== verification/Kscope_Errors.thy ===== *)
theory Kscope_Errors
  imports Kscope_Prelude
begin

text \<open>
  Errors as values (\<^verbatim>\<open>src/util/errors.hpp\<close>): \<open>'a Result\<close> is \<^verbatim>\<open>std::expected<T, Error>\<close> with
  the error on the left, \<open>Status\<close> is \<^verbatim>\<open>std::expected<void, Error>\<close>. The text of
  \<^verbatim>\<open>strerror(errno)\<close> comes from the system and is an argument.
\<close>

datatype ErrorCode =
    Ok
  | BpfLoadFailed
  | BpfAttachFailed
  | BpfMapError
  | KernelTooOld
  | NoBtf
  | PermissionDenied
  | InvalidArgument
  | IoError
  | SymbolizationFailed
  | RecordFormatError
  | ConfigError
  | Unsupported
  | Internal

record Error =
  err_code :: ErrorCode
  err_message :: string

type_synonym 'a Result = "Error + 'a"
type_synonym Status = "unit Result"

definition make_error :: "ErrorCode \<Rightarrow> string \<Rightarrow> Error" where
  "make_error c msg = \<lparr>err_code = c, err_message = msg\<rparr>"

definition errno_error :: "string \<Rightarrow> ErrorCode \<Rightarrow> string \<Rightarrow> Error" where
  "errno_error strerror c prefix = \<lparr>err_code = c, err_message = prefix @ '': '' @ strerror\<rparr>"

text \<open>\<^verbatim>\<open>auto s = f(); if (!s) return s;\<close>\<close>

fun and_then :: "Status \<times> 's \<Rightarrow> ('s \<Rightarrow> Status \<times> 's) \<Rightarrow> Status \<times> 's" where
  "and_then (Inl e, s) f = (Inl e, s)"
| "and_then (Inr u, s) f = f s"

lemma error_code_simps [simp]:
  "err_code (make_error c msg) = c" "err_code (errno_error str c msg) = c"
  by (simp_all add: make_error_def errno_error_def)

end
