(* ===== verification/Event_Source.thy ===== *)
theory Event_Source
  imports Event_Model
begin

text \<open>
  The callback interface that the live collector and the replay share: \<^verbatim>\<open>EventCallback\<close> of
  \<^verbatim>\<open>src/bpf/collector.hpp\<close> and \<^verbatim>\<open>src/record/replay.hpp\<close>, a \<^verbatim>\<open>std::function\<close> that may be empty
  and works on a state of its owner. A source is specified by the events it delivers: its clients
  only see the callback applied to them in order.
\<close>

type_synonym 's callback = "Event \<Rightarrow> 's \<Rightarrow> 's"

fun call :: "'s callback option \<Rightarrow> Event \<Rightarrow> 's \<Rightarrow> 's" where
  "call None ev s = s"
| "call (Some cb) ev s = cb ev s"

lemma call_Some: "call (Some cb) = cb"
  by (intro ext) simp

lemma fold_snoc: "fold (\<lambda>x ys. ys @ [x]) xs ys = ys @ xs"
  by (induction xs arbitrary: ys) simp_all

locale event_source =
  fixes deliver :: "'i \<Rightarrow> 's callback option \<Rightarrow> 's \<Rightarrow> 's"
    and delivered :: "'i \<Rightarrow> Event list"
  assumes deliver_fold: "deliver i cb s = fold (call cb) (delivered i) s"
begin

lemma deliver_none: "deliver i None s = s"
proof -
  have "fold (call None) evs s = s" for evs by (induction evs) simp_all
  then show ?thesis by (simp add: deliver_fold)
qed

lemma deliver_stage: "deliver i (Some (\<lambda>ev. g (f ev))) s = fold g (map f (delivered i)) s"
  by (simp add: deliver_fold call_Some fold_map comp_def)

end

end
