(* ===== verification/Ksr_Record.thy ===== *)
theory Ksr_Record
  imports Ksr_Format Kscope_Errors Event_Source
begin

text \<open>
  Recording and replaying (\<^verbatim>\<open>src/record/recorder.cpp\<close>, \<^verbatim>\<open>src/record/replay.cpp\<close>). A file open
  for writing is a stdio stream: the bytes the device has taken and those still in the buffer of
  the stream. \<open>room len\<close> is how many bytes the device accepts once it holds \<open>len\<close> bytes of the file, so
  every pattern of short writes is covered; \<open>bufsiz\<close> is the size of the buffer (0 for an unbuffered
  stream); whether \<^verbatim>\<open>fopen\<close> succeeds is an argument. A file open for reading is the bytes still to be read.
\<close>

section \<open>Standard I/O\<close>

record FILE =
  fl_device :: bytes
  fl_buffer :: bytes

text \<open>
  Writing out the buffer: whether the device took all of it, and the stream afterwards. The buffer
  is empty then in either case: what the device refused is lost.
\<close>

definition flush :: "(nat \<Rightarrow> nat) \<Rightarrow> FILE \<Rightarrow> bool \<times> FILE" where
  "flush room f =
     (let k = min (length (fl_buffer f)) (room (length (fl_device f))) in
      (k = length (fl_buffer f), \<lparr>fl_device = fl_device f @ take k (fl_buffer f), fl_buffer = []\<rparr>))"

text \<open>
  \<^verbatim>\<open>fwrite\<close>: the stream afterwards and the number of bytes accepted. Data that fits stays in the buffer;
  otherwise the buffer is filled and flushed, whole blocks go to the device directly and the rest
  into the buffer.
\<close>

definition fwrite :: "nat \<Rightarrow> (nat \<Rightarrow> nat) \<Rightarrow> FILE \<Rightarrow> bytes \<Rightarrow> FILE \<times> nat" where
  "fwrite bufsiz room f data =
     (let space = bufsiz - length (fl_buffer f) in
      if length data \<le> space then (f\<lparr>fl_buffer := fl_buffer f @ data\<rparr>, length data)
      else case flush room (f\<lparr>fl_buffer := fl_buffer f @ take space data\<rparr>) of
        (False, f1) \<Rightarrow> (f1, space)
      | (True, f1) \<Rightarrow>
          let rest = drop space data;
              n = length rest - length rest mod max 1 bufsiz;
              k = min n (room (length (fl_device f1)));
              f2 = f1\<lparr>fl_device := fl_device f1 @ take k rest\<rparr> in
          if k < n then (f2, space + k) else (f2\<lparr>fl_buffer := drop n rest\<rparr>, length data))"

text \<open>\<^verbatim>\<open>fclose\<close>: what the file holds afterwards. The result of the flush is not looked at by the callers.\<close>

definition fclose :: "(nat \<Rightarrow> nat) \<Rightarrow> FILE \<Rightarrow> bytes" where
  "fclose room f = fl_device (snd (flush room f))"

section \<open>Recorder\<close>

record Recorder =
  rec_file :: "FILE option"
  rec_events_written :: u64

definition Recorder_init :: Recorder where
  "Recorder_init = \<lparr>rec_file = None, rec_events_written = 0\<rparr>"

definition recorder_open ::
  "bool \<Rightarrow> string \<Rightarrow> nat \<Rightarrow> (nat \<Rightarrow> nat) \<Rightarrow> u64 \<Rightarrow> u64 \<Rightarrow> string \<Rightarrow> Recorder \<Rightarrow> Status \<times> Recorder" where
  "recorder_open opened strerror bufsiz room now wall path r =
     (if \<not> opened
      then (Inl (errno_error strerror IoError (''failed to open '' @ path)), r\<lparr>rec_file := None\<rparr>)
      else let (f, k) = fwrite bufsiz room \<lparr>fl_device = [], fl_buffer = []\<rparr> (header_bytes (make_header now wall)) in
        if k \<noteq> sizeof_header
        then (Inl (make_error IoError ''failed to write KSR header''), r\<lparr>rec_file := Some f\<rparr>)
        else (Inr (), r\<lparr>rec_file := Some f\<rparr>))"

definition write_event ::
  "nat \<Rightarrow> (nat \<Rightarrow> nat) \<Rightarrow> bytes \<Rightarrow> bytes \<Rightarrow> Event \<Rightarrow> Recorder \<Rightarrow> Status \<times> Recorder" where
  "write_event bufsiz room pad1 pad2 ev r =
     (case rec_file r of
        None \<Rightarrow> (Inl (make_error Internal ''recorder not opened''), r)
      | Some f \<Rightarrow>
          let data = serialize_event pad1 pad2 ev;
              size = word_of_nat (length data) :: u32;
              (f1, k1) = fwrite bufsiz room f (put32 size) in
          if k1 \<noteq> 4
          then (Inl (make_error IoError ''fwrite failed during recording''), r\<lparr>rec_file := Some f1\<rparr>)
          else let (f2, k2) = fwrite bufsiz room f1 data in
            if k2 \<noteq> length data
            then (Inl (make_error IoError ''fwrite failed during recording''), r\<lparr>rec_file := Some f2\<rparr>)
            else (Inr (), r\<lparr>rec_file := Some f2, rec_events_written := rec_events_written r + 1\<rparr>))"

text \<open>Closing also returns what the file holds then, \<open>None\<close> if none was open.\<close>

definition recorder_close :: "(nat \<Rightarrow> nat) \<Rightarrow> Recorder \<Rightarrow> bytes option \<times> Recorder" where
  "recorder_close room r = (map_option (fclose room) (rec_file r), r\<lparr>rec_file := None\<rparr>)"

section \<open>Replay source\<close>

record ReplaySource =
  rp_file :: "bytes option"
  rp_events_replayed :: u64

definition ReplaySource_init :: ReplaySource where
  "ReplaySource_init = \<lparr>rp_file = None, rp_events_replayed = 0\<rparr>"

text \<open>\<open>opened\<close> is the content of the file \<^verbatim>\<open>fopen\<close> opened, \<open>None\<close> when it failed.\<close>

definition replay_open ::
  "bytes option \<Rightarrow> string \<Rightarrow> string \<Rightarrow> ReplaySource \<Rightarrow> Status \<times> ReplaySource" where
  "replay_open opened strerror path src =
     (case opened of
        None \<Rightarrow> (Inl (errno_error strerror IoError (''failed to open '' @ path)), src\<lparr>rp_file := None\<rparr>)
      | Some f \<Rightarrow>
          let src' = src\<lparr>rp_file := Some (drop sizeof_header f)\<rparr> in
          if length f < sizeof_header
          then (Inl (make_error RecordFormatError ''failed to read KSR header''), src')
          else if \<not> validate_header (header_at (take sizeof_header f))
          then (Inl (make_error RecordFormatError ''invalid KSR file''), src')
          else (Inr (), src'))"

text \<open>
  The reading loop, with the rest of the file, the counter and the state the callback works on.
  \<^verbatim>\<open>fread\<close> of a size or a record that is cut short consumes what is left and ends the loop.
\<close>

function replay_loop :: "'s callback option \<Rightarrow> bytes \<Rightarrow> u64 \<Rightarrow> 's \<Rightarrow> Status \<times> bytes \<times> u64 \<times> 's" where
  "replay_loop cb f n s =
     (if length f < 4 then (Inr (), [], n, s)
      else let size = get32 0 f; f1 = drop 4 f in
        if size > 65536
        then (Inl (make_error RecordFormatError ''event size exceeds 64KB limit''), f1, n, s)
        else if length f1 < unat size then (Inr (), [], n, s)
        else let buf = take (unat size) f1; f2 = drop (unat size) f1 in
          (case deserialize_event buf of
             None \<Rightarrow> replay_loop cb f2 n s
           | Some ev \<Rightarrow> replay_loop cb f2 (n + 1) (call cb ev s)))"
  by pat_completeness auto
termination
  by (relation "measure (\<lambda>(cb, f, n, s). length f)") auto

declare replay_loop.simps [simp del]

definition replay :: "'s callback option \<Rightarrow> ReplaySource \<Rightarrow> 's \<Rightarrow> Status \<times> ReplaySource \<times> 's" where
  "replay cb src s =
     (case rp_file src of
        None \<Rightarrow> (Inl (make_error Internal ''replay source not opened''), src, s)
      | Some f \<Rightarrow>
          let (st, rest, n, s') = replay_loop cb f (rp_events_replayed src) s in
          (st, src\<lparr>rp_file := Some rest, rp_events_replayed := n\<rparr>, s'))"

definition replay_close :: "ReplaySource \<Rightarrow> ReplaySource" where
  "replay_close src = src\<lparr>rp_file := None\<rparr>"

end
