(* ===== verification/Ksr_Facts.thy ===== *)
theory Ksr_Facts
  imports Ksr_Record
begin

text \<open>
  What a recording gives back: recorded events replay exactly, a file cut anywhere or written to
  a device that ran full replays the complete frames it holds, and the loop is safe on any bytes.
\<close>

section \<open>Frames\<close>

text \<open>One event as it is stored, with its padding bytes, and a stream of them.\<close>

type_synonym stored = "bytes \<times> bytes \<times> Event"

definition frame :: "stored \<Rightarrow> bytes" where
  "frame x = (case x of (pad1, pad2, ev) \<Rightarrow>
     put32 (word_of_nat (length (serialize_event pad1 pad2 ev))) @ serialize_event pad1 pad2 ev)"

definition stored_wf :: "stored \<Rightarrow> bool" where
  "stored_wf x \<longleftrightarrow> (case x of (pad1, pad2, ev) \<Rightarrow> length pad1 = 4 \<and> length pad2 = 4 \<and> event_wf ev)"

definition stored_event :: "stored \<Rightarrow> Event" where
  "stored_event x = snd (snd x)"

lemma stored_event_simp [simp]: "stored_event (pad1, pad2, ev) = ev"
  by (simp add: stored_event_def)

definition frame_size :: nat where
  "frame_size = 4 + sizeof_event"

lemma frame_eq:
  assumes "stored_wf (pad1, pad2, ev)"
  shows "frame (pad1, pad2, ev) = put32 88 @ event_bytes pad1 pad2 ev"
  using assms by (simp add: frame_def stored_wf_def event_wf_def serialize_event_def sizeof_event_def)

lemma length_frame [simp]: "stored_wf x \<Longrightarrow> length (frame x) = frame_size"
  by (cases x) (simp add: frame_eq frame_size_def, simp add: stored_wf_def event_wf_def)

lemma replay_loop_frame:
  assumes "stored_wf x"
  shows "replay_loop cb (frame x @ rest) n s = replay_loop cb rest (n + 1) (call cb (stored_event x) s)"
proof (cases x)
  case (fields pad1 pad2 ev)
  with assms have wf: "length pad1 = 4" "length pad2 = 4" "event_wf ev"
    and len: "length (event_bytes pad1 pad2 ev) = 88"
    by (simp_all add: stored_wf_def event_wf_def sizeof_event_def)
  have "event_at (event_bytes pad1 pad2 ev) = ev" using event_at_bytes [OF wf, of "[]"] by simp
  then show ?thesis
    unfolding fields frame_eq [OF assms [unfolded fields]]
    by (subst replay_loop.simps)
       (simp add: len get32_def layout_simps deserialize_event_def sizeof_event_def stored_event_def)
qed

lemma replay_loop_cut_frame:
  assumes "stored_wf x" "k < frame_size"
  shows "replay_loop cb (take k (frame x)) n s = (Inr (), [], n, s)"
proof (cases x)
  case (fields pad1 pad2 ev)
  show ?thesis
  proof (cases "k < 4")
    case True
    then show ?thesis by (subst replay_loop.simps) (simp add: min_def)
  next
    case False
    have "get32 0 (take k (put32 88 @ event_bytes pad1 pad2 ev)) = 88"
      using False by (simp add: get32_def field_at_def layout_simps)
    moreover have "min (length (event_bytes pad1 pad2 ev)) (k - 4) < 88"
      using False assms(2) by (simp add: frame_size_def sizeof_event_def)
    ultimately show ?thesis
      using False unfolding fields frame_eq [OF assms(1) [unfolded fields]]
      by (subst replay_loop.simps) (simp add: Let_def)
  qed
qed

lemma replay_loop_stream:
  assumes "\<forall>x \<in> set xs. stored_wf x"
  shows "replay_loop cb (take k (concat (map frame xs))) n s =
    (let evs = map stored_event (take (k div frame_size) xs) in
     (Inr (), [], n + of_nat (length evs), fold (call cb) evs s))"
  using assms
proof (induction xs arbitrary: k n s)
  case Nil
  then show ?case by (subst replay_loop.simps) simp
next
  case (Cons x xs)
  show ?case
  proof (cases "k < frame_size")
    case True
    then show ?thesis using Cons.prems by (simp add: replay_loop_cut_frame)
  next
    case False
    then obtain j where k: "k = frame_size + j" by (metis le_Suc_ex not_less)
    have "k div frame_size = Suc (j div frame_size)" by (simp add: k frame_size_def sizeof_event_def)
    moreover have "take k (concat (map frame (x # xs))) = frame x @ take j (concat (map frame xs))"
      using Cons.prems by (simp add: k)
    ultimately show ?thesis
      using Cons by (simp add: replay_loop_frame Let_def)
  qed
qed

section \<open>Recording\<close>

text \<open>The callback of \<^verbatim>\<open>run_record\<close> writes every event and drops the status.\<close>

definition record_stored :: "nat \<Rightarrow> (nat \<Rightarrow> nat) \<Rightarrow> stored \<Rightarrow> Recorder \<Rightarrow> Recorder" where
  "record_stored bufsiz room x r = (case x of (pad1, pad2, ev) \<Rightarrow> snd (write_event bufsiz room pad1 pad2 ev r))"

text \<open>A device with \<open>cap\<close> bytes.\<close>

definition capacity :: "nat \<Rightarrow> nat \<Rightarrow> nat" where
  "capacity cap len = cap - len"

text \<open>
  A stream to which the bytes \<open>s\<close> were written on such a device: either nothing is lost yet, or the
  device is full and holds the beginning of them.
\<close>

definition intact :: "nat \<Rightarrow> bytes \<Rightarrow> FILE \<Rightarrow> bool" where
  "intact cap s f \<longleftrightarrow> fl_device f @ fl_buffer f = s \<and> length (fl_device f) \<le> cap"

definition spilled :: "nat \<Rightarrow> bytes \<Rightarrow> FILE \<Rightarrow> bool" where
  "spilled cap s f \<longleftrightarrow> fl_device f = take cap s \<and> cap < length s"

lemma spilled_more: "spilled cap s f \<Longrightarrow> spilled cap (s @ t) f"
  by (auto simp: spilled_def)

lemma flush_intact:
  assumes "intact cap s f" "flush (capacity cap) f = (ok, f')"
  shows "if ok then intact cap s f' \<and> fl_buffer f' = [] else spilled cap s f'"
  using assms by (auto simp: flush_def intact_def spilled_def capacity_def Let_def min_def split: if_splits)

lemma fwrite_intact:
  assumes "intact cap s f" "fwrite bufsiz (capacity cap) f data = (f', k)"
  shows "k = length data \<and> intact cap (s @ data) f' \<or> k < length data \<and> spilled cap (s @ data) f'"
proof (cases "length data \<le> bufsiz - length (fl_buffer f)")
  case True
  then show ?thesis using assms by (auto simp: fwrite_def intact_def)
next
  case False
  define space where "space = bufsiz - length (fl_buffer f)"
  have split: "data = take space data @ drop space data" and space: "space < length data"
    using False by (simp_all add: space_def)
  have filled: "intact cap (s @ take space data) (f\<lparr>fl_buffer := fl_buffer f @ take space data\<rparr>)"
    using assms(1) by (auto simp: intact_def)
  obtain ok f1 where fl: "flush (capacity cap) (f\<lparr>fl_buffer := fl_buffer f @ take space data\<rparr>) = (ok, f1)"
    by fastforce
  note wr = assms(2) [unfolded fwrite_def Let_def, folded space_def, unfolded fl]
  show ?thesis
  proof (cases ok)
    case False
    then have "spilled cap (s @ take space data) f1" using flush_intact [OF filled fl] by simp
    then have "spilled cap ((s @ take space data) @ drop space data) f1" by (rule spilled_more)
    then show ?thesis using wr False space by simp
  next
    case True
    then have f1: "intact cap (s @ take space data) f1" "fl_buffer f1 = []"
      using flush_intact [OF filled fl] by simp_all
    define rest where "rest = drop space data"
    define n where "n = length rest - length rest mod max 1 bufsiz"
    have n: "n \<le> length rest" by (simp add: n_def)
    have data: "s @ data = fl_device f1 @ rest"
      using f1 by (simp add: intact_def rest_def flip: append_assoc) (simp add: f1(1) [unfolded intact_def])
    have len: "length data = space + length rest" using space by (simp add: rest_def)
    define c where "c = cap - length (fl_device f1)"
    have "\<not> length data \<le> space" using space by simp
    then have wr': "(if min n c < n then (f1\<lparr>fl_device := fl_device f1 @ take (min n c) rest\<rparr>, space + min n c)
        else (f1\<lparr>fl_device := fl_device f1 @ take (min n c) rest, fl_buffer := drop n rest\<rparr>, length data)) = (f', k)"
      using wr unfolding rest_def n_def c_def capacity_def by (simp only: True simp_thms if_False prod.case bool.case)
    show ?thesis
    proof (cases "c < n")
      case True
      then have "f' = f1\<lparr>fl_device := fl_device f1 @ take c rest\<rparr>" "k = space + c" using wr' by auto
      moreover have "length (fl_device f1) + c = cap" using f1(1) by (simp add: intact_def c_def)
      ultimately show ?thesis using True n by (auto simp: data len spilled_def take_all_iff)
    next
      case False
      then have "f' = f1\<lparr>fl_device := fl_device f1 @ take n rest, fl_buffer := drop n rest\<rparr>" "k = length data"
        using wr' by auto
      then show ?thesis using False n f1(1) by (auto simp: data intact_def c_def)
    qed
  qed
qed

lemma fwrite_spilled:
  assumes "spilled cap s f" "fwrite bufsiz (capacity cap) f data = (f', k)"
  shows "spilled cap (s @ data) f'"
proof -
  have "length (fl_device f) = cap" using assms(1) by (simp add: spilled_def)
  then have "fl_device f' = fl_device f"
    using assms(2) by (auto simp: fwrite_def flush_def capacity_def Let_def split: if_splits bool.splits)
  then show ?thesis using assms(1) by (simp add: spilled_def)
qed

lemma fclose_intact: "intact cap s f \<Longrightarrow> fclose (capacity cap) f = take cap s"
  by (auto simp: fclose_def flush_def intact_def capacity_def Let_def min_def)

lemma fclose_spilled: "spilled cap s f \<Longrightarrow> fclose (capacity cap) f = take cap s"
  by (simp add: fclose_def flush_def spilled_def capacity_def Let_def)

text \<open>
  The recorder after the bytes \<open>s\<close>, having counted \<open>m\<close> events: nothing lost or, with \<open>s\<close> larger than
  the device, at least the events that fitted.
\<close>

definition recorded :: "nat \<Rightarrow> nat \<Rightarrow> stored list \<Rightarrow> bytes \<Rightarrow> Recorder \<Rightarrow> bool" where
  "recorded cap start xs s r \<longleftrightarrow>
     (\<exists>f m. rec_file r = Some f \<and> rec_events_written r = of_nat m \<and> m \<le> length xs \<and>
        (intact cap s f \<and> m = length xs \<or> spilled cap s f \<and> min (length xs) ((cap - start) div frame_size) \<le> m))"

lemma write_stored:
  assumes "stored_wf x" "rec_file r = Some f"
  obtains f1 k1 f2 k2 where "fwrite bufsiz room f (put32 88) = (f1, k1)"
    "fwrite bufsiz room f1 (drop 4 (frame x)) = (f2, k2)"
    "record_stored bufsiz room x r =
      (if k1 \<noteq> 4 then r\<lparr>rec_file := Some f1\<rparr>
       else if k2 \<noteq> 88 then r\<lparr>rec_file := Some f2\<rparr>
       else r\<lparr>rec_file := Some f2, rec_events_written := rec_events_written r + 1\<rparr>)"
    "frame x = put32 88 @ drop 4 (frame x)" "length (drop 4 (frame x)) = 88"
proof (cases x)
  case (fields pad1 pad2 ev)
  have len: "length (event_bytes pad1 pad2 ev) = 88"
    using assms(1) by (simp add: fields stored_wf_def event_wf_def sizeof_event_def)
  note fr = frame_eq [OF assms(1) [unfolded fields], folded fields]
  have d: "drop 4 (frame x) = event_bytes pad1 pad2 ev" by (simp add: fr)
  obtain f1 k1 where 1: "fwrite bufsiz room f (put32 88) = (f1, k1)" by fastforce
  obtain f2 k2 where 2: "fwrite bufsiz room f1 (event_bytes pad1 pad2 ev) = (f2, k2)" by fastforce
  show ?thesis
    by (rule that [OF 1 2 [folded d]])
       (simp_all add: fields record_stored_def write_event_def assms(2) serialize_event_def len 1 2 fr [unfolded fields] d [unfolded fields])
qed

lemma recorded_step:
  assumes "stored_wf x" "recorded cap start xs s r" "length s = start + length xs * frame_size"
  shows "recorded cap start (xs @ [x]) (s @ frame x) (record_stored bufsiz (capacity cap) x r)"
proof -
  obtain f m where r: "rec_file r = Some f" "rec_events_written r = of_nat m" "m \<le> length xs"
    "intact cap s f \<and> m = length xs \<or> spilled cap s f \<and> min (length xs) ((cap - start) div frame_size) \<le> m"
    using assms(2) by (auto simp: recorded_def)
  obtain f1 k1 f2 k2 where w: "fwrite bufsiz (capacity cap) f (put32 88) = (f1, k1)"
    "fwrite bufsiz (capacity cap) f1 (drop 4 (frame x)) = (f2, k2)"
    "record_stored bufsiz (capacity cap) x r =
      (if k1 \<noteq> 4 then r\<lparr>rec_file := Some f1\<rparr>
       else if k2 \<noteq> 88 then r\<lparr>rec_file := Some f2\<rparr>
       else r\<lparr>rec_file := Some f2, rec_events_written := rec_events_written r + 1\<rparr>)"
    "frame x = put32 88 @ drop 4 (frame x)" "length (drop 4 (frame x)) = 88"
    using write_stored [OF assms(1) r(1)] by blast
  have s: "s @ frame x = (s @ put32 88) @ drop 4 (frame x)" using w(4) by simp
  have fit: "(cap - start) div frame_size \<le> length xs" if "cap < length (s @ frame x)"
  proof -
    have "cap - start < Suc (length xs) * frame_size" using that assms(1,3) by (simp add: frame_size_def)
    then show ?thesis using less_mult_imp_div_less less_Suc_eq_le by blast
  qed
  have lost: "recorded cap start (xs @ [x]) (s @ frame x) r'"
    if "spilled cap (s @ frame x) g" "rec_file r' = Some g" "rec_events_written r' = of_nat j" "m \<le> j" "j \<le> Suc m" for r' g j
  proof -
    have "cap < length (s @ frame x)" using that(1) by (simp add: spilled_def)
    then have "min (length (xs @ [x])) ((cap - start) div frame_size) \<le> m" using fit r(4) by (auto simp: min_def split: if_splits)
    then show ?thesis using that r(3) unfolding recorded_def by (intro exI [of _ g] exI [of _ j]) auto
  qed
  have Suc: "rec_events_written r + 1 = of_nat (Suc m)" by (simp add: r(2))
  have two: "spilled cap (s @ frame x) f2" if "spilled cap (s @ put32 88) f1"
    using fwrite_spilled [OF that w(2)] by (simp add: s)
  have "spilled cap (s @ put32 88) f1 \<or> intact cap (s @ put32 88) f1 \<and> k1 = 4 \<and> m = length xs"
    using r(4) fwrite_spilled [OF _ w(1), of s] fwrite_intact [OF _ w(1), of s] by auto
  then show ?thesis
  proof
    assume sp: "spilled cap (s @ put32 88) f1"
    then have "spilled cap (s @ frame x) f1" unfolding s by (rule spilled_more)
    with two [OF sp] show ?thesis
      using r(2) Suc by (auto simp: w(3) intro: lost [of _ _ m] lost [of _ _ "Suc m"])
  next
    assume ok: "intact cap (s @ put32 88) f1 \<and> k1 = 4 \<and> m = length xs"
    then consider "k2 = 88" "intact cap (s @ frame x) f2" | "k2 < 88" "spilled cap (s @ frame x) f2"
      using fwrite_intact [OF _ w(2), of "s @ put32 88"] w(5) unfolding s by auto
    then show ?thesis
    proof cases
      case 1
      then show ?thesis using ok Suc
        unfolding recorded_def by (intro exI [of _ f2] exI [of _ "Suc m"]) (simp add: w(3))
    next
      case 2
      then show ?thesis using ok r(2) by (auto simp: w(3) intro: lost [of _ _ m])
    qed
  qed
qed

lemma recorded_stream:
  assumes "\<forall>x \<in> set xs. stored_wf x" "recorded cap (length s) [] s r"
  shows "recorded cap (length s) xs (s @ concat (map frame xs)) (fold (record_stored bufsiz (capacity cap)) xs r)"
  using assms(1)
proof (induction xs rule: rev_induct)
  case Nil
  then show ?case using assms(2) by simp
next
  case (snoc x xs)
  then have wf: "\<forall>x \<in> set xs. stored_wf x" by simp
  then have "length (concat (map frame xs)) = length xs * frame_size" by (induction xs) simp_all
  then show ?case
    using recorded_step [OF _ snoc.IH [OF wf], of x bufsiz] snoc.prems by simp
qed

lemma recorder_opens:
  assumes "sizeof_header \<le> cap"
  obtains r where "recorder_open True strerror bufsiz (capacity cap) now wall path Recorder_init = (Inr (), r)"
    "recorded cap sizeof_header [] (header_bytes (make_header now wall)) r"
proof -
  let ?h = "header_bytes (make_header now wall)" and ?f = "\<lparr>fl_device = [], fl_buffer = []\<rparr>"
  obtain f k where w: "fwrite bufsiz (capacity cap) ?f ?h = (f, k)" by fastforce
  have "intact cap [] ?f" by (simp add: intact_def)
  from fwrite_intact [OF this w] have "k = sizeof_header" "intact cap ?h f"
    using assms by (auto simp: spilled_def)
  then show ?thesis
    by (intro that [of "\<lparr>rec_file = Some f, rec_events_written = 0\<rparr>"])
       (simp_all add: recorder_open_def w Recorder_init_def recorded_def)
qed

text \<open>
  What a session leaves: the file is the beginning of the stream that the device has room for, and the
  counter is the number of events if they fit and at least the number of those that do otherwise.
\<close>

lemma recorded_closed:
  assumes "recorded cap start xs s r"
  shows "fst (recorder_close (capacity cap) r) = Some (take cap s)"
    "\<exists>m. rec_events_written r = of_nat m \<and> min (length xs) ((cap - start) div frame_size) \<le> m \<and> m \<le> length xs"
proof -
  obtain f m where r: "rec_file r = Some f" "rec_events_written r = of_nat m" "m \<le> length xs"
    "intact cap s f \<and> m = length xs \<or> spilled cap s f \<and> min (length xs) ((cap - start) div frame_size) \<le> m"
    using assms by (auto simp: recorded_def)
  have "fclose (capacity cap) f = take cap s" using r(4) fclose_intact fclose_spilled by blast
  then show "fst (recorder_close (capacity cap) r) = Some (take cap s)" by (simp add: recorder_close_def r(1))
  show "\<exists>m. rec_events_written r = of_nat m \<and> min (length xs) ((cap - start) div frame_size) \<le> m \<and> m \<le> length xs"
    using r by (intro exI [of _ m]) auto
qed

section \<open>Recording and replaying\<close>

text \<open>A whole recording session and a whole replay session, as the commands run them.\<close>

definition record_session ::
  "nat \<Rightarrow> (nat \<Rightarrow> nat) \<Rightarrow> u64 \<Rightarrow> u64 \<Rightarrow> string \<Rightarrow> stored list \<Rightarrow> bytes option \<times> u64" where
  "record_session bufsiz room now wall path xs =
     (case recorder_open True [] bufsiz room now wall path Recorder_init of
        (Inl e, r) \<Rightarrow> (fst (recorder_close room r), rec_events_written r)
      | (Inr u, r) \<Rightarrow>
          let r' = fold (record_stored bufsiz room) xs r
          in (fst (recorder_close room r'), rec_events_written r'))"

definition replay_session :: "bytes option \<Rightarrow> string \<Rightarrow> Status \<times> u64 \<times> Event list" where
  "replay_session file path =
     (case replay_open file [] path ReplaySource_init of
        (Inl e, src) \<Rightarrow> (Inl e, rp_events_replayed src, [])
      | (Inr u, src) \<Rightarrow>
          let (st, src', evs) = replay (Some (\<lambda>ev evs. evs @ [ev])) src []
          in (st, rp_events_replayed src', evs))"

lemma replay_session_prefix:
  assumes "\<forall>x \<in> set xs. stored_wf x" "sizeof_header \<le> k"
  shows "replay_session (Some (take k (header_bytes (make_header now wall) @ concat (map frame xs)))) path =
    (let evs = map stored_event (take ((k - sizeof_header) div frame_size) xs)
     in (Inr (), of_nat (length evs), evs))"
proof -
  let ?h = "header_bytes (make_header now wall)"
  have "take k (?h @ concat (map frame xs)) = ?h @ take (k - sizeof_header) (concat (map frame xs))"
    using assms(2) by simp
  moreover have "header_at ?h = make_header now wall"
    using header_at_bytes [of "make_header now wall" "[]"] by simp
  ultimately show ?thesis
    by (simp add: replay_session_def replay_open_def ReplaySource_init_def replay_def
        replay_loop_stream [OF assms(1)] Let_def call_Some fold_snoc)
qed

text \<open>
  Recording to a device of any capacity and replaying the file gives back the recorded
  events: the replay succeeds and delivers, in order and unchanged, exactly the leading events
  whose frames fitted completely, all of them when the device is large enough; the counter of the
  recorder is then the number of events, and may be larger than the number replayed otherwise.
\<close>

lemma record_replay_roundtrip:
  assumes "\<forall>x \<in> set xs. stored_wf x" "sizeof_header \<le> cap"
  shows "let (file, written) = record_session bufsiz (capacity cap) now wall path xs;
             evs = map stored_event (take ((cap - sizeof_header) div frame_size) xs)
         in replay_session file path' = (Inr (), of_nat (length evs), evs) \<and>
           (\<exists>m. written = of_nat m \<and> length evs \<le> m \<and> m \<le> length xs)"
proof -
  let ?h = "header_bytes (make_header now wall)"
  obtain r where r: "recorder_open True [] bufsiz (capacity cap) now wall path Recorder_init = (Inr (), r)"
    "recorded cap (length ?h) [] ?h r"
    using recorder_opens [OF assms(2), of "[]" bufsiz now wall path] by auto
  have len: "length ?h = sizeof_header" by simp
  let ?r = "fold (record_stored bufsiz (capacity cap)) xs r" and ?s = "?h @ concat (map frame xs)"
  obtain m where m: "fst (recorder_close (capacity cap) ?r) = Some (take cap ?s)" "rec_events_written ?r = of_nat m"
    "min (length xs) ((cap - sizeof_header) div frame_size) \<le> m" "m \<le> length xs"
    using recorded_closed [OF recorded_stream [OF assms(1) r(2), of bufsiz], unfolded len] by blast
  then have "record_session bufsiz (capacity cap) now wall path xs = (Some (take cap ?s), of_nat m)"
    by (simp add: record_session_def r(1))
  then show ?thesis
    using replay_session_prefix [OF assms, of now wall path'] m(3,4) by (auto simp: Let_def)
qed

text \<open>
  C9: a recording cut at any byte, as by a crash or an interrupted copy, is either refused with a
  format error, when the header itself is incomplete, or replays without an error to exactly the
  events whose frames are complete.
\<close>

theorem replay_truncated:
  assumes "\<forall>x \<in> set xs. stored_wf x"
  shows "let file = header_bytes (make_header now wall) @ concat (map frame xs);
             evs = map stored_event (take ((k - sizeof_header) div frame_size) xs)
         in replay_session (Some (take k file)) path =
           (if k < sizeof_header
            then (Inl (make_error RecordFormatError ''failed to read KSR header''), 0, [])
            else (Inr (), of_nat (length evs), evs))"
proof (cases "k < sizeof_header")
  case True
  then have "length (take k (header_bytes (make_header now wall) @ concat (map frame xs))) < sizeof_header"
    by (simp add: min_def)
  with True show ?thesis
    by (simp add: replay_session_def replay_open_def ReplaySource_init_def Let_def)
next
  case False
  then show ?thesis using replay_session_prefix [OF assms, of k now wall path] by (simp add: Let_def)
qed

text \<open>Two stored events for the concrete instances.\<close>

definition two_stored :: "stored list" where
  "two_stored = [([1, 2, 3, 4], [0, 0, 0, 0], slow_read 7 99), ([0, 0, 0, 0], [9, 9, 9, 9], offcpu_slice 8 1)]"

lemma two_stored_wf: "\<forall>x \<in> set two_stored. stored_wf x"
  by (simp add: two_stored_def stored_wf_def)

text \<open>
  The counter of the recorder does exceed the number of events in the file: the two events stay in the buffer,
  both are counted, and closing the file, whose device has room for none of them, fails unnoticed.
\<close>

lemma recorder_counts_lost_events:
  "record_session 4096 (capacity 100) 1 2 ''a.ksr'' two_stored =
     (Some (take 100 (header_bytes (make_header 1 2) @ concat (map frame two_stored))), 2)"
  by (simp add: record_session_def recorder_open_def Recorder_init_def fwrite_def two_stored_def record_stored_def write_event_def
      frame_def serialize_event_def recorder_close_def fclose_def flush_def capacity_def sizeof_header_def min_def
      sizeof_event_def Let_def)

theorem replay_truncated_witness:
  "replay_session (Some (take 200 (header_bytes (make_header 1 2) @ concat (map frame two_stored)))) ''a.ksr'' =
     (Inr (), 1, [slow_read 7 99])"
  using replay_truncated [OF two_stored_wf, of 1 2 200 "''a.ksr''"]
  by (simp add: sizeof_header_def frame_size_def sizeof_event_def two_stored_def stored_event_def)

section \<open>Arbitrary files\<close>

lemma replay_loop_any:
  "\<exists>st rest evs. replay_loop (Some (\<lambda>ev evs. evs @ [ev])) f n s =
      (st, rest, n + of_nat (length evs), s @ evs) \<and>
    list_all event_wf evs \<and> frame_size * length evs \<le> length f \<and>
    st \<in> {Inr (), Inl (make_error RecordFormatError ''event size exceeds 64KB limit'')}"
proof (induction f arbitrary: n s rule: length_induct)
  case (1 f)
  let ?cb = "Some (\<lambda>ev evs. evs @ [ev])"
  let ?size = "unat (get32 0 f)"
  let ?f2 = "drop ?size (drop 4 f)"
  consider (short) "length f < 4 \<or> length f - 4 < ?size"
    | (large) "4 \<le> length f" "get32 0 f > 65536" | (skip) "4 + ?size \<le> length f" "get32 0 f \<le> 65536" "?size < sizeof_event"
    | (event) "4 + ?size \<le> length f" "get32 0 f \<le> 65536" "sizeof_event \<le> ?size"
    by (cases "length f < 4 \<or> length f - 4 < ?size"; cases "get32 0 f > 65536";
        cases "?size < sizeof_event") (auto simp: not_less)
  then show ?case
  proof cases
    case short
    then show ?thesis by (subst replay_loop.simps) (auto simp: Let_def intro: exI [of _ "[]"])
  next
    case large
    then show ?thesis by (subst replay_loop.simps) (auto simp: Let_def intro: exI [of _ "[]"])
  next
    case skip
    then have "\<not> length f < 4" "\<not> get32 0 f > 65536" "\<not> length f - 4 < ?size" by auto
    then have "replay_loop ?cb f n s = replay_loop ?cb ?f2 n s"
      using skip by (subst replay_loop.simps) (simp add: Let_def deserialize_event_def)
    moreover have less: "length ?f2 < length f" using skip by simp
    obtain st rest evs where "replay_loop ?cb ?f2 n s = (st, rest, n + of_nat (length evs), s @ evs)"
      "list_all event_wf evs" "frame_size * length evs \<le> length ?f2"
      "st \<in> {Inr (), Inl (make_error RecordFormatError ''event size exceeds 64KB limit'')}"
      using 1 [rule_format, OF less, of n s] by blast
    ultimately show ?thesis
      by (intro exI [of _ st] exI [of _ rest] exI [of _ evs]) simp
  next
    case event
    let ?ev = "event_at (take ?size (drop 4 f))"
    have "\<not> length f < 4" "\<not> get32 0 f > 65536" "\<not> length f - 4 < ?size" using event by auto
    then have "replay_loop ?cb f n s = replay_loop ?cb ?f2 (n + 1) (s @ [?ev])"
      using event by (subst replay_loop.simps) (simp add: Let_def deserialize_event_def)
    moreover have less: "length ?f2 < length f" using event by simp
    ultimately obtain st rest evs where *: "replay_loop ?cb f n s =
        (st, rest, n + 1 + of_nat (length evs), (s @ [?ev]) @ evs)"
      "list_all event_wf evs" "frame_size * length evs \<le> length ?f2"
      "st \<in> {Inr (), Inl (make_error RecordFormatError ''event size exceeds 64KB limit'')}"
      using 1 [rule_format, OF less, of "n + 1" "s @ [?ev]"] by auto
    have "event_wf ?ev" using event by (intro event_wf_event_at) simp
    moreover have "frame_size + frame_size * length evs \<le> length f"
      using *(3) event by (simp add: frame_size_def)
    ultimately show ?thesis
      using * by (intro exI [of _ st] exI [of _ rest] exI [of _ "?ev # evs"]) (simp add: algebra_simps)
  qed
qed

text \<open>The replay is a source: the callback sees the events of the file, whatever it does.\<close>

definition replayed :: "bytes \<Rightarrow> Event list" where
  "replayed f = snd (snd (snd (replay_loop (Some (\<lambda>ev evs. evs @ [ev])) f 0 [])))"

lemma replay_loop_more:
  assumes "\<not> length f < 4 \<and> \<not> get32 0 f > 65536 \<and> \<not> length f - 4 < unat (get32 0 f)"
  shows "replay_loop cb f n s =
    (case deserialize_event (take (unat (get32 0 f)) (drop 4 f)) of
       None \<Rightarrow> replay_loop cb (drop (unat (get32 0 f)) (drop 4 f)) n s
     | Some ev \<Rightarrow> replay_loop cb (drop (unat (get32 0 f)) (drop 4 f)) (n + 1) (call cb ev s))"
  using assms by (subst replay_loop.simps) (simp add: Let_def del: drop_drop)

lemma replay_loop_callback:
  "\<exists>evs st rest. replay_loop (Some (\<lambda>ev evs. evs @ [ev])) f n s =
      (st, rest, n + of_nat (length evs), s @ evs) \<and>
    replay_loop cb f m t = (st, rest, m + of_nat (length evs), fold (call cb) evs t)"
proof (induction f arbitrary: n s m t rule: length_induct)
  case (1 f)
  let ?cb = "Some (\<lambda>ev evs. evs @ [ev])"
  let ?size = "unat (get32 0 f)"
  let ?f2 = "drop ?size (drop 4 f)"
  let ?more = "\<not> length f < 4 \<and> \<not> get32 0 f > 65536 \<and> \<not> length f - 4 < ?size"
  show ?case
  proof (cases ?more)
    case False
    then show ?thesis
      by (simp only: replay_loop.simps [of _ f]) (auto simp: Let_def intro!: exI [of _ "[]"])
  next
    case True
    then have less: "length ?f2 < length f" by auto
    note step = replay_loop_more [OF True]
    show ?thesis
    proof (cases "deserialize_event (take ?size (drop 4 f))")
      case None
      then show ?thesis using 1 [rule_format, OF less, of n s m t] by (simp add: step)
    next
      case (Some ev)
      obtain evs st rest where
        "replay_loop ?cb ?f2 (n + 1) (s @ [ev]) = (st, rest, n + 1 + of_nat (length evs), (s @ [ev]) @ evs)"
        "replay_loop cb ?f2 (m + 1) (call cb ev t) =
          (st, rest, m + 1 + of_nat (length evs), fold (call cb) evs (call cb ev t))"
        using 1 [rule_format, OF less, of "n + 1" "s @ [ev]" "m + 1" "call cb ev t"] by blast
      with Some show ?thesis
        by (intro exI [of _ "ev # evs"] exI [of _ st] exI [of _ rest]) (simp add: step algebra_simps)
    qed
  qed
qed

lemma replay_loop_delivers: "snd (snd (snd (replay_loop cb f n s))) = fold (call cb) (replayed f) s"
  using replay_loop_callback [of f 0 "[]" cb n s] by (auto simp: replayed_def)

interpretation recording: event_source "\<lambda>f cb s. snd (snd (snd (replay_loop cb f 0 s)))" replayed
  by unfold_locales (rule replay_loop_delivers)

text \<open>
  C10: replaying is safe on any file whatsoever: it returns, the only error is a format error, the
  counter is the number of events handed to the callback, each of these is a well-formed event,
  and they cannot be more than the file has room for.
\<close>

theorem replay_any_file:
  "case replay_session (Some f) path of (st, n, evs) \<Rightarrow>
     n = of_nat (length evs) \<and> list_all event_wf evs \<and>
     frame_size * length evs \<le> length f - sizeof_header \<and>
     (case st of Inl e \<Rightarrow> err_code e = RecordFormatError | Inr u \<Rightarrow> validate_header (header_at (take sizeof_header f)))"
proof -
  obtain st rest evs where "replay_loop (Some (\<lambda>ev evs. evs @ [ev])) (drop sizeof_header f) 0 [] =
      (st, rest, 0 + of_nat (length evs), [] @ evs)"
    "list_all event_wf evs" "frame_size * length evs \<le> length (drop sizeof_header f)"
    "st \<in> {Inr (), Inl (make_error RecordFormatError ''event size exceeds 64KB limit'')}"
    using replay_loop_any [of "drop sizeof_header f" 0 "[]"] by blast
  then show ?thesis
    by (auto simp: replay_session_def replay_open_def ReplaySource_init_def replay_def Let_def)
qed

end
