(* ===== verification/Util_Time.thy ===== *)
theory Util_Time
  imports Doubles
begin

text \<open>
  Clocks and time formatting (\<^verbatim>\<open>src/util/time.cpp\<close>, \<^verbatim>\<open>time.hpp\<close>) and the \<^verbatim>\<open>{:.nf}\<close> conversion of
  \<^verbatim>\<open>std::format\<close> they share with the exporters: a double printed with a fixed number of decimals is
  its exact value rounded half to even. The main result reads the printed text back.
\<close>

section \<open>Fixed-point output\<close>

definition zero_pad :: "nat \<Rightarrow> string \<Rightarrow> string" where
  "zero_pad w s = replicate (w - length s) (CHR ''0'') @ s"

definition fixed_string :: "nat \<Rightarrow> rat \<Rightarrow> string" where
  "fixed_string prec x =
     (let m = nat (round_half_even (x * 10 ^ prec)) in
      to_string (m div 10 ^ prec) @ ''.'' @ zero_pad prec (to_string (m mod 10 ^ prec)))"

section \<open>Durations, timestamps, clocks\<close>

text \<open>The micro sign is two bytes in UTF-8.\<close>

definition unit_us :: string where
  "unit_us = [CHR 0xC2, CHR 0xB5, CHR ''s'']"

definition format_duration_ns :: "u64 \<Rightarrow> string" where
  "format_duration_ns ns =
     (if ns < 1000 then to_string (unat ns) @ ''ns''
      else if ns < 1000000 then fixed_string 1 (dbl (dbl (of_nat (unat ns)) / 1000)) @ unit_us
      else if ns < 1000000000 then fixed_string 2 (dbl (dbl (of_nat (unat ns)) / 1000000)) @ ''ms''
      else fixed_string 3 (dbl (dbl (of_nat (unat ns)) / 1000000000)) @ ''s'')"

definition format_duration_us :: "u64 \<Rightarrow> string" where
  "format_duration_us us = format_duration_ns (us * 1000)"

definition format_timestamp_ns :: "u64 \<Rightarrow> string" where
  "format_timestamp_ns ns =
     (let sec = ns div 1000000000; subsec_ms = (ns mod 1000000000) div 1000000 in
      to_string (unat sec) @ ''.'' @ zero_pad 3 (to_string (unat subsec_ms)))"

text \<open>What \<^verbatim>\<open>clock_gettime\<close> stores.\<close>

record timespec =
  tv_sec :: i64
  tv_nsec :: i64

definition monotonic_ns :: "timespec \<Rightarrow> u64" where
  "monotonic_ns ts = tv_sec ts * 1000000000 + tv_nsec ts"

definition wall_clock_ns :: "timespec \<Rightarrow> u64" where
  "wall_clock_ns ts = tv_sec ts * 1000000000 + tv_nsec ts"

definition us_to_ns :: "u64 \<Rightarrow> u64" where
  "us_to_ns us = us * 1000"

definition ms_to_ns :: "u64 \<Rightarrow> u64" where
  "ms_to_ns ms = ms * 1000000"

definition sec_to_ns :: "u64 \<Rightarrow> u64" where
  "sec_to_ns s = s * 1000000000"

definition ns_to_us :: "u64 \<Rightarrow> u64" where
  "ns_to_us ns = ns div 1000"

definition ns_to_ms :: "u64 \<Rightarrow> u64" where
  "ns_to_ms ns = ns div 1000000"

definition ns_to_sec :: "u64 \<Rightarrow> u64" where
  "ns_to_sec ns = ns div 1000000000"

section \<open>Reading decimals back\<close>

definition is_decimal :: "char \<Rightarrow> bool" where
  "is_decimal c \<longleftrightarrow> 48 \<le> (of_char c :: nat) \<and> (of_char c :: nat) \<le> 57"

text \<open>A number with an optional fraction, and the text behind it.\<close>

definition read_decimal :: "string \<Rightarrow> rat \<times> string" where
  "read_decimal s =
     (let ds = takeWhile is_decimal s; r = drop (length ds) s in
      case r of
        c # r' \<Rightarrow>
          if c = CHR ''.'' then
            (let fs = takeWhile is_decimal r' in
             (of_nat (base_value 10 ds) + of_nat (base_value 10 fs) / 10 ^ length fs, drop (length fs) r'))
          else (of_nat (base_value 10 ds), r)
      | [] \<Rightarrow> (of_nat (base_value 10 ds), r))"

definition read_duration :: "string \<Rightarrow> rat option" where
  "read_duration s =
     (let (v, u) = read_decimal s in
      if u = ''ns'' then Some v
      else if u = unit_us then Some (v * 1000)
      else if u = ''ms'' then Some (v * 1000000)
      else if u = ''s'' then Some (v * 1000000000)
      else None)"

lemma to_string_decimal: "list_all is_decimal (to_string n)"
  unfolding to_string_def
proof (induction "10 :: nat" n rule: base_string.induct)
  case (1 n)
  have "is_decimal (digit_char d)" if "d < 10" for d
    using that by (simp add: is_decimal_def digit_char_def)
  then show ?case using 1 by (subst base_string.simps) auto
qed

lemma length_to_string: "n < 10 ^ Suc k \<Longrightarrow> length (to_string n) \<le> Suc k"
  unfolding to_string_def
proof (induction k arbitrary: n)
  case 0
  then show ?case by (subst base_string.simps) simp
next
  case (Suc k)
  then have "length (base_string 10 (n div 10)) \<le> Suc k" by (intro Suc.IH) (simp add: less_mult_imp_div_less)
  then show ?case by (subst base_string.simps) simp
qed

lemma base_value_zeros: "base_value b (replicate k (CHR ''0'') @ s) = base_value b s"
  by (induction k) (simp_all add: base_value_def digit_value_def)

lemma to_string_value: "base_value 10 (to_string n) = n"
  by (simp add: to_string_def base_value_string)

lemma take_decimals:
  assumes "list_all is_decimal ds" "case r of [] \<Rightarrow> True | c # _ \<Rightarrow> \<not> is_decimal c"
  shows "takeWhile is_decimal (ds @ r) = ds"
  using assms by (cases r) (auto simp: list_all_iff takeWhile_append)

lemma read_decimal_int:
  "case u of [] \<Rightarrow> True | c # _ \<Rightarrow> \<not> is_decimal c \<and> c \<noteq> CHR ''.'' \<Longrightarrow> read_decimal (to_string n @ u) = (of_nat n, u)"
  using take_decimals [OF to_string_decimal, of u n] to_string_decimal [of n]
  by (cases u) (simp_all add: read_decimal_def Let_def to_string_value list_all_iff takeWhile_eq_all_conv [THEN iffD2])

lemma read_decimal_fixed:
  assumes "f < 10 ^ w" "0 < w" "case u of [] \<Rightarrow> True | c # _ \<Rightarrow> \<not> is_decimal c"
  shows "read_decimal (to_string a @ ''.'' @ zero_pad w (to_string f) @ u) = (of_nat a + of_nat f / 10 ^ w, u)"
proof -
  have len: "length (zero_pad w (to_string f)) = w"
    using length_to_string [of f "w - 1"] assms(1,2) by (simp add: zero_pad_def)
  have dec: "list_all is_decimal (zero_pad w (to_string f))"
    using to_string_decimal [of f] by (auto simp: zero_pad_def list_all_iff is_decimal_def)
  have "base_value 10 (zero_pad w (to_string f)) = f"
    by (simp add: zero_pad_def base_value_zeros to_string_value)
  then show ?thesis
    using take_decimals [OF to_string_decimal, of "''.'' @ zero_pad w (to_string f) @ u" a] take_decimals [OF dec assms(3)] len
    by (simp add: read_decimal_def Let_def to_string_value is_decimal_def)
qed

lemma read_fixed_string:
  assumes "0 < w" "0 \<le> x" "case u of [] \<Rightarrow> True | c # _ \<Rightarrow> \<not> is_decimal c"
  shows "read_decimal (fixed_string w x @ u) = (of_int (round_half_even (x * 10 ^ w)) / 10 ^ w, u)"
proof -
  define m where "m = nat (round_half_even (x * 10 ^ w))"
  have "round_half_even (of_int 0) \<le> round_half_even (x * 10 ^ w)" using assms(2) by (intro round_half_even_mono) simp
  then have m: "int m = round_half_even (x * 10 ^ w)" unfolding m_def round_half_even_int by simp
  have "(of_nat (m div 10 ^ w) :: rat) + of_nat (m mod 10 ^ w) / 10 ^ w = of_nat (m div 10 ^ w * 10 ^ w + m mod 10 ^ w) / 10 ^ w"
    by (simp add: add_divide_distrib)
  also have "\<dots> = of_nat m / 10 ^ w" by (simp only: div_mult_mod_eq)
  also have "(of_nat m :: rat) = of_int (round_half_even (x * 10 ^ w))" using m by (metis of_int_of_nat_eq)
  finally show ?thesis
    using read_decimal_fixed [of "m mod 10 ^ w" w u "m div 10 ^ w"] assms(1,3)
    by (simp add: fixed_string_def Let_def m_def)
qed

section \<open>Accuracy\<close>

lemma dbl_close:
  assumes "0 \<le> x" "x \<le> 2 ^ k"
  shows "\<bar>dbl x - x\<bar> \<le> 2 ^ k / 2 ^ 53"
proof (cases "x = 0")
  case False
  with assms have x: "0 < x" by simp
  have "(2::rat) powi binexp x \<le> 2 powi int k" using binexp_bounds(1) [OF x] assms(2) by simp
  then have "binexp x \<le> int k" by (metis linorder_not_less one_less_numeral_iff power_int_strict_increasing semiring_norm(76))
  then have "(2::rat) powi (binexp x - 53) \<le> 2 powi (int k - 53)" by (intro power_int_increasing) auto
  also have "\<dots> = 2 ^ k / 2 ^ 53" by (simp add: power_int_diff)
  finally show ?thesis using dbl_error [OF x] by linarith
qed (use assms in simp)

text \<open>
  The whole error of printing \<open>n\<close> divided by a unit \<open>d\<close> with \<open>w\<close> decimals: half a unit of the last
  decimal, the rounding of the quotient and that of the conversion.
\<close>

lemma scaled_error:
  fixes n d :: nat
  assumes "n \<le> 2 ^ k" "2 ^ (k + 1) \<le> d * 2 ^ j"
  shows "\<bar>of_int (round_half_even (dbl (dbl (of_nat n) / of_nat d) * 10 ^ w)) / 10 ^ w * of_nat d - of_nat n\<bar>
    \<le> of_nat d / (2 * 10 ^ w) + of_nat d * 2 ^ j / 2 ^ 53 + 2 ^ k / (2 ^ 53 :: rat)"
proof -
  define y where "y = dbl (of_nat n)"
  define x where "x = dbl (y / of_nat d)"
  define r where "r = (of_int (round_half_even (x * 10 ^ w)) / 10 ^ w :: rat)"
  have d: "0 < d" using assms(2) by (cases d) auto
  have n: "(of_nat n :: rat) \<le> 2 ^ k" using assms(1) by (metis of_nat_le_iff of_nat_numeral of_nat_power)
  have y: "\<bar>y - of_nat n\<bar> \<le> 2 ^ k / 2 ^ 53" unfolding y_def using n by (intro dbl_close) simp_all
  have "(of_nat (2 ^ (k + 1)) :: rat) \<le> of_nat (d * 2 ^ j)" using assms(2) by (simp only: of_nat_le_iff)
  then have dj: "(2 ^ (k + 1) :: rat) \<le> of_nat d * 2 ^ j" by simp
  have "(2 ^ k :: rat) / 2 ^ 53 \<le> 2 ^ k / 1" by (rule divide_left_mono) simp_all
  then have "y \<le> 2 ^ k + 2 ^ k" using y n by linarith
  then have "y \<le> 2 ^ (k + 1)" by simp
  then have "y / of_nat d \<le> 2 ^ j" using dj d by (simp add: divide_le_eq mult.commute)
  then have x: "\<bar>x - y / of_nat d\<bar> \<le> 2 ^ j / 2 ^ 53"
    unfolding x_def by (intro dbl_close) (simp_all add: y_def)
  have "r - x = (of_int (round_half_even (x * 10 ^ w)) - x * 10 ^ w) / 10 ^ w"
    unfolding r_def by (simp add: diff_divide_distrib)
  then have "\<bar>r - x\<bar> = \<bar>of_int (round_half_even (x * 10 ^ w)) - x * 10 ^ w\<bar> / 10 ^ w"
    by (simp only: abs_divide) simp
  also have "\<dots> \<le> (1 / 2) / 10 ^ w" by (intro divide_right_mono round_half_even_error) simp
  finally have r: "\<bar>r - x\<bar> \<le> 1 / (2 * 10 ^ w)" by simp
  have "r * of_nat d - of_nat n = (r - x) * of_nat d + (x - y / of_nat d) * of_nat d + (y - of_nat n)"
    using d by (simp add: algebra_simps)
  then have "\<bar>r * of_nat d - of_nat n\<bar> \<le> \<bar>r - x\<bar> * of_nat d + \<bar>x - y / of_nat d\<bar> * of_nat d + \<bar>y - of_nat n\<bar>"
    using abs_mult [of "r - x" "of_nat d"] abs_mult [of "x - y / of_nat d" "of_nat d"] by linarith
  also have "\<dots> \<le> 1 / (2 * 10 ^ w) * of_nat d + 2 ^ j / 2 ^ 53 * of_nat d + 2 ^ k / 2 ^ 53"
    using r x y by (intro add_mono mult_right_mono) simp_all
  finally show ?thesis by (simp add: r_def x_def y_def mult.commute)
qed

text \<open>Where the printed value is a whole number of nanoseconds the two smaller terms disappear.\<close>

lemma whole_error:
  fixes m n b :: int and e :: rat
  assumes "\<bar>of_int m - of_int n\<bar> \<le> of_int b + e" "e < 1"
  shows "\<bar>m - n\<bar> \<le> b"
proof -
  have "(of_int \<bar>m - n\<bar> :: rat) < of_int (b + 1)" using assms by simp
  then show ?thesis by (simp only: of_int_less_iff)
qed

lemma printed_us:
  fixes n :: nat
  assumes "n < 1000000"
  shows "\<bar>of_int (round_half_even (dbl (dbl (of_nat n) / 1000) * 10)) / 10 * 1000 - (of_nat n :: rat)\<bar> \<le> 50"
proof -
  define m where "m = round_half_even (dbl (dbl (of_nat n) / 1000) * 10)"
  have "\<bar>of_int m / 10 * 1000 - (of_nat n :: rat)\<bar> \<le> 50 + 1 / 2"
    using scaled_error [of n 20 1000 12 1] assms by (simp add: m_def)
  then have "\<bar>of_int (100 * m) - (of_int (int n) :: rat)\<bar> \<le> of_int 50 + 1 / 2" by simp
  then have "\<bar>100 * m - int n\<bar> \<le> 50" by (rule whole_error) simp
  then have "(of_int \<bar>100 * m - int n\<bar> :: rat) \<le> of_int 50" by (simp only: of_int_le_iff)
  then show ?thesis unfolding m_def [symmetric] by simp
qed

lemma printed_ms:
  fixes n :: nat
  assumes "n < 1000000000"
  shows "\<bar>of_int (round_half_even (dbl (dbl (of_nat n) / 1000000) * 100)) / 100 * 1000000 - (of_nat n :: rat)\<bar> \<le> 5000"
proof -
  define m where "m = round_half_even (dbl (dbl (of_nat n) / 1000000) * 100)"
  have "\<bar>of_int m / 100 * 1000000 - (of_nat n :: rat)\<bar> \<le> 5000 + 1 / 2"
    using scaled_error [of n 30 1000000 12 2] assms by (simp add: m_def)
  then have "\<bar>of_int (10000 * m) - (of_int (int n) :: rat)\<bar> \<le> of_int 5000 + 1 / 2" by simp
  then have "\<bar>10000 * m - int n\<bar> \<le> 5000" by (rule whole_error) simp
  then have "(of_int \<bar>10000 * m - int n\<bar> :: rat) \<le> of_int 5000" by (simp only: of_int_le_iff)
  then show ?thesis unfolding m_def [symmetric] by simp
qed

lemma printed_s:
  fixes n :: nat
  assumes "n < 2 ^ 64"
  shows "\<bar>of_int (round_half_even (dbl (dbl (of_nat n) / 1000000000) * 1000)) / 1000 * 1000000000 - (of_nat n :: rat)\<bar> \<le> 510000"
  using scaled_error [of n 64 1000000000 36 3] assms by simp

lemma duration_reads:
  "\<exists>v. read_duration (format_duration_ns ns) = Some v \<and>
     \<bar>v - of_nat (unat ns)\<bar> \<le> (if ns < 1000 then 0 else if ns < 1000000 then 50 else if ns < 1000000000 then 5000 else 510000)"
proof (cases "ns < 1000")
  case True
  then show ?thesis
    using read_decimal_int [of "''ns''" "unat ns"] by (simp add: format_duration_ns_def read_duration_def is_decimal_def)
next
  case ge_us: False
  show ?thesis
  proof (cases "ns < 1000000")
    case True
    then have "(unat ns) < 1000000" by (simp add: word_less_nat_alt)
    from printed_us [OF this] True ge_us show ?thesis
      using read_fixed_string [of 1 "dbl (dbl (of_nat (unat ns)) / 1000)" unit_us]
      by (simp add: format_duration_ns_def read_duration_def unit_us_def is_decimal_def)
  next
    case ge_ms: False
    show ?thesis
    proof (cases "ns < 1000000000")
      case True
      then have "(unat ns) < 1000000000" by (simp add: word_less_nat_alt)
      from printed_ms [OF this] True ge_us ge_ms show ?thesis
        using read_fixed_string [of 2 "dbl (dbl (of_nat (unat ns)) / 1000000)" "''ms''"]
        by (simp add: format_duration_ns_def read_duration_def unit_us_def is_decimal_def)
    next
      case False
      have "unat ns < 2 ^ 64" using unsigned_less [of ns, where ?'a = nat] by simp
      from printed_s [OF this] False ge_us ge_ms show ?thesis
        using read_fixed_string [of 3 "dbl (dbl (of_nat (unat ns)) / 1000000000)" "''s''"]
        by (simp add: format_duration_ns_def read_duration_def unit_us_def is_decimal_def)
    qed
  qed
qed

lemma timestamp_reads:
  "read_decimal (format_timestamp_ns ns) = (of_nat (unat ns div 1000000) / 1000, [])"
proof -
  define q where "q = unat ns div 1000000"
  have "unat ns div 1000000000 = q div 1000" by (simp add: q_def div_mult2_eq [symmetric])
  moreover have "unat ns mod 1000000000 div 1000000 = q mod 1000"
    using mod_mult2_eq [of "unat ns" 1000000 1000] by (simp add: q_def)
  ultimately have "format_timestamp_ns ns = to_string (q div 1000) @ ''.'' @ zero_pad 3 (to_string (q mod 1000)) @ []"
    by (simp add: format_timestamp_ns_def Let_def unat_div unat_mod)
  then have "read_decimal (format_timestamp_ns ns) = (of_nat (q div 1000) + of_nat (q mod 1000) / 1000, [])"
    using read_decimal_fixed [of "q mod 1000" 3 "[]" "q div 1000"] by simp
  moreover have "(of_nat (q div 1000) :: rat) + of_nat (q mod 1000) / 1000 = of_nat (q div 1000 * 1000 + q mod 1000) / 1000"
    unfolding of_nat_add of_nat_mult add_divide_distrib by simp
  ultimately show ?thesis
    by (simp only: div_mult_mod_eq q_def)
qed

text \<open>
  C20: a printed duration reads back as the duration it was printed for: exactly below a microsecond,
  then within half of the last printed decimal, 50 ns below a millisecond and 5 us below a second, and
  within 510 us above, where the conversion to a double adds up to 10 us. A printed timestamp reads
  back as the exact number of milliseconds, rounded down.
\<close>

theorem format_duration_accuracy:
  "(\<exists>v. read_duration (format_duration_ns ns) = Some v \<and>
      \<bar>v - of_nat (unat ns)\<bar> \<le> (if ns < 1000 then 0 else if ns < 1000000 then 50 else if ns < 1000000000 then 5000 else 510000)) \<and>
   read_decimal (format_timestamp_ns ns) = (of_nat (unat ns div 1000000) / 1000, [])"
  by (intro conjI duration_reads timestamp_reads)

end
