(* ===== verification/Bpf_Loader.thy ===== *)
theory Bpf_Loader
  imports Bpf_Properties Kscope_Errors Util_Time
begin

text \<open>
  Opening, configuring, loading and attaching the BPF object (\<^verbatim>\<open>src/bpf/loader.cpp\<close>), the
  command line configuration it starts from (\<^verbatim>\<open>src/cli/parse_args.hpp\<close>) and the reads of the
  BPF maps (\<^verbatim>\<open>src/bpf/skeleton_bridge.cpp\<close>). The functions of libbpf and of the generated
  skeleton are arguments; the skeleton's \<^verbatim>\<open>rodata\<close> is memory the program itself writes.
\<close>

section \<open>Configuration\<close>

record BpfConfig =
  bc_target_pid :: u32
  bc_min_latency_ns :: u64
  bc_min_offcpu_ns :: u64
  bc_capture_user_stacks :: bool
  bc_capture_kern_stacks :: bool
  bc_stack_sampling_pct :: u32
  bc_target_comm :: string

datatype Command =
    Top | TopOffcpu | TopSyscalls | Trace | HotStacks | Record | Replay | Export | Doctor | Help

record Config =
  cfg_command :: Command
  cfg_pid :: u32
  cfg_comm :: string
  cfg_syscall_filter :: "u64 option"
  cfg_min_latency_us :: u64
  cfg_min_offcpu_us :: u64
  cfg_duration_sec :: u32
  cfg_window_sec :: u32
  cfg_top_n :: u32
  cfg_stack_sampling_pct :: u32
  cfg_user_stacks :: bool
  cfg_kernel_stacks :: bool
  cfg_json_output :: bool
  cfg_export_format :: string
  cfg_record_file :: string
  cfg_replay_file :: string
  cfg_export_file :: string
  cfg_config_file :: string
  cfg_verbose :: bool
  cfg_quiet :: bool

definition Config_init :: Config where
  "Config_init = \<lparr>cfg_command = Top, cfg_pid = 0, cfg_comm = [], cfg_syscall_filter = None,
     cfg_min_latency_us = 100, cfg_min_offcpu_us = 1000, cfg_duration_sec = 0, cfg_window_sec = 5,
     cfg_top_n = 20, cfg_stack_sampling_pct = 100, cfg_user_stacks = True, cfg_kernel_stacks = False,
     cfg_json_output = False, cfg_export_format = ''json'', cfg_record_file = [],
     cfg_replay_file = [], cfg_export_file = [], cfg_config_file = [], cfg_verbose = False,
     cfg_quiet = False\<rparr>"

definition make_bpf_config :: "Config \<Rightarrow> BpfConfig" where
  "make_bpf_config cfg = \<lparr>
     bc_target_pid = cfg_pid cfg,
     bc_min_latency_ns = us_to_ns (cfg_min_latency_us cfg),
     bc_min_offcpu_ns = us_to_ns (cfg_min_offcpu_us cfg),
     bc_capture_user_stacks = cfg_user_stacks cfg,
     bc_capture_kern_stacks = cfg_kernel_stacks cfg,
     bc_stack_sampling_pct = cfg_stack_sampling_pct cfg,
     bc_target_comm = cfg_comm cfg\<rparr>"

section \<open>Loader\<close>

text \<open>The skeleton: its writable image of the constants and libbpf's own object.\<close>

record 'k Skeleton =
  sk_rodata :: BpfRodata
  sk_object :: 'k

text \<open>
  libbpf and the generated skeleton. Besides what the calls return there is what they print: the program
  installs no print function, so libbpf's own writes its warnings and notes to standard error.
\<close>

datatype LibbpfCall = SkeletonOpen | SkeletonLoad | SkeletonAttach | RingBufferNew

record 'k Libbpf =
  lb_open :: "'k option"
  lb_load :: "BpfRodata \<Rightarrow> 'k \<Rightarrow> int \<times> 'k"
  lb_attach :: "BpfRodata \<Rightarrow> 'k \<Rightarrow> int \<times> 'k"
  lb_detach :: "'k \<Rightarrow> 'k"
  lb_events_fd :: "'k \<Rightarrow> int"
  lb_stack_traces_fd :: "'k \<Rightarrow> int"
  lb_active_syscalls_fd :: "'k \<Rightarrow> int"
  lb_sched_states_fd :: "'k \<Rightarrow> int"
  lb_prints :: "LibbpfCall \<Rightarrow> string"

type_synonym 'k BpfLoader = "'k Skeleton option"

definition loader_open :: "'k Libbpf \<Rightarrow> 'k BpfLoader \<Rightarrow> Status \<times> 'k BpfLoader" where
  "loader_open lb skel =
     (case lb_open lb of
        None \<Rightarrow> (Inl (make_error BpfLoadFailed ''kscope_bpf__open() failed''), None)
      | Some k \<Rightarrow> (Inr (), Some \<lparr>sk_rodata = rodata_default, sk_object = k\<rparr>))"

text \<open>\<^verbatim>\<open>memcpy\<close> of the first bytes of an array.\<close>

definition overwrite :: "string \<Rightarrow> string \<Rightarrow> string" where
  "overwrite s old = s @ drop (length s) old"

text \<open>\<open>pidns\<close> is what \<^verbatim>\<open>stat("/proc/self/ns/pid")\<close> reports, \<open>None\<close> when it fails.\<close>

definition configure_rodata :: "(u64 \<times> u64) option \<Rightarrow> BpfConfig \<Rightarrow> BpfRodata \<Rightarrow> BpfRodata" where
  "configure_rodata pidns cfg ro0 =
     (let ro1 = ro0\<lparr>
        ro_target_pid := bc_target_pid cfg,
        ro_min_latency_ns := bc_min_latency_ns cfg,
        ro_min_offcpu_ns := bc_min_offcpu_ns cfg,
        ro_capture_user_stacks := (if bc_capture_user_stacks cfg then 1 else 0),
        ro_capture_kern_stacks := (if bc_capture_kern_stacks cfg then 1 else 0),
        ro_stack_sampling_pct := bc_stack_sampling_pct cfg\<rparr>;
          ro2 = (if bc_target_comm cfg \<noteq> []
                 then ro1\<lparr>ro_target_comm :=
                   overwrite (take (kCommLen - 1) (bc_target_comm cfg)) (ro_target_comm ro1)\<rparr>
                 else ro1) in
      case pidns of
        Some (dev, ino) \<Rightarrow> ro2\<lparr>ro_pidns_dev := ucast dev, ro_pidns_ino := ucast ino\<rparr>
      | None \<Rightarrow> ro2)"

definition loader_configure ::
  "(u64 \<times> u64) option \<Rightarrow> BpfConfig \<Rightarrow> 'k BpfLoader \<Rightarrow> Status \<times> 'k BpfLoader" where
  "loader_configure pidns cfg skel =
     (case skel of
        None \<Rightarrow> (Inl (make_error Internal ''skeleton not opened''), None)
      | Some sk \<Rightarrow> (Inr (), Some (sk\<lparr>sk_rodata := configure_rodata pidns cfg (sk_rodata sk)\<rparr>)))"

definition loader_load :: "'k Libbpf \<Rightarrow> 'k BpfLoader \<Rightarrow> Status \<times> 'k BpfLoader" where
  "loader_load lb skel =
     (case skel of
        None \<Rightarrow> (Inl (make_error Internal ''skeleton not opened''), None)
      | Some sk \<Rightarrow>
          let (err, k) = lb_load lb (sk_rodata sk) (sk_object sk) in
          (if err \<noteq> 0
           then Inl (make_error BpfLoadFailed (''kscope_bpf__load() failed: '' @ int_string err))
           else Inr (), Some (sk\<lparr>sk_object := k\<rparr>)))"

definition loader_attach :: "'k Libbpf \<Rightarrow> 'k BpfLoader \<Rightarrow> Status \<times> 'k BpfLoader" where
  "loader_attach lb skel =
     (case skel of
        None \<Rightarrow> (Inl (make_error Internal ''skeleton not opened''), None)
      | Some sk \<Rightarrow>
          let (err, k) = lb_attach lb (sk_rodata sk) (sk_object sk) in
          (if err \<noteq> 0
           then Inl (make_error BpfAttachFailed (''kscope_bpf__attach() failed: '' @ int_string err))
           else Inr (), Some (sk\<lparr>sk_object := k\<rparr>)))"

definition loader_detach :: "'k Libbpf \<Rightarrow> 'k BpfLoader \<Rightarrow> 'k BpfLoader" where
  "loader_detach lb skel = map_option (\<lambda>sk. sk\<lparr>sk_object := lb_detach lb (sk_object sk)\<rparr>) skel"

definition loader_destroy :: "'k BpfLoader \<Rightarrow> 'k BpfLoader" where
  "loader_destroy skel = None"

definition ringbuf_fd :: "'k Libbpf \<Rightarrow> 'k BpfLoader \<Rightarrow> int" where
  "ringbuf_fd lb skel = (case skel of None \<Rightarrow> - 1 | Some sk \<Rightarrow> lb_events_fd lb (sk_object sk))"

definition stack_trace_fd :: "'k Libbpf \<Rightarrow> 'k BpfLoader \<Rightarrow> int" where
  "stack_trace_fd lb skel = (case skel of None \<Rightarrow> - 1 | Some sk \<Rightarrow> lb_stack_traces_fd lb (sk_object sk))"

definition setup_bpf ::
  "'k Libbpf \<Rightarrow> (u64 \<times> u64) option \<Rightarrow> Config \<Rightarrow> 'k BpfLoader \<Rightarrow> Status \<times> 'k BpfLoader" where
  "setup_bpf lb pidns cfg skel =
     and_then (loader_open lb skel) (\<lambda>skel.
     and_then (loader_configure pidns (make_bpf_config cfg) skel) (\<lambda>skel.
     and_then (loader_load lb skel) (\<lambda>skel.
     loader_attach lb skel)))"

lemma c_str_configured:
  assumes "CHR 0x00 \<notin> set name" "n < 16"
  shows "c_str (overwrite (take n name) (replicate 16 (CHR 0x00))) = take n name"
proof -
  have pos: "0 < 16 - length (take n name)" using assms(2) by simp
  have "c_str (take n name @ replicate m (CHR 0x00)) = take n name" if "0 < m" for m
    using assms(1) that unfolding c_str_def
    by (subst takeWhile_append2) (auto dest: in_set_takeD simp: gr0_conv_Suc)
  from this [OF pos] show ?thesis by (simp add: overwrite_def)
qed

text \<open>
  C29: setting up the BPF side either fails with a load or an attach error (never with the
  internal error for a skeleton that was not opened), or leaves a skeleton whose constants are
  those of the command line: the target pid, the thresholds in nanoseconds, the stack options,
  the sampling rate, and a name filter that accepts a task exactly if no name was asked for or
  the task's name is the given one cut to the kernel's 15 characters.
\<close>

theorem setup_bpf_configures:
  assumes "CHR 0x00 \<notin> set (cfg_comm cfg)" "length comm = kCommLen"
  shows "case setup_bpf lb pidns cfg skel of
      (Inl e, skel') \<Rightarrow> err_code e \<in> {BpfLoadFailed, BpfAttachFailed}
    | (Inr u, skel') \<Rightarrow> (\<exists>sk ro. skel' = Some sk \<and> sk_rodata sk = ro \<and>
        ro_target_pid ro = cfg_pid cfg \<and>
        ro_min_latency_ns ro = cfg_min_latency_us cfg * 1000 \<and>
        ro_min_offcpu_ns ro = cfg_min_offcpu_us cfg * 1000 \<and>
        (ro_capture_user_stacks ro \<noteq> 0 \<longleftrightarrow> cfg_user_stacks cfg) \<and>
        (ro_capture_kern_stacks ro \<noteq> 0 \<longleftrightarrow> cfg_kernel_stacks cfg) \<and>
        ro_stack_sampling_pct ro = cfg_stack_sampling_pct cfg \<and>
        (filter_comm ro comm \<longleftrightarrow> cfg_comm cfg = [] \<or> take 15 (cfg_comm cfg) = c_str comm))"
proof -
  let ?ro = "configure_rodata pidns (make_bpf_config cfg) rodata_default"
  have fields: "ro_target_pid ?ro = cfg_pid cfg"
    "ro_min_latency_ns ?ro = cfg_min_latency_us cfg * 1000"
    "ro_min_offcpu_ns ?ro = cfg_min_offcpu_us cfg * 1000"
    "ro_capture_user_stacks ?ro \<noteq> 0 \<longleftrightarrow> cfg_user_stacks cfg"
    "ro_capture_kern_stacks ?ro \<noteq> 0 \<longleftrightarrow> cfg_kernel_stacks cfg"
    "ro_stack_sampling_pct ?ro = cfg_stack_sampling_pct cfg"
    by (auto simp: configure_rodata_def make_bpf_config_def us_to_ns_def Let_def split: option.split)
  have target: "ro_target_comm ?ro = overwrite (take 15 (cfg_comm cfg)) (replicate 16 (CHR 0x00))"
    by (auto simp: configure_rodata_def make_bpf_config_def rodata_default_def Let_def kCommLen_def
        overwrite_def split: option.split)
  then have "length (ro_target_comm ?ro) = kCommLen" by (simp add: overwrite_def kCommLen_def)
  moreover have "c_str (ro_target_comm ?ro) = take 15 (cfg_comm cfg)"
    unfolding target using assms(1) by (rule c_str_configured) simp
  ultimately have "filter_comm ?ro comm \<longleftrightarrow> cfg_comm cfg = [] \<or> take 15 (cfg_comm cfg) = c_str comm"
    using filter_comm_exact [of ?ro comm] assms(2) by simp
  with fields show ?thesis
    by (auto simp: setup_bpf_def loader_open_def loader_configure_def loader_load_def
        loader_attach_def case_prod_beta Let_def split: option.split)
qed

text \<open>A libbpf on which everything succeeds.\<close>

definition willing_libbpf :: "unit Libbpf" where
  "willing_libbpf = \<lparr>lb_open = Some (), lb_load = (\<lambda>_ k. (0, k)), lb_attach = (\<lambda>_ k. (0, k)),
     lb_detach = (\<lambda>k. k), lb_events_fd = (\<lambda>_. 3), lb_stack_traces_fd = (\<lambda>_. 4),
     lb_active_syscalls_fd = (\<lambda>_. 5), lb_sched_states_fd = (\<lambda>_. 6), lb_prints = (\<lambda>_. [])\<rparr>"

theorem setup_bpf_configures_witness:
  "\<exists>sk. setup_bpf willing_libbpf None (Config_init\<lparr>cfg_comm := ''postgres''\<rparr>) None = (Inr (), Some sk) \<and>
     filter_comm (sk_rodata sk) (''postgres'' @ replicate 8 (CHR 0x00)) \<and>
     ro_min_latency_ns (sk_rodata sk) = 100000"
proof -
  let ?cfg = "Config_init\<lparr>cfg_comm := ''postgres''\<rparr>"
  obtain skel where *: "setup_bpf willing_libbpf None ?cfg None = (Inr (), skel)"
    by (simp add: setup_bpf_def loader_open_def loader_configure_def loader_load_def loader_attach_def
        willing_libbpf_def)
  show ?thesis
    using setup_bpf_configures [of ?cfg "''postgres'' @ replicate 8 (CHR 0x00)" willing_libbpf None None]
    unfolding * by (auto simp: Config_init_def kCommLen_def c_str_def)
qed

section \<open>Skeleton bridge\<close>

definition MAX_STACK_DEPTH :: nat where
  "MAX_STACK_DEPTH = 127"

definition active_syscalls_fd :: "'k Libbpf \<Rightarrow> 'k BpfLoader \<Rightarrow> int" where
  "active_syscalls_fd lb skel =
     (case skel of None \<Rightarrow> - 1 | Some sk \<Rightarrow> lb_active_syscalls_fd lb (sk_object sk))"

definition sched_states_fd :: "'k Libbpf \<Rightarrow> 'k BpfLoader \<Rightarrow> int" where
  "sched_states_fd lb skel =
     (case skel of None \<Rightarrow> - 1 | Some sk \<Rightarrow> lb_sched_states_fd lb (sk_object sk))"

text \<open>\<^verbatim>\<open>while (!addrs.empty() && addrs.back() == 0) addrs.pop_back();\<close>\<close>

function pop_zeros :: "u64 list \<Rightarrow> u64 list" where
  "pop_zeros addrs = (if addrs \<noteq> [] \<and> last addrs = 0 then pop_zeros (butlast addrs) else addrs)"
  by pat_completeness auto
termination
  by (relation "measure length") auto

declare pop_zeros.simps [simp del]

text \<open>\<open>lookup\<close> is the stack trace map: the buffer it fills for a key, \<open>None\<close> on an error.\<close>

definition read_stack :: "int \<Rightarrow> (u32 \<Rightarrow> u64 list option) \<Rightarrow> 32 word \<Rightarrow> u64 list" where
  "read_stack fd lookup stack_id =
     (if fd < 0 \<or> sint stack_id < 0 then []
      else case lookup stack_id of None \<Rightarrow> [] | Some addrs \<Rightarrow> pop_zeros addrs)"

text \<open>
  Counting by \<^verbatim>\<open>bpf_map_get_next_key\<close>, over the keys in the kernel's iteration order: for a key
  that is in the map it returns the following one, for any other key the first. The loop is given
  fuel; \<open>None\<close> means it was not enough.
\<close>

definition bpf_map_get_next_key :: "'k list \<Rightarrow> 'k \<Rightarrow> 'k option" where
  "bpf_map_get_next_key keys k =
     (let rest = (if k \<in> set keys then tl (dropWhile (\<lambda>x. x \<noteq> k) keys) else keys)
      in case rest of [] \<Rightarrow> None | x # _ \<Rightarrow> Some x)"

fun count_keys :: "nat \<Rightarrow> 'k list \<Rightarrow> 'k \<Rightarrow> u32 \<Rightarrow> u32 option" where
  "count_keys 0 keys k n = None"
| "count_keys (Suc fuel) keys k n =
     (case bpf_map_get_next_key keys k of
        None \<Rightarrow> Some n
      | Some k' \<Rightarrow> count_keys fuel keys k' (n + 1))"

definition zero_key :: task_key where
  "zero_key = \<lparr>tk_pid = 0, tk_tid = 0\<rparr>"

definition active_syscall_count :: "nat \<Rightarrow> 'k Libbpf \<Rightarrow> 'k BpfLoader \<Rightarrow> task_key list \<Rightarrow> u32 option" where
  "active_syscall_count fuel lb skel keys =
     (if active_syscalls_fd lb skel < 0 then Some 0 else count_keys fuel keys zero_key 0)"

definition sched_state_count :: "nat \<Rightarrow> 'k Libbpf \<Rightarrow> 'k BpfLoader \<Rightarrow> task_key list \<Rightarrow> u32 option" where
  "sched_state_count fuel lb skel keys =
     (if sched_states_fd lb skel < 0 then Some 0 else count_keys fuel keys zero_key 0)"

lemma next_key_in:
  assumes "distinct (pre @ k # post)"
  shows "bpf_map_get_next_key (pre @ k # post) k = (case post of [] \<Rightarrow> None | x # _ \<Rightarrow> Some x)"
proof -
  have "dropWhile (\<lambda>x. x \<noteq> k) (pre @ k # post) = k # post"
    using assms by (subst dropWhile_append2) auto
  then show ?thesis by (simp add: bpf_map_get_next_key_def)
qed

lemma count_keys_in:
  assumes "distinct (pre @ k # post)" "length post < fuel"
  shows "count_keys fuel (pre @ k # post) k n = Some (n + of_nat (length post))"
  using assms
proof (induction post arbitrary: pre k n fuel)
  case Nil
  then show ?case by (cases fuel) (simp_all add: next_key_in)
next
  case (Cons x post)
  then obtain f where f: "fuel = Suc f" "length post < f" by (cases fuel) auto
  have "count_keys f ((pre @ [k]) @ x # post) x (n + 1) = Some (n + 1 + of_nat (length post))"
    using Cons.prems f by (intro Cons.IH) simp_all
  then show ?case using Cons.prems f(1) by (simp add: next_key_in algebra_simps)
qed

text \<open>
  C31: with distinct keys and fuel beyond their number the counting loops end, and the count is
  the number of entries if no entry has the key (0, 0), on which the loops start; if there is such
  an entry, as the idle task has in the scheduler map, only the entries behind it in the kernel's
  order are counted.
\<close>

theorem map_count_exact:
  assumes "distinct keys" "length keys < fuel" "0 \<le> sched_states_fd lb skel" "0 \<le> active_syscalls_fd lb skel"
  shows "sched_state_count fuel lb skel keys =
      Some (of_nat (if zero_key \<in> set keys then length (dropWhile (\<lambda>k. k \<noteq> zero_key) keys) - 1 else length keys)) \<and>
    active_syscall_count fuel lb skel keys = sched_state_count fuel lb skel keys"
proof -
  have "count_keys fuel keys zero_key 0 =
      Some (of_nat (if zero_key \<in> set keys then length (dropWhile (\<lambda>k. k \<noteq> zero_key) keys) - 1 else length keys))"
  proof (cases "zero_key \<in> set keys")
    case True
    then obtain pre post where keys: "keys = pre @ zero_key # post" by (metis split_list)
    then have "dropWhile (\<lambda>k. k \<noteq> zero_key) keys = zero_key # post"
      using assms(1) unfolding keys by (subst dropWhile_append2) auto
    then show ?thesis
      using count_keys_in [of pre zero_key post fuel 0] assms(1,2) True keys by simp
  next
    case False
    then show ?thesis
    proof (cases keys)
      case Nil
      then show ?thesis using assms(2) by (cases fuel) (simp_all add: bpf_map_get_next_key_def)
    next
      case (Cons k ks)
      then obtain f where "fuel = Suc f" "length ks < f" using assms(2) by (cases fuel) auto
      then show ?thesis
        using False Cons count_keys_in [of "[]" k ks f 1] assms(1)
        by (simp add: bpf_map_get_next_key_def)
    qed
  qed
  then show ?thesis using assms(3,4) by (simp add: sched_state_count_def active_syscall_count_def)
qed

theorem map_count_exact_witness:
  "sched_state_count 4 willing_libbpf (Some \<lparr>sk_rodata = rodata_default, sk_object = ()\<rparr>)
     [thread_slot 5, zero_key, thread_slot 9] = Some 1"
  using map_count_exact [of "[thread_slot 5, zero_key, thread_slot 9]" 4 willing_libbpf
      "Some \<lparr>sk_rodata = rodata_default, sk_object = ()\<rparr>"]
  by (simp add: thread_slot_def zero_key_def willing_libbpf_def sched_states_fd_def active_syscalls_fd_def)

lemma pop_zeros_spec:
  "addrs = pop_zeros addrs @ replicate (length addrs - length (pop_zeros addrs)) 0 \<and>
   (pop_zeros addrs = [] \<or> last (pop_zeros addrs) \<noteq> 0) \<and> length (pop_zeros addrs) \<le> length addrs"
proof (induction addrs rule: pop_zeros.induct)
  case (1 addrs)
  show ?case
  proof (cases "addrs \<noteq> [] \<and> last addrs = 0")
    case True
    let ?p = "pop_zeros (butlast addrs)"
    have IH: "butlast addrs = ?p @ replicate (length (butlast addrs) - length ?p) 0"
      "?p = [] \<or> last ?p \<noteq> 0" "length ?p \<le> length (butlast addrs)" using 1 [OF True] by auto
    have "addrs = butlast addrs @ [0]" using True by (metis append_butlast_last_id)
    also have "\<dots> = ?p @ replicate (Suc (length (butlast addrs) - length ?p)) 0"
      using IH(1) by (metis append.assoc replicate_Suc replicate_append_same)
    also have "Suc (length (butlast addrs) - length ?p) = length addrs - length ?p"
      using True IH(3) by (cases addrs) auto
    finally have "addrs = ?p @ replicate (length addrs - length ?p) 0" .
    moreover have "pop_zeros addrs = ?p" using True by (subst pop_zeros.simps) simp
    ultimately show ?thesis using IH by simp
  next
    case False
    then have "pop_zeros addrs = addrs" by (subst pop_zeros.simps) auto
    then show ?thesis using False by auto
  qed
qed

text \<open>
  Reading a stack never fails: without the map, for a negative id or an id that is not in the
  map the stack is empty, and otherwise it is the stored addresses without the zero filling
  behind the last frame and nothing else removed.
\<close>

lemma read_stack_trims:
  "case (if fd < 0 \<or> sint stack_id < 0 then None else lookup stack_id) of
     None \<Rightarrow> read_stack fd lookup stack_id = []
   | Some addrs \<Rightarrow> let r = read_stack fd lookup stack_id in
       addrs = r @ replicate (length addrs - length r) 0 \<and> last (1 # r) \<noteq> 0 \<and> length r \<le> length addrs"
  using pop_zeros_spec by (auto simp: read_stack_def Let_def split: option.split)

end
