(* ===== verification/Collector.thy ===== *)
theory Collector
  imports Event_Source Event_Decoder Kscope_Errors Bpf_Loader
begin

text \<open>
  The collector (\<^verbatim>\<open>src/bpf/collector.cpp\<close>). \<^verbatim>\<open>ring_buffer__poll\<close> of libbpf calls
  \<^verbatim>\<open>handle_event\<close> for each record it takes from the ring buffer, in order; the records of one poll
  and the code it returns are arguments. The lemmas show that the collector is a source of the
  decoded records.
\<close>

record 's Collector =
  co_rb :: bool
  co_callback :: "'s callback option"
  co_running :: bool
  co_received :: u64
  co_decode_errors :: u64

definition Collector_init :: "'s Collector" where
  "Collector_init = \<lparr>co_rb = False, co_callback = None, co_running = False, co_received = 0,
     co_decode_errors = 0\<rparr>"

definition set_callback :: "'s callback option \<Rightarrow> 's Collector \<Rightarrow> 's Collector" where
  "set_callback cb c = c\<lparr>co_callback := cb\<rparr>"

text \<open>\<open>rb_new\<close> tells whether \<^verbatim>\<open>ring_buffer__new\<close> succeeds.\<close>

definition collector_start ::
  "'k Libbpf \<Rightarrow> 'k BpfLoader \<Rightarrow> bool \<Rightarrow> 's Collector \<Rightarrow> Status \<times> 's Collector" where
  "collector_start lb loader rb_new c =
     (if ringbuf_fd lb loader < 0 then (Inl (make_error BpfMapError ''invalid ring buffer fd''), c)
      else if \<not> rb_new
      then (Inl (make_error BpfMapError ''ring_buffer__new() failed''), c\<lparr>co_rb := False\<rparr>)
      else (Inr (), c\<lparr>co_rb := True, co_running := True\<rparr>))"

definition collector_stop :: "'s Collector \<Rightarrow> 's Collector" where
  "collector_stop c = c\<lparr>co_running := False\<rparr>"

definition handle_event :: "bytes \<Rightarrow> 's Collector \<times> 's \<Rightarrow> 's Collector \<times> 's" where
  "handle_event raw cs =
     (case cs of (c, s) \<Rightarrow>
        (case decode_event raw of
           None \<Rightarrow> (c\<lparr>co_decode_errors := co_decode_errors c + 1\<rparr>, s)
         | Some ev \<Rightarrow>
             (c\<lparr>co_received := co_received c + 1\<rparr>, call (co_callback c) ev s)))"

definition EINTR :: int where
  "EINTR = 4"

definition poll ::
  "bytes list \<Rightarrow> int \<Rightarrow> 's Collector \<times> 's \<Rightarrow> Status \<times> 's Collector \<times> 's" where
  "poll recs err cs =
     (if \<not> co_rb (fst cs) \<or> \<not> co_running (fst cs) then (Inr (), cs)
      else
        (if err < 0 \<and> err \<noteq> - EINTR
         then Inl (make_error BpfMapError (''ring_buffer__poll error: '' @ int_string err))
         else Inr (), fold handle_event recs cs))"

definition events_received :: "'s Collector \<Rightarrow> u64" where
  "events_received c = co_received c"

definition events_lost :: "'s Collector \<Rightarrow> u64" where
  "events_lost c = co_decode_errors c"

section \<open>The collector as a source\<close>

definition decoded :: "bytes list \<Rightarrow> Event list" where
  "decoded recs = List.map_filter decode_event recs"

lemma decoded_simps [simp]:
  "decoded [] = []"
  "decoded (raw # recs) = (case decode_event raw of None \<Rightarrow> decoded recs | Some ev \<Rightarrow> ev # decoded recs)"
  by (simp_all add: decoded_def map_filter_simps split: option.split)

lemma length_decoded: "length (decoded recs) \<le> length recs"
  by (induction recs) (auto split: option.split)

lemma handle_events:
  "fold handle_event recs (c, s) =
     (c\<lparr>co_received := co_received c + of_nat (length (decoded recs)),
        co_decode_errors := co_decode_errors c + of_nat (length recs - length (decoded recs))\<rparr>,
      fold (call (co_callback c)) (decoded recs) s)"
proof (induction recs arbitrary: c s)
  case Nil
  then show ?case by simp
next
  case (Cons raw recs)
  have "Suc (length recs) - length (decoded recs) = Suc (length recs - length (decoded recs))"
    using length_decoded [of recs] by simp
  then show ?case
    using Cons by (cases "decode_event raw") (simp_all add: handle_event_def algebra_simps)
qed

interpretation live: event_source
  "\<lambda>recs cb s. snd (fold handle_event recs (Collector_init\<lparr>co_callback := cb\<rparr>, s))" decoded
  by unfold_locales (simp add: handle_events)

text \<open>
  Polling hands every record that decodes to the callback, once and in the order of the ring
  buffer, and counts every record once: those long enough to be an event as received, the others
  as lost. An error of the poll other than an interruption is reported, after the records of
  that poll were handled; a collector that is not running handles nothing.
\<close>

lemma poll_delivers:
  "let (st, c', s') = poll recs err (c, s);
       evs = (if co_rb c \<and> co_running c then decoded recs else []);
       bad = (if co_rb c \<and> co_running c then length (filter (\<lambda>r. length r < sizeof_event) recs) else 0)
   in s' = fold (call (co_callback c)) evs s \<and>
      events_received c' = events_received c + of_nat (length evs) \<and>
      events_lost c' = events_lost c + of_nat bad \<and>
      length evs + bad = (if co_rb c \<and> co_running c then length recs else 0) \<and>
      map_sum err_code id st =
        (if co_rb c \<and> co_running c \<and> err < 0 \<and> err \<noteq> - EINTR then Inl BpfMapError else Inr ())"
proof -
  have sum: "length (decoded recs) + length (filter (\<lambda>r. length r < sizeof_event) recs) = length recs"
    by (induction recs) (auto simp: decode_event_def)
  then have "length recs - length (decoded recs) = length (filter (\<lambda>r. length r < sizeof_event) recs)"
    by simp
  then show ?thesis
    using sum by (simp add: poll_def handle_events events_received_def events_lost_def)
qed

end
