(* ===== verification/Logging.thy ===== *)
theory Logging
  imports Util_Time "HOL-Library.Stream"
begin

text \<open>
  Logging (\<^verbatim>\<open>src/util/logging.hpp\<close>, \<^verbatim>\<open>src/util/logging.cpp\<close>): the levels in their order, the global level
  and colour switch as a state, the four message functions and the line each writes to standard error. The
  local time of day and the milliseconds of the clock reading are arguments.
\<close>

section \<open>Levels\<close>

datatype Level = Debug | Info | Warn | Error_Level | Off

definition level_code :: "Level \<Rightarrow> nat" where
  "level_code l = (case l of Debug \<Rightarrow> 0 | Info \<Rightarrow> 1 | Warn \<Rightarrow> 2 | Error_Level \<Rightarrow> 3 | Off \<Rightarrow> 4)"

text \<open>The comparison of the enumeration's values.\<close>

lemma level_code_inject: "level_code a = level_code b \<longleftrightarrow> a = b"
  by (cases a; cases b) (simp_all add: level_code_def)

instantiation Level :: linorder
begin

definition less_eq_Level :: "Level \<Rightarrow> Level \<Rightarrow> bool" where
  "less_eq_Level a b \<longleftrightarrow> level_code a \<le> level_code b"

definition less_Level :: "Level \<Rightarrow> Level \<Rightarrow> bool" where
  "less_Level a b \<longleftrightarrow> level_code a < level_code b"

instance
  by intro_classes (auto simp: less_eq_Level_def less_Level_def level_code_inject)

end

lemmas level_le_simps = less_eq_Level_def level_code_def

definition level_str :: "Level \<Rightarrow> string" where
  "level_str l = (case l of Debug \<Rightarrow> ''DBG'' | Info \<Rightarrow> ''INF'' | Warn \<Rightarrow> ''WRN'' | Error_Level \<Rightarrow> ''ERR'' | Off \<Rightarrow> ''???'')"

definition level_color :: "Level \<Rightarrow> string" where
  "level_color l = (case l of Debug \<Rightarrow> escape_seq ''[90m'' | Info \<Rightarrow> escape_seq ''[36m'' | Warn \<Rightarrow> escape_seq ''[33m''
     | Error_Level \<Rightarrow> escape_seq ''[31m'' | Off \<Rightarrow> [])"

section \<open>State and messages\<close>

record Logger =
  g_level :: Level
  g_color :: bool

definition Logger_init :: Logger where
  "Logger_init = \<lparr>g_level = Info, g_color = True\<rparr>"

definition set_level :: "Level \<Rightarrow> Logger \<Rightarrow> Logger" where
  "set_level lvl lg = lg\<lparr>g_level := lvl\<rparr>"

definition get_level :: "Logger \<Rightarrow> Level" where
  "get_level lg = g_level lg"

definition set_color :: "bool \<Rightarrow> Logger \<Rightarrow> Logger" where
  "set_color on lg = lg\<lparr>g_color := on\<rparr>"

text \<open>Hour, minute, second and millisecond of a message.\<close>

type_synonym stamp = "nat \<times> nat \<times> nat \<times> nat"

definition emit :: "stamp \<Rightarrow> Level \<Rightarrow> string \<Rightarrow> Logger \<Rightarrow> string" where
  "emit t lvl msg lg =
     (case t of (h, m, s, ms) \<Rightarrow>
        let stamp = ''['' @ zero_pad 2 (to_string h) @ '':'' @ zero_pad 2 (to_string m) @ '':'' @ zero_pad 2 (to_string s) @ ''.'' @
                    zero_pad 3 (to_string ms) @ '' '' @ level_str lvl @ '']'' in
        (if g_color lg then level_color lvl @ stamp @ escape_seq ''[0m'' else stamp) @ '' '' @ c_str msg @ newline)"

definition log_debug :: "stamp \<Rightarrow> string \<Rightarrow> Logger \<Rightarrow> string" where
  "log_debug t msg lg = (if get_level lg \<le> Debug then emit t Debug msg lg else [])"

definition log_info :: "stamp \<Rightarrow> string \<Rightarrow> Logger \<Rightarrow> string" where
  "log_info t msg lg = (if get_level lg \<le> Info then emit t Info msg lg else [])"

definition log_warn :: "stamp \<Rightarrow> string \<Rightarrow> Logger \<Rightarrow> string" where
  "log_warn t msg lg = (if get_level lg \<le> Warn then emit t Warn msg lg else [])"

definition log_error :: "stamp \<Rightarrow> string \<Rightarrow> Logger \<Rightarrow> string" where
  "log_error t msg lg = (if get_level lg \<le> Error_Level then emit t Error_Level msg lg else [])"

text \<open>
  A call of one of them, and the text that a sequence of calls writes; the environment gives the time of each
  call. \<open>Library\<close> is not a call: it is what a library wrote to standard error itself in between, which no level
  filters.
\<close>

datatype LogCall = LogDebug string | LogInfo string | LogWarn string | LogError string | Library string

fun log_call :: "stamp \<Rightarrow> LogCall \<Rightarrow> Logger \<Rightarrow> string" where
  "log_call t (LogDebug msg) lg = log_debug t msg lg"
| "log_call t (LogInfo msg) lg = log_info t msg lg"
| "log_call t (LogWarn msg) lg = log_warn t msg lg"
| "log_call t (LogError msg) lg = log_error t msg lg"
| "log_call t (Library s) lg = s"

fun log_text :: "stamp stream \<Rightarrow> LogCall list \<Rightarrow> Logger \<Rightarrow> string" where
  "log_text ts [] lg = []"
| "log_text ts (k # ks) lg = log_call (shd ts) k lg @ log_text (stl ts) ks lg"

section \<open>Filtering\<close>

fun call_level :: "LogCall \<Rightarrow> Level" where
  "call_level (LogDebug msg) = Debug"
| "call_level (LogInfo msg) = Info"
| "call_level (LogWarn msg) = Warn"
| "call_level (LogError msg) = Error_Level"
| "call_level (Library s) = Off"

fun call_message :: "LogCall \<Rightarrow> string" where
  "call_message (LogDebug msg) = msg"
| "call_message (LogInfo msg) = msg"
| "call_message (LogWarn msg) = msg"
| "call_message (LogError msg) = msg"
| "call_message (Library s) = s"

lemma log_call_exact:
  "log_call t k lg = (if call_level k = Off then call_message k
     else if g_level lg \<le> call_level k then emit t (call_level k) (call_message k) lg else [])"
  by (cases k) (simp_all add: log_debug_def log_info_def log_warn_def log_error_def get_level_def)

lemma emit_nonempty [simp]: "emit t lvl msg lg \<noteq> []"
  by (cases t) (simp add: emit_def Let_def)

text \<open>Raising the level removes lines and changes none: the text is that of the calls that pass, each at its time.\<close>

lemma log_text_passes:
  "log_text ts ks lg = concat (map (\<lambda>(i, k). log_call (ts !! i) k lg)
     (filter (\<lambda>(i, k). g_level lg \<le> call_level k) (enumerate 0 ks)))"
proof -
  have gen: "log_text ts ks lg = concat (map (\<lambda>(i, k). log_call (ts' !! i) k lg)
     (filter (\<lambda>(i, k). g_level lg \<le> call_level k) (enumerate n ks)))" if "ts = sdrop n ts'" for n ts'
    using that
  proof (induction ks arbitrary: ts n)
    case (Cons k ks)
    have "stl ts = sdrop (Suc n) ts'" "shd ts = ts' !! n"
      using Cons.prems by (simp_all add: sdrop_simps flip: sdrop_stl)
    then show ?case using Cons.IH [of "stl ts" "Suc n"] by (auto simp: log_call_exact level_le_simps split: Level.splits)
  qed simp
  show ?thesis using gen [of 0 ts] by simp
qed

end
