(* ===== verification/Log_Messages.thy ===== *)
theory Log_Messages
  imports Logging Collector Ksr_Record
begin

text \<open>
  What the operations of the loader, the collector, the recorder and the replay source log, as functions of
  the arguments and results of the operations themselves (\<^verbatim>\<open>src/bpf/loader.cpp\<close>,
  \<^verbatim>\<open>src/bpf/collector.cpp\<close>, \<^verbatim>\<open>src/record/\<close>).
\<close>

text \<open>An operation that fails returns before it logs.\<close>

definition on_success :: "Status \<Rightarrow> LogCall list \<Rightarrow> LogCall list" where
  "on_success st ks = (case st of Inl e \<Rightarrow> [] | Inr u \<Rightarrow> ks)"

lemma on_success_simps [simp]: "on_success (Inl e) ks = []" "on_success (Inr u) ks = ks"
  by (simp_all add: on_success_def)

section \<open>Loader and collector\<close>

definition open_log :: "Status \<Rightarrow> LogCall list" where
  "open_log st = on_success st [LogInfo ''BPF skeleton opened'']"

definition configure_log :: "(u64 \<times> u64) option \<Rightarrow> BpfConfig \<Rightarrow> Status \<Rightarrow> LogCall list" where
  "configure_log pidns bc st = on_success st
     ((case pidns of
         Some (dev, ino) \<Rightarrow> [LogInfo (''PID namespace: dev='' @ to_string (unat dev) @ '' ino='' @ to_string (unat ino))]
       | None \<Rightarrow> []) @
      [LogInfo (''BPF config: pid='' @ to_string (unat (bc_target_pid bc)) @ '' min_lat='' @
         to_string (unat (bc_min_latency_ns bc)) @ ''ns min_offcpu='' @ to_string (unat (bc_min_offcpu_ns bc)) @ ''ns'')])"

definition load_log :: "Status \<Rightarrow> LogCall list" where
  "load_log st = on_success st [LogInfo ''BPF programs loaded into kernel'']"

definition attach_log :: "Status \<Rightarrow> LogCall list" where
  "attach_log st = on_success st [LogInfo ''BPF programs attached to tracepoints'']"

text \<open>The messages of \<open>setup_bpf\<close>, which stops at the first step that fails, and what libbpf prints in its calls.\<close>

definition setup_log :: "'k Libbpf \<Rightarrow> (u64 \<times> u64) option \<Rightarrow> Config \<Rightarrow> 'k BpfLoader \<Rightarrow> LogCall list" where
  "setup_log lb pidns cfg skel =
     (let (s1, skel) = loader_open lb skel in
      Library (lb_prints lb SkeletonOpen) # open_log s1 @ on_success s1
     (let (s2, skel) = loader_configure pidns (make_bpf_config cfg) skel in
      configure_log pidns (make_bpf_config cfg) s2 @ on_success s2
     (let (s3, skel) = loader_load lb skel in
      Library (lb_prints lb SkeletonLoad) # load_log s3 @ on_success s3
     (let (s4, skel) = loader_attach lb skel in Library (lb_prints lb SkeletonAttach) # attach_log s4))))"

definition start_log :: "'k Libbpf \<Rightarrow> 'k BpfLoader \<Rightarrow> Status \<Rightarrow> LogCall list" where
  "start_log lb skel st = (if ringbuf_fd lb skel < 0 then [] else [Library (lb_prints lb RingBufferNew)]) @ on_success st [LogInfo ''Collector started, polling ring buffer'']"

section \<open>Recorder and replay source\<close>

definition recorder_open_log :: "string \<Rightarrow> Status \<Rightarrow> LogCall list" where
  "recorder_open_log path st = on_success st [LogInfo (''Recording to '' @ path)]"

definition recorder_close_log :: "Recorder \<Rightarrow> LogCall list" where
  "recorder_close_log r =
     (case rec_file r of
        None \<Rightarrow> []
      | Some f \<Rightarrow> [LogInfo (''Recording complete: '' @ to_string (unat (rec_events_written r)) @ '' events'')])"

definition replay_open_log :: "string \<Rightarrow> Status \<Rightarrow> LogCall list" where
  "replay_open_log path st = on_success st [LogInfo (''Opened KSR file: '' @ path)]"

definition replay_log :: "Status \<times> ReplaySource \<Rightarrow> LogCall list" where
  "replay_log r = on_success (fst r) [LogInfo (''Replayed '' @ to_string (unat (rp_events_replayed (snd r))) @ '' events'')]"

text \<open>None of these is an error message; those are logged by the commands.\<close>

definition informational :: "LogCall \<Rightarrow> bool" where
  "informational k \<longleftrightarrow> call_level k = Info"

lemma on_success_all [simp]: "list_all P (on_success st ks) \<longleftrightarrow> isl st \<or> list_all P ks"
  by (cases st) simp_all

lemma component_logs_informational [simp]:
  "list_all informational (open_log st)" "list_all informational (configure_log pidns bc st)"
  "list_all informational (load_log st)" "list_all informational (attach_log st)"
  "list_all informational (recorder_open_log path st)"
  "list_all informational (recorder_close_log r)" "list_all informational (replay_open_log path st)"
  "list_all informational (replay_log sr)"
  by (simp_all add: open_log_def configure_log_def load_log_def attach_log_def recorder_open_log_def
      recorder_close_log_def replay_open_log_def replay_log_def informational_def split: option.split)

text \<open>What libbpf contributed to a log.\<close>

definition library_text :: "LogCall list \<Rightarrow> string" where
  "library_text ks = concat (map (\<lambda>k. if call_level k = Off then call_message k else []) ks)"

lemma library_text_simps [simp]:
  "library_text [] = []" "library_text (ks @ ks') = library_text ks @ library_text ks'"
  "library_text (k # ks) = (if call_level k = Off then call_message k else []) @ library_text ks"
  by (simp_all add: library_text_def)

lemma library_text_informational [simp]: "list_all informational ks \<Longrightarrow> library_text ks = []"
  by (induction ks) (auto simp: informational_def)

text \<open>
  A log with nothing but information and what libbpf printed in the first \<open>n\<close> of its calls, which come in a
  fixed order.
\<close>

definition libbpf_calls :: "LibbpfCall list" where
  "libbpf_calls = [SkeletonOpen, SkeletonLoad, SkeletonAttach, RingBufferNew]"

definition calm :: "'k Libbpf \<Rightarrow> nat \<Rightarrow> LogCall list \<Rightarrow> bool" where
  "calm lb n ks \<longleftrightarrow> list_all (\<lambda>k. call_level k = Info \<or> call_level k = Off) ks \<and>
     library_text ks = concat (map (lb_prints lb) (take n libbpf_calls))"

lemma informational_levels: "list_all informational ks \<Longrightarrow> list_all (\<lambda>k. call_level k = Info \<or> call_level k = Off) ks"
  by (auto simp: informational_def list_all_iff)

lemma calm_append [intro]: "calm lb n ks \<Longrightarrow> list_all informational ks' \<Longrightarrow> calm lb n (ks @ ks')"
  using informational_levels [of ks'] by (simp add: calm_def)

lemma calm_informational: "list_all informational ks \<Longrightarrow> calm lb 0 ks"
  using informational_levels [of ks] by (simp add: calm_def)

lemma setup_log_calm:
  "\<exists>n. calm lb n (setup_log lb pidns cfg skel) \<and> (isl (fst (setup_bpf lb pidns cfg skel)) \<or> n = 3)"
proof -
  note logs = component_logs_informational [THEN informational_levels]
  note defs = setup_log_def setup_bpf_def calm_def libbpf_calls_def numeral_3_eq_3
  obtain s1 sk1 where 1: "loader_open lb skel = (s1, sk1)" by fastforce
  obtain s2 sk2 where 2: "loader_configure pidns (make_bpf_config cfg) sk1 = (s2, sk2)" by fastforce
  obtain s3 sk3 where 3: "loader_load lb sk2 = (s3, sk3)" by fastforce
  obtain s4 sk4 where 4: "loader_attach lb sk3 = (s4, sk4)" by fastforce
  note steps = 1 2 3 4
  consider "isl s1" | "\<not> isl s1" "isl s2" | "\<not> isl s1" "\<not> isl s2" "isl s3" | "\<not> isl s1" "\<not> isl s2" "\<not> isl s3" by blast
  then show ?thesis
  proof cases
    case 1
    then show ?thesis by (intro exI [of _ 1]) (cases s1; simp add: defs steps logs)
  next
    case 2
    then show ?thesis by (intro exI [of _ 1]) (cases s1; cases s2; simp add: defs steps logs)
  next
    case 3
    then show ?thesis by (intro exI [of _ 2]) (cases s1; cases s2; cases s3; simp add: defs steps logs numeral_2_eq_2)
  next
    case 4
    then show ?thesis by (intro exI [of _ 3]) (cases s1; cases s2; cases s3; simp add: defs steps logs)
  qed
qed

lemma start_log_calm:
  "calm lb 3 ks \<Longrightarrow> calm lb (if ringbuf_fd lb skel < 0 then 3 else 4) (ks @ start_log lb skel st)"
  by (cases st) (simp_all add: calm_def start_log_def libbpf_calls_def eval_nat_numeral)

end
