(* ===== verification/Scan.thy ===== *)
theory Scan
  imports Kscope_Prelude "HOL-Library.Monad_Syntax"
begin

text \<open>
  Reading text with \<^verbatim>\<open>std::getline\<close> and \<^verbatim>\<open>sscanf\<close>: the conversions the sources use (unsigned numbers
  in base 10 and 16, a character, words of bounded width, literal characters and white space), each
  a function from the rest of the input to the value and the new rest, or \<open>None\<close> on a matching
  failure. The lemmas read back what the printing functions of the prelude write.
\<close>

section \<open>Lines\<close>

function getlines :: "string \<Rightarrow> string list" where
  "getlines s =
     (if s = [] then []
      else let line = takeWhile (\<lambda>c. c \<noteq> CHR 0x0A) s in line # getlines (drop (Suc (length line)) s))"
  by pat_completeness auto
termination
  by (relation "measure length") (auto simp: Let_def)

declare getlines.simps [simp del]

lemma getlines_Nil [simp]: "getlines [] = []"
  by (simp add: getlines.simps)

lemma getlines_line:
  assumes "CHR 0x0A \<notin> set line"
  shows "getlines (line @ CHR 0x0A # rest) = line # getlines rest"
proof -
  have "takeWhile (\<lambda>c. c \<noteq> CHR 0x0A) (line @ CHR 0x0A # rest) = line"
    using assms by (subst takeWhile_append2) auto
  then show ?thesis by (subst getlines.simps) simp
qed

lemma getlines_concat:
  "(\<And>e. e \<in> set es \<Longrightarrow> CHR 0x0A \<notin> set (f e)) \<Longrightarrow>
   getlines (concat (map (\<lambda>e. f e @ [CHR 0x0A]) es)) = map f es"
  by (induction es) (simp_all add: getlines_line)

section \<open>Conversions\<close>

definition is_space :: "char \<Rightarrow> bool" where
  "is_space c \<longleftrightarrow> c \<in> {CHR 0x20, CHR 0x09, CHR 0x0A, CHR 0x0B, CHR 0x0C, CHR 0x0D}"

definition skip_ws :: "string \<Rightarrow> string" where
  "skip_ws s = dropWhile is_space s"

definition scan_digit :: "char \<Rightarrow> nat option" where
  "scan_digit c =
     (let n = of_char c :: nat in
      if 48 \<le> n \<and> n \<le> 57 then Some (n - 48)
      else if 97 \<le> n \<and> n \<le> 102 then Some (n - 87)
      else if 65 \<le> n \<and> n \<le> 70 then Some (n - 55)
      else None)"

definition is_digit :: "nat \<Rightarrow> char \<Rightarrow> bool" where
  "is_digit b c \<longleftrightarrow> (case scan_digit c of None \<Rightarrow> False | Some d \<Rightarrow> d < b)"

definition digits_value :: "nat \<Rightarrow> string \<Rightarrow> nat" where
  "digits_value b s = foldl (\<lambda>acc c. b * acc + (case scan_digit c of None \<Rightarrow> 0 | Some d \<Rightarrow> d)) 0 s"

text \<open>\<^verbatim>\<open>%lu\<close> and \<^verbatim>\<open>%lx\<close>: white space, an optional sign, \<^verbatim>\<open>0x\<close> in base 16, digits; saturating.\<close>

definition scan_sign :: "string \<Rightarrow> bool \<times> string" where
  "scan_sign s = (case s of
     c # r \<Rightarrow> if c = CHR ''-'' then (True, r) else if c = CHR ''+'' then (False, r) else (False, s)
   | [] \<Rightarrow> (False, s))"

definition scan_prefix :: "nat \<Rightarrow> string \<Rightarrow> string" where
  "scan_prefix b s = (if b = 16 \<and> (take 2 s = ''0x'' \<or> take 2 s = ''0X'') then drop 2 s else s)"

definition scan_ulong :: "nat \<Rightarrow> string \<Rightarrow> (u64 \<times> string) option" where
  "scan_ulong b s =
     (let (neg, s1) = scan_sign (skip_ws s);
          s2 = scan_prefix b s1;
          ds = takeWhile (is_digit b) s2;
          v = digits_value b ds in
      if ds = [] then None
      else Some (if 2 ^ 64 \<le> v then - 1 else if neg then - of_nat v else of_nat v, drop (length ds) s2))"

text \<open>\<^verbatim>\<open>%<width>s\<close>, \<^verbatim>\<open>%c\<close> and a literal character of the format.\<close>

definition scan_word :: "nat \<Rightarrow> string \<Rightarrow> (string \<times> string) option" where
  "scan_word width s =
     (let s1 = skip_ws s; w = take width (takeWhile (\<lambda>c. \<not> is_space c) s1) in
      if w = [] then None else Some (w, drop (length w) s1))"

fun scan_char :: "string \<Rightarrow> (char \<times> string) option" where
  "scan_char [] = None"
| "scan_char (c # s) = Some (c, s)"

fun scan_lit :: "char \<Rightarrow> string \<Rightarrow> string option" where
  "scan_lit l [] = None"
| "scan_lit l (c # s) = (if c = l then Some s else None)"

section \<open>Reading what was printed\<close>

lemma scan_digit_char: "d < 16 \<Longrightarrow> scan_digit (digit_char d) = Some d"
  by (simp add: scan_digit_def digit_char_def Let_def)

lemma not_digits [simp]:
  "\<not> is_digit b (CHR ''-'')" "\<not> is_digit b (CHR ''+'')" "\<not> is_digit b (CHR '':'')" "\<not> is_digit b (CHR ''x'')"
  "\<not> is_digit b (CHR ''X'')" "\<not> is_digit b (CHR 0x20)" "\<not> is_digit b (CHR 0x0A)" "\<not> is_digit b (CHR 0x00)"
  by (simp_all add: is_digit_def scan_digit_def)

lemma digit_not_space: "is_digit b c \<Longrightarrow> \<not> is_space c"
  by (auto simp: is_space_def is_digit_def scan_digit_def)

lemma base_string_digits:
  assumes "2 \<le> b" "b \<le> 16"
  shows "list_all (is_digit b) (base_string b n)"
  using assms
proof (induction b n rule: base_string.induct)
  case (1 b n)
  have "is_digit b (digit_char d)" if "d < b" for d
    using that "1.prems" by (simp add: is_digit_def scan_digit_char)
  then show ?case using 1 by (subst base_string.simps) auto
qed

lemma digits_value_base_string:
  assumes "2 \<le> b" "b \<le> 16"
  shows "digits_value b (base_string b n) = n"
  using assms
proof (induction b n rule: base_string.induct)
  case (1 b n)
  have scan: "scan_digit (digit_char d) = Some d" if "d < b" for d
    using that "1.prems" by (simp add: scan_digit_char)
  show ?case
  proof (cases "n < b")
    case True
    then show ?thesis using "1.prems" by (subst base_string.simps) (simp add: digits_value_def scan)
  next
    case False
    with 1 have "digits_value b (base_string b (n div b)) = n div b" by simp
    moreover have "n mod b < b" using "1.prems" by simp
    ultimately show ?thesis
      using False "1.prems" by (subst base_string.simps) (simp add: digits_value_def scan)
  qed
qed

lemma digits_value_zeros: "digits_value b (replicate k (CHR ''0'') @ s) = digits_value b s"
proof -
  have "foldl (\<lambda>acc c. b * acc + (case scan_digit c of None \<Rightarrow> 0 | Some d \<Rightarrow> d)) 0 (replicate k (CHR ''0'')) = 0"
    by (induction k) (simp_all add: scan_digit_def)
  then show ?thesis by (simp add: digits_value_def)
qed

text \<open>The rest behind a number must not continue it.\<close>

definition ends_number :: "nat \<Rightarrow> string \<Rightarrow> bool" where
  "ends_number b rest \<longleftrightarrow> (case rest of [] \<Rightarrow> True | c # _ \<Rightarrow> \<not> is_digit b c \<and> c \<noteq> CHR ''x'' \<and> c \<noteq> CHR ''X'')"

lemma skip_ws_digits: "ds \<noteq> [] \<Longrightarrow> list_all (is_digit b) ds \<Longrightarrow> list_all is_space ws \<Longrightarrow> skip_ws (ws @ ds @ r) = ds @ r"
  unfolding skip_ws_def
  by (subst dropWhile_append2) (auto simp: list_all_iff neq_Nil_conv digit_not_space)

lemma scan_ulong_digits:
  assumes "ds \<noteq> []" "list_all (is_digit b) ds" "list_all is_space ws" "ends_number b rest"
  shows "scan_ulong b (ws @ ds @ rest) =
    Some (if 2 ^ 64 \<le> digits_value b ds then - 1 else of_nat (digits_value b ds), rest)"
proof -
  obtain d ds' where ds: "ds = d # ds'" "is_digit b d" "list_all (is_digit b) ds'"
    using assms(1,2) by (cases ds) auto
  have "scan_sign (ds @ rest) = (False, ds @ rest)"
    using ds by (auto simp: scan_sign_def)
  moreover have "take 2 (ds @ rest) \<noteq> ''0x''" "take 2 (ds @ rest) \<noteq> ''0X''"
    using ds assms(4) by (cases ds'; cases rest; auto simp: ends_number_def)+
  then have "scan_prefix b (ds @ rest) = ds @ rest" by (simp add: scan_prefix_def)
  moreover have "takeWhile (is_digit b) (ds @ rest) = ds"
    using assms(2,4) by (subst takeWhile_append2) (auto simp: list_all_iff ends_number_def split: list.splits)
  ultimately show ?thesis
    using assms(1) by (simp add: scan_ulong_def skip_ws_digits [OF assms(1-3)])
qed

lemma scan_ulong_string:
  assumes "2 \<le> b" "b \<le> 16" "list_all is_space ws" "ends_number b rest" "n < 2 ^ 64"
  shows "scan_ulong b (ws @ replicate k (CHR ''0'') @ base_string b n @ rest) = Some (of_nat n, rest)"
proof -
  have "is_digit b (CHR ''0'')" using assms(1) by (simp add: is_digit_def scan_digit_def)
  then have "list_all (is_digit b) (replicate k (CHR ''0'') @ base_string b n)"
    using base_string_digits [OF assms(1,2)] by (auto simp: list_all_iff)
  then show ?thesis
    using scan_ulong_digits [of "replicate k (CHR ''0'') @ base_string b n" b ws rest] assms
    by (simp add: digits_value_zeros digits_value_base_string)
qed

lemma scan_word_string:
  assumes "w \<noteq> []" "list_all (\<lambda>c. \<not> is_space c) w" "length w \<le> width" "list_all is_space ws"
    and "case rest of [] \<Rightarrow> True | c # _ \<Rightarrow> is_space c"
  shows "scan_word width (ws @ w @ rest) = Some (w, rest)"
proof -
  have "skip_ws (ws @ w @ rest) = w @ rest"
    unfolding skip_ws_def using assms(1,2,4) by (subst dropWhile_append2) (auto simp: list_all_iff neq_Nil_conv)
  moreover have "takeWhile (\<lambda>c. \<not> is_space c) (w @ rest) = w"
    using assms(2,5) by (subst takeWhile_append2) (auto simp: list_all_iff split: list.splits)
  ultimately show ?thesis using assms(1,3) by (cases width) (simp_all add: scan_word_def)
qed

end
