(* ===== verification/Proc_Maps.thy ===== *)
theory Proc_Maps
  imports Scan
begin

text \<open>
  \<^verbatim>\<open>src/symbolization/proc_maps.cpp\<close>: reading the executable mappings of a process from the text of
  \<^verbatim>\<open>/proc/<pid>/maps\<close> and looking an address up in them. The text of the file is an argument,
  \<open>None\<close> when it cannot be opened.
\<close>

record MemoryMapping =
  mm_start :: u64
  mm_end :: u64
  mm_offset :: u64
  mm_pathname :: string

record ProcMaps =
  pm_pid :: u32
  pm_mappings :: "MemoryMapping list"

definition ProcMaps_init :: "u32 \<Rightarrow> ProcMaps" where
  "ProcMaps_init pid = \<lparr>pm_pid = pid, pm_mappings = []\<rparr>"

text \<open>
  The conversions of one line, in the order of the format string: \<open>None\<close> when fewer than seven
  succeed, an empty path when the eighth does not.
\<close>

definition scan_maps_line :: "string \<Rightarrow> (u64 \<times> u64 \<times> string \<times> u64 \<times> string) option" where
  "scan_maps_line line = do {
     (start, s) \<leftarrow> scan_ulong 16 line;
     s \<leftarrow> scan_lit (CHR ''-'') s;
     (end', s) \<leftarrow> scan_ulong 16 s;
     (perms, s) \<leftarrow> scan_word 4 s;
     (offset, s) \<leftarrow> scan_ulong 16 s;
     (dev_major, s) \<leftarrow> scan_ulong 16 s;
     s \<leftarrow> scan_lit (CHR '':'') s;
     (dev_minor, s) \<leftarrow> scan_ulong 16 s;
     (inode, s) \<leftarrow> scan_ulong 10 s;
     Some (start, end', perms, offset, case scan_word 4095 s of None \<Rightarrow> [] | Some (p, _) \<Rightarrow> p)
   }"

definition mapping_of_line :: "string \<Rightarrow> MemoryMapping option" where
  "mapping_of_line line =
     (case scan_maps_line (c_str line) of
        None \<Rightarrow> None
      | Some (start, end', perms, offset, pathname) \<Rightarrow>
          if \<not> (2 < length perms \<and> perms ! 2 = CHR ''x'') then None
          else if pathname \<noteq> [] \<and> pathname ! 0 = CHR ''['' then None
          else Some \<lparr>mm_start = start, mm_end = end', mm_offset = offset, mm_pathname = pathname\<rparr>)"

definition maps_load :: "string option \<Rightarrow> ProcMaps \<Rightarrow> bool \<times> ProcMaps" where
  "maps_load file pm =
     (case file of
        None \<Rightarrow> (False, pm\<lparr>pm_mappings := []\<rparr>)
      | Some text \<Rightarrow>
          let ms = List.map_filter mapping_of_line (getlines text)
          in (ms \<noteq> [], pm\<lparr>pm_mappings := ms\<rparr>))"

fun find_mapping :: "MemoryMapping list \<Rightarrow> u64 \<Rightarrow> MemoryMapping option" where
  "find_mapping [] addr = None"
| "find_mapping (m # ms) addr =
     (if addr \<ge> mm_start m \<and> addr < mm_end m then Some m else find_mapping ms addr)"

definition maps_find :: "ProcMaps \<Rightarrow> u64 \<Rightarrow> MemoryMapping option" where
  "maps_find pm addr = find_mapping (pm_mappings pm) addr"

lemma find_mapping_Some:
  "find_mapping ms addr = Some m \<Longrightarrow> m \<in> set ms \<and> mm_start m \<le> addr \<and> addr < mm_end m"
  by (induction ms) (auto split: if_splits)

section \<open>Reading the kernel's table\<close>

text \<open>
  A line as the kernel prints it: the numbers in hexadecimal, possibly with leading zeros, four
  permission characters, device, inode, and behind a run of blanks what the mapping is: nothing, a
  name in brackets as \<^verbatim>\<open>[stack]\<close> or \<^verbatim>\<open>[anon:x]\<close>, or a path, which may contain blanks and be followed by
  the mark \<^verbatim>\<open> (deleted)\<close>; a line break in a path is printed as an escape sequence.
\<close>

record MapsEntry =
  me_start :: u64
  me_end :: u64
  me_perms :: string
  me_offset :: u64
  me_major :: nat
  me_minor :: nat
  me_inode :: nat
  me_path :: string
  me_zeros :: nat
  me_blanks :: nat

definition maps_line :: "MapsEntry \<Rightarrow> string" where
  "maps_line e =
     replicate (me_zeros e) (CHR ''0'') @ hex_string (unat (me_start e)) @ ''-'' @
     replicate (me_zeros e) (CHR ''0'') @ hex_string (unat (me_end e)) @ '' '' @ me_perms e @ '' '' @
     replicate (me_zeros e) (CHR ''0'') @ hex_string (unat (me_offset e)) @ '' '' @
     replicate (me_zeros e) (CHR ''0'') @ hex_string (me_major e) @ '':'' @
     replicate (me_zeros e) (CHR ''0'') @ hex_string (me_minor e) @ '' '' @
     to_string (me_inode e) @ replicate (Suc (me_blanks e)) (CHR '' '') @ me_path e"

definition maps_entry_wf :: "MapsEntry \<Rightarrow> bool" where
  "maps_entry_wf e \<longleftrightarrow> length (me_perms e) = 4 \<and> me_major e < 2 ^ 32 \<and> me_minor e < 2 ^ 32 \<and> me_inode e < 2 ^ 64 \<and>
     list_all (\<lambda>c. \<not> is_space c \<and> c \<noteq> CHR 0x00) (me_perms e) \<and>
     list_all (\<lambda>c. c \<noteq> CHR 0x00 \<and> c \<noteq> CHR 0x0A) (me_path e) \<and> (me_path e = [] \<or> \<not> is_space (me_path e ! 0))"

definition maps_entry_kept :: "MapsEntry \<Rightarrow> bool" where
  "maps_entry_kept e \<longleftrightarrow> me_perms e ! 2 = CHR ''x'' \<and> (me_path e = [] \<or> me_path e ! 0 \<noteq> CHR ''['')"

text \<open>Of the path only the first word is read, and at most 4095 characters of it.\<close>

definition read_path :: "string \<Rightarrow> string" where
  "read_path p = take 4095 (takeWhile (\<lambda>c. \<not> is_space c) p)"

definition entry_mapping :: "MapsEntry \<Rightarrow> MemoryMapping" where
  "entry_mapping e =
     \<lparr>mm_start = me_start e, mm_end = me_end e, mm_offset = me_offset e, mm_pathname = read_path (me_path e)\<rparr>"

lemma ends_number_simps [simp]:
  "ends_number b (CHR ''-'' # r)" "ends_number b (CHR '' '' # r)" "ends_number b (CHR '':'' # r)"
  by (simp_all add: ends_number_def)

lemma blank_space [simp]: "is_space (CHR '' '')"
  by (simp add: is_space_def)

lemma scan_hex:
  assumes "ends_number 16 rest" "n < 2 ^ 64"
  shows "scan_ulong 16 (replicate k (CHR ''0'') @ hex_string n @ rest) = Some (of_nat n, rest)"
    and "scan_ulong 16 (CHR '' '' # replicate k (CHR ''0'') @ hex_string n @ rest) = Some (of_nat n, rest)"
proof -
  show "scan_ulong 16 (replicate k (CHR ''0'') @ hex_string n @ rest) = Some (of_nat n, rest)"
    using scan_ulong_string [of 16 "[]" rest n k] assms unfolding hex_string_def append_Nil by simp
  show "scan_ulong 16 (CHR '' '' # replicate k (CHR ''0'') @ hex_string n @ rest) = Some (of_nat n, rest)"
    using scan_ulong_string [of 16 "[CHR '' '']" rest n k] assms
    unfolding hex_string_def append_Cons append_Nil by simp
qed

lemma scan_dec:
  assumes "ends_number 10 rest" "n < 2 ^ 64"
  shows "scan_ulong 10 (CHR '' '' # to_string n @ rest) = Some (of_nat n, rest)"
  using scan_ulong_string [of 10 "[CHR '' '']" rest n 0] assms
  unfolding to_string_def append_Cons append_Nil replicate_0 by simp

lemma scan_perms:
  assumes "length w = 4" "list_all (\<lambda>c. \<not> is_space c) w"
  shows "scan_word 4 (CHR '' '' # w @ CHR '' '' # rest) = Some (w, CHR '' '' # rest)"
proof -
  have "w \<noteq> []" using assms(1) by auto
  then show ?thesis
    using scan_word_string [of w 4 "[CHR '' '']" "CHR '' '' # rest"] assms
    unfolding append_Cons append_Nil by simp
qed

lemma scan_path:
  assumes "p = [] \<or> \<not> is_space (p ! 0)"
  shows "(case scan_word 4095 (CHR '' '' # replicate k (CHR '' '') @ p) of None \<Rightarrow> [] | Some (p, _) \<Rightarrow> p) = read_path p"
proof -
  have "skip_ws (replicate n (CHR '' '') @ p) = p" for n
    using assms by (induction n; cases p) (auto simp: skip_ws_def)
  from this [of "Suc k"] show ?thesis by (simp add: scan_word_def read_path_def Let_def)
qed

lemma read_path_first:
  "p = [] \<or> \<not> is_space (p ! 0) \<Longrightarrow> read_path p = [] \<longleftrightarrow> p = []"
  "p \<noteq> [] \<Longrightarrow> \<not> is_space (p ! 0) \<Longrightarrow> read_path p ! 0 = p ! 0"
  by (cases p; simp add: read_path_def takeWhile_eq_Nil_iff)+

lemma scan_lit_same: "scan_lit c (c # s) = Some s"
  by simp

lemma unat_less_u64: "unat (v :: u64) < 2 ^ 64"
  using unsigned_less [of v, where ?'a = nat] by simp

lemma scan_maps_line_entry:
  assumes "maps_entry_wf e"
  shows "scan_maps_line (maps_line e) = Some (me_start e, me_end e, me_perms e, me_offset e, read_path (me_path e))"
proof -
  have wf: "length (me_perms e) = 4" "list_all (\<lambda>c. \<not> is_space c) (me_perms e)"
    "me_path e = [] \<or> \<not> is_space (me_path e ! 0)"
    "me_major e < 2 ^ 64" "me_minor e < 2 ^ 64" "me_inode e < 2 ^ 64"
    using assms by (auto simp: maps_entry_wf_def list_all_iff)
  show ?thesis
    unfolding scan_maps_line_def maps_line_def append_Cons append_Nil replicate_Suc
    by (simp only: ends_number_simps scan_hex [OF _ unat_less_u64] scan_hex [OF _ wf(4)]
        scan_hex [OF _ wf(5)] scan_dec [OF _ wf(6)] scan_perms [OF wf(1,2)] scan_path [OF wf(3)]
        Option.bind.bind_lunit prod.case scan_lit_same) simp
qed

definition plain_char :: "char \<Rightarrow> bool" where
  "plain_char c \<longleftrightarrow> c \<noteq> CHR 0x00 \<and> c \<noteq> CHR 0x0A"

lemma plain_base_string: "2 \<le> b \<Longrightarrow> b \<le> 16 \<Longrightarrow> list_all plain_char (base_string b n)"
  using base_string_digits [of b n] by (auto simp: list_all_iff plain_char_def)

lemma plain_maps_line:
  assumes "maps_entry_wf e"
  shows "list_all plain_char (maps_line e)"
proof -
  have "list_all plain_char (me_perms e)" "list_all plain_char (me_path e)"
    using assms by (auto simp: maps_entry_wf_def list_all_iff plain_char_def is_space_def)
  moreover have "list_all plain_char (replicate k (CHR ''0''))" "list_all plain_char (replicate k (CHR '' ''))" for k
    by (simp_all add: list_all_iff plain_char_def)
  ultimately show ?thesis
    unfolding maps_line_def hex_string_def to_string_def list_all_append
    by (simp add: plain_base_string plain_char_def del: replicate.simps)
qed

lemma c_str_plain: "list_all plain_char s \<Longrightarrow> c_str s = s"
  by (auto simp: c_str_def list_all_iff plain_char_def)

lemma mapping_of_entry:
  assumes "maps_entry_wf e"
  shows "mapping_of_line (maps_line e) = (if maps_entry_kept e then Some (entry_mapping e) else None)"
proof -
  have "c_str (maps_line e) = maps_line e" using plain_maps_line [OF assms] by (rule c_str_plain)
  moreover have "length (me_perms e) = 4" using assms by (simp add: maps_entry_wf_def)
  ultimately show ?thesis
    using scan_maps_line_entry [OF assms]
    using read_path_first [of "me_path e"] assms
    by (auto simp: mapping_of_line_def maps_entry_kept_def entry_mapping_def maps_entry_wf_def)
qed


definition text_entry :: MapsEntry where
  "text_entry = \<lparr>me_start = 0x400000, me_end = 0x452000, me_perms = ''r-xp'', me_offset = 0x1000,
     me_major = 8, me_minor = 2, me_inode = 173521, me_path = ''/usr/bin/app (deleted)'', me_zeros = 2, me_blanks = 5\<rparr>"

definition data_entry :: MapsEntry where
  "data_entry = text_entry\<lparr>me_start := 0x452000, me_end := 0x453000, me_perms := ''rw-p''\<rparr>"

lemma read_path_text [simp]: "read_path (me_path text_entry) = ''/usr/bin/app''"
  by (simp add: read_path_def text_entry_def is_space_def)


end
