(* ===== verification/Elf_Cache.thy ===== *)
theory Elf_Cache
  imports Kscope_Prelude "HOL-Library.Monad_Syntax"
begin

text \<open>
  The ELF symbol cache (\<^verbatim>\<open>src/symbolization/elf_cache.cpp\<close>). What libelf returns for a file is an
  argument: header, program headers, sections and symbols, each possibly failing. The division by a
  section's entry size traps when that is zero, so the operations return an option, \<open>None\<close> for the
  trap.
\<close>

section \<open>What libelf reads\<close>

record GElfSym =
  gs_type :: nat
  gs_value :: u64
  gs_size :: u64
  gs_name :: "string option"

record ElfSection =
  es_type :: nat
  es_size :: u64
  es_entsize :: u64
  es_data :: "(u32 \<Rightarrow> GElfSym option) option"

record ElfFile =
  ef_type :: nat
  ef_phdrs :: "(nat \<times> u64) option list"
  ef_sections :: "ElfSection option list"

definition ET_DYN :: nat where "ET_DYN = 3"
definition PT_LOAD :: nat where "PT_LOAD = 1"
definition SHT_SYMTAB :: nat where "SHT_SYMTAB = 2"
definition SHT_DYNSYM :: nat where "SHT_DYNSYM = 11"
definition STT_FUNC :: nat where "STT_FUNC = 2"

section \<open>Parsing\<close>

record ElfSymbol =
  sym_name :: string
  sym_addr :: u64
  sym_size :: u64

record ElfInfo =
  ei_symbols :: "ElfSymbol list"
  ei_load_base :: u64
  ei_is_pie :: bool

definition ElfInfo_init :: ElfInfo where
  "ElfInfo_init = \<lparr>ei_symbols = [], ei_load_base = 0, ei_is_pie = False\<rparr>"

definition min_vaddr :: "(nat \<times> u64) option list \<Rightarrow> u64" where
  "min_vaddr phdrs =
     fold (\<lambda>ph m. case ph of
         None \<Rightarrow> m
       | Some (p_type, p_vaddr) \<Rightarrow> if p_type = PT_LOAD \<and> p_vaddr < m then p_vaddr else m)
       phdrs (- 1)"

definition symbol_of :: "GElfSym option \<Rightarrow> ElfSymbol option" where
  "symbol_of gs =
     (case gs of
        None \<Rightarrow> None
      | Some s \<Rightarrow>
          if gs_type s \<noteq> STT_FUNC then None
          else if gs_value s = 0 then None
          else (case gs_name s of
             None \<Rightarrow> None
           | Some name \<Rightarrow>
               if name = [] then None
               else Some \<lparr>sym_name = name, sym_addr = gs_value s,
                          sym_size = (if gs_size s = 0 then 1 else gs_size s)\<rparr>))"

definition section_symbols :: "ElfSection option \<Rightarrow> ElfSymbol list option" where
  "section_symbols scn =
     (case scn of
        None \<Rightarrow> Some []
      | Some s \<Rightarrow>
          if es_type s \<noteq> SHT_SYMTAB \<and> es_type s \<noteq> SHT_DYNSYM then Some []
          else (case es_data s of
             None \<Rightarrow> Some []
           | Some getsym \<Rightarrow>
               if es_entsize s = 0 then None
               else Some (List.map_filter (\<lambda>i. symbol_of (getsym (of_nat i))) [0..<unat (es_size s div es_entsize s)])))"

fun all_symbols :: "ElfSection option list \<Rightarrow> ElfSymbol list option" where
  "all_symbols [] = Some []"
| "all_symbols (scn # scns) = do {
     here \<leftarrow> section_symbols scn;
     rest \<leftarrow> all_symbols scns;
     Some (here @ rest)
   }"

type_synonym symbol_sorter = "(ElfSymbol \<Rightarrow> ElfSymbol \<Rightarrow> bool) \<Rightarrow> ElfSymbol list \<Rightarrow> ElfSymbol list"

text \<open>\<open>None\<close> as the file: it cannot be opened, or libelf refuses it.\<close>

definition parse_elf :: "symbol_sorter \<Rightarrow> ElfFile option \<Rightarrow> ElfInfo option" where
  "parse_elf srt file =
     (case file of
        None \<Rightarrow> Some ElfInfo_init
      | Some f \<Rightarrow>
          (case all_symbols (ef_sections f) of
             None \<Rightarrow> None
           | Some syms \<Rightarrow> Some \<lparr>
               ei_symbols = srt (\<lambda>a b. sym_addr a < sym_addr b) syms,
               ei_load_base = (if min_vaddr (ef_phdrs f) = - 1 then 0 else min_vaddr (ef_phdrs f)),
               ei_is_pie = (ef_type f = ET_DYN)\<rparr>))"

section \<open>Cache\<close>

record ElfCache =
  ec_max_entries :: nat
  ec_cache :: "(string, ElfInfo) umap"

definition ElfCache_init :: "nat \<Rightarrow> ElfCache" where
  "ElfCache_init max_entries = \<lparr>ec_max_entries = max_entries, ec_cache = []\<rparr>"

definition ensure_loaded ::
  "symbol_sorter \<Rightarrow> (string \<Rightarrow> ElfFile option) \<Rightarrow> string \<Rightarrow> ElfCache \<Rightarrow> (ElfInfo \<times> ElfCache) option" where
  "ensure_loaded srt files path c =
     (case map_of (ec_cache c) path of
        Some info \<Rightarrow> Some (info, c)
      | None \<Rightarrow>
          (case parse_elf srt (files path) of
             None \<Rightarrow> None
           | Some info \<Rightarrow> Some (info, c\<lparr>ec_cache := umap_upd path (\<lambda>_. info) info (ec_cache c)\<rparr>)))"

text \<open>The lookup in a sorted table: the last symbol that starts at or below the address.\<close>

definition lookup_symbol :: "ElfSymbol list \<Rightarrow> u64 \<Rightarrow> ElfSymbol option" where
  "lookup_symbol syms addr =
     (if syms = [] then None
      else let i = upper_bound (\<lambda>a s. a < sym_addr s) addr syms in
        if i \<noteq> 0 then
          (let s = syms ! (i - 1) in
           if addr \<ge> sym_addr s \<and> addr < sym_addr s + sym_size s then Some s
           else if addr \<ge> sym_addr s \<and> addr - sym_addr s < 0x10000
           then Some \<lparr>sym_name = sym_name s, sym_addr = sym_addr s, sym_size = sym_size s\<rparr>
           else None)
        else None)"

definition cache_full :: "string \<Rightarrow> ElfCache \<Rightarrow> bool" where
  "cache_full path c \<longleftrightarrow> length (ec_cache c) \<ge> ec_max_entries c \<and> map_of (ec_cache c) path = None"

definition elf_resolve ::
  "symbol_sorter \<Rightarrow> (string \<Rightarrow> ElfFile option) \<Rightarrow> string \<Rightarrow> u64 \<Rightarrow> ElfCache \<Rightarrow>
   (ElfSymbol option \<times> ElfCache) option" where
  "elf_resolve srt files path addr_offset c =
     (if cache_full path c then Some (None, c)
      else do {
        (info, c') \<leftarrow> ensure_loaded srt files path c;
        Some (lookup_symbol (ei_symbols info) addr_offset, c')
      })"

definition get_info ::
  "symbol_sorter \<Rightarrow> (string \<Rightarrow> ElfFile option) \<Rightarrow> string \<Rightarrow> ElfCache \<Rightarrow> (ElfInfo option \<times> ElfCache) option"
where
  "get_info srt files path c =
     (if cache_full path c then Some (None, c)
      else do {
        (info, c') \<leftarrow> ensure_loaded srt files path c;
        Some (Some info, c')
      })"

definition elf_clear :: "ElfCache \<Rightarrow> ElfCache" where
  "elf_clear c = c\<lparr>ec_cache := []\<rparr>"

section \<open>The cache is transparent\<close>

interpretation elf: memo_table "\<lambda>c. map_of (ec_cache c)" "ensure_loaded srt files"
    "\<lambda>path. parse_elf srt (files path)" "\<lambda>c. length (ec_cache c)"
  for srt files
proof (unfold_locales, goal_cases)
  case (3 c path info)
  then have "length (umap_upd path (\<lambda>_. info) info (ec_cache c)) = Suc (length (ec_cache c))"
    by (simp add: length_umap_upd)
  with 3 show ?case by (auto simp: ensure_loaded_def umap_simps)
qed (simp_all add: ensure_loaded_def)

definition elf_inv :: "symbol_sorter \<Rightarrow> (string \<Rightarrow> ElfFile option) \<Rightarrow> ElfCache \<Rightarrow> bool" where
  "elf_inv srt files c \<longleftrightarrow> elf.coherent srt files c \<and> length (ec_cache c) \<le> ec_max_entries c"

lemma max_entries_loaded:
  "ensure_loaded srt files path c = Some (info, c') \<Longrightarrow> ec_max_entries c' = ec_max_entries c"
  by (auto simp: ensure_loaded_def split: option.splits)

lemma elf_inv_loaded:
  assumes "elf_inv srt files c" "\<not> cache_full path c" "ensure_loaded srt files path c = Some (info, c')"
  shows "elf_inv srt files c' \<and> parse_elf srt (files path) = Some info"
proof -
  have "elf.coherent srt files c'" "parse_elf srt (files path) = Some info"
    using assms(1,3) elf.load_coherent elf.load_computes [of srt files c path]
    by (auto simp: elf_inv_def)
  moreover have "length (ec_cache c') \<le> ec_max_entries c"
    using elf.load_entries [OF assms(3)] assms(1,2) by (auto simp: cache_full_def elf_inv_def)
  ultimately show ?thesis using max_entries_loaded [OF assms(3)] by (simp add: elf_inv_def)
qed

text \<open>
  The cache never holds more files than its limit and never changes an answer: from any state
  reached by lookups, as long as the files do not change, looking up an address gives exactly
  what parsing the file anew and searching its table gives, except that a file that is not in a
  full cache is not looked at at all; the state keeps both guarantees. (Nothing is ever evicted.)
\<close>

lemma elf_resolve_transparent:
  assumes "elf_inv srt files c"
  shows "(case elf_resolve srt files path addr c of
      None \<Rightarrow> parse_elf srt (files path) = None
    | Some (r, c') \<Rightarrow> elf_inv srt files c' \<and>
        (if cache_full path c then r = None \<and> c' = c
         else \<exists>info. parse_elf srt (files path) = Some info \<and> r = lookup_symbol (ei_symbols info) addr))"
proof (cases "cache_full path c")
  case True
  then show ?thesis using assms by (simp add: elf_resolve_def)
next
  case False
  show ?thesis
  proof (cases "ensure_loaded srt files path c")
    case None
    then have "parse_elf srt (files path) = None"
      using elf.load_computes [of srt files c path] assms by (simp add: elf_inv_def)
    then show ?thesis using False None by (simp add: elf_resolve_def)
  next
    case (Some x)
    then obtain info c' where "ensure_loaded srt files path c = Some (info, c')" by (cases x) auto
    with elf_inv_loaded [OF assms False this] False show ?thesis by (simp add: elf_resolve_def)
  qed
qed

section \<open>Lookups find the nearest symbol\<close>

lemma offset_less:
  fixes a s n :: u64
  assumes "a < s + n" "s \<le> a"
  shows "a - s < n"
proof -
  have "unat (s + n) \<le> unat s + unat n" by (simp add: unat_word_ariths)
  then show ?thesis using assms by (simp add: word_less_nat_alt word_le_nat_alt unat_sub)
qed

lemma parse_elf_sorted:
  assumes "std_sort srt" "parse_elf srt (Some f) = Some info"
  shows "sorted_wrt (\<lambda>x y. \<not> sym_addr y < sym_addr x) (ei_symbols info)"
    and "\<exists>syms. all_symbols (ef_sections f) = Some syms \<and> set (ei_symbols info) = set syms"
  using assms(2) std_sort.sort_ordered [OF assms(1) strict_weak_key, of sym_addr]
    std_sort.sort_set [OF assms(1) strict_weak_key, of sym_addr]
  by (auto simp: parse_elf_def split: option.splits)

text \<open>
  In the table of a parsed file a lookup returns the function symbol with the greatest start
  at or below the address, if the address is inside that symbol or less than 64 KiB past its
  start; it returns nothing only if no symbol starts within the 64 KiB below the address.
\<close>

lemma lookup_symbol_nearest:
  assumes "std_sort srt" "parse_elf srt (Some f) = Some info" "all_symbols (ef_sections f) = Some syms"
  shows "case lookup_symbol (ei_symbols info) addr of
      None \<Rightarrow> (\<forall>s \<in> set syms. \<not> (sym_addr s \<le> addr \<and> addr - sym_addr s < 0x10000))
    | Some s \<Rightarrow> s \<in> set syms \<and> sym_addr s \<le> addr \<and> addr - sym_addr s < max (sym_size s) 0x10000 \<and>
        (\<forall>t \<in> set syms. sym_addr t \<le> addr \<longrightarrow> sym_addr t \<le> sym_addr s)"
proof -
  let ?xs = "ei_symbols info" and ?u = "upper_bound (\<lambda>a s. a < sym_addr s) addr (ei_symbols info)"
  let ?s = "?xs ! (?u - 1)"
  have set: "set ?xs = set syms" using parse_elf_sorted(2) [OF assms(1,2)] assms(3) by simp
  note near = nearest_below [OF parse_elf_sorted(1) [OF assms(1,2)], where a = addr]
  have lookup: "lookup_symbol ?xs addr =
      (if ?u \<noteq> 0 \<and> ?xs \<noteq> [] \<and> (addr < sym_addr ?s + sym_size ?s \<or> addr - sym_addr ?s < 0x10000) then Some ?s else None)"
    using near(3) by (auto simp: lookup_symbol_def Let_def)
  show ?thesis
  proof (cases "?u = 0 \<or> ?xs = []")
    case True
    then have "\<forall>s \<in> set syms. addr < sym_addr s" using near(1) set by auto
    moreover have "lookup_symbol ?xs addr = None" using True lookup by auto
    ultimately show ?thesis by (auto simp: not_le)
  next
    case False
    then have s: "?s \<in> set syms" "sym_addr ?s \<le> addr"
      "\<forall>t \<in> set syms. sym_addr t \<le> addr \<longrightarrow> sym_addr t \<le> sym_addr ?s"
      using near(2-4) set by auto
    have size: "addr - sym_addr ?s < sym_size ?s" if "addr < sym_addr ?s + sym_size ?s"
      using that s(2) by (rule offset_less)
    have closer: "addr - sym_addr ?s \<le> addr - sym_addr t" if "sym_addr t \<le> sym_addr ?s" for t
      using that s(2) by (simp add: word_le_nat_alt unat_sub)
    show ?thesis
    proof (cases "addr < sym_addr ?s + sym_size ?s \<or> addr - sym_addr ?s < 0x10000")
      case True
      then show ?thesis using False lookup s size by (auto simp: less_max_iff_disj)
    next
      case far: False
      have "\<not> addr - sym_addr t < 0x10000" if "t \<in> set syms" "sym_addr t \<le> addr" for t
        using far closer [of t] that s(3) by (meson order.strict_trans1)
      then show ?thesis using far lookup by auto
    qed
  qed
qed

section \<open>The only trap\<close>

text \<open>A section whose symbols are read with an entry size of zero, by which its size is divided.\<close>

definition bad_section :: "ElfSection option \<Rightarrow> bool" where
  "bad_section scn \<longleftrightarrow> (case scn of
     None \<Rightarrow> False
   | Some s \<Rightarrow> (es_type s = SHT_SYMTAB \<or> es_type s = SHT_DYNSYM) \<and> es_data s \<noteq> None \<and> es_entsize s = 0)"

lemma section_symbols_trap: "section_symbols scn = None \<longleftrightarrow> bad_section scn"
  by (auto simp: section_symbols_def bad_section_def split: option.splits)

lemma all_symbols_trap: "all_symbols scns = None \<longleftrightarrow> list_ex bad_section scns"
  by (induction scns) (auto simp: section_symbols_trap bind_eq_None_conv simp flip: section_symbols_trap)

lemma parse_elf_trap:
  "parse_elf srt file = None \<longleftrightarrow> (case file of None \<Rightarrow> False | Some f \<Rightarrow> list_ex bad_section (ef_sections f))"
  by (auto simp: parse_elf_def simp flip: all_symbols_trap split: option.splits)

end
