(* ===== verification/Symbolizer.thy ===== *)
theory Symbolizer
  imports Proc_Maps Elf_Cache
begin

text \<open>
  The symbolizer (\<^verbatim>\<open>src/symbolization/symbolizer.cpp\<close>) and the stack formatter
  (\<^verbatim>\<open>stack_formatter.cpp\<close>): from raw addresses to frames, through the mappings of the process, the
  ELF cache and the kernel's symbol table. The files are read through an environment; the sorting
  functions stand for \<^verbatim>\<open>std::sort\<close> at the two element types. \<open>None\<close> is the trap of the ELF parser.
\<close>

section \<open>State\<close>

record ResolvedFrame =
  rf_addr :: u64
  rf_symbol :: string
  rf_binary :: string
  rf_offset :: u64
  rf_resolved :: bool

record KernelSymbol =
  ks_addr :: u64
  ks_name :: string

record Symbolizer =
  sy_elf_cache :: ElfCache
  sy_proc_cache :: "(u32, ProcMaps) umap"
  sy_kallsyms :: "KernelSymbol list"
  sy_kallsyms_loaded :: bool

record Files =
  fs_maps :: "u32 \<Rightarrow> string option"
  fs_elf :: "string \<Rightarrow> ElfFile option"
  fs_kallsyms :: "string option"
  fs_sort :: symbol_sorter
  fs_ksort :: "(KernelSymbol \<Rightarrow> KernelSymbol \<Rightarrow> bool) \<Rightarrow> KernelSymbol list \<Rightarrow> KernelSymbol list"

definition Symbolizer_init :: Symbolizer where
  "Symbolizer_init = \<lparr>sy_elf_cache = ElfCache_init 10000, sy_proc_cache = [], sy_kallsyms = [],
     sy_kallsyms_loaded = False\<rparr>"

section \<open>Operations\<close>

definition get_proc_maps :: "Files \<Rightarrow> u32 \<Rightarrow> Symbolizer \<Rightarrow> ProcMaps \<times> Symbolizer" where
  "get_proc_maps fs pid sy =
     (case map_of (sy_proc_cache sy) pid of
        None \<Rightarrow>
          let (_, pm) = maps_load (fs_maps fs pid) (ProcMaps_init pid)
          in (pm, sy\<lparr>sy_proc_cache := umap_upd pid (\<lambda>_. pm) pm (sy_proc_cache sy)\<rparr>)
      | Some pm \<Rightarrow> (pm, sy))"

definition kernel_symbol_of_line :: "string \<Rightarrow> KernelSymbol option" where
  "kernel_symbol_of_line line = do {
     (addr, s) \<leftarrow> scan_ulong 16 (c_str line);
     (type, s) \<leftarrow> scan_char (skip_ws s);
     (name, s) \<leftarrow> scan_word 255 s;
     if addr \<noteq> 0 \<and> (type = CHR ''T'' \<or> type = CHR ''t'') then Some \<lparr>ks_addr = addr, ks_name = name\<rparr> else None
   }"

definition load_kallsyms :: "Files \<Rightarrow> Symbolizer \<Rightarrow> Symbolizer" where
  "load_kallsyms fs sy =
     (if sy_kallsyms_loaded sy then sy
      else let sy = sy\<lparr>sy_kallsyms_loaded := True\<rparr> in
        (case fs_kallsyms fs of
           None \<Rightarrow> sy
         | Some text \<Rightarrow>
             let syms = sy_kallsyms sy @ List.map_filter kernel_symbol_of_line (getlines text)
             in sy\<lparr>sy_kallsyms := fs_ksort fs (\<lambda>a b. ks_addr a < ks_addr b) syms\<rparr>))"

text \<open>\<^verbatim>\<open>path::filename\<close>: the characters behind the last slash.\<close>

definition filename :: "string \<Rightarrow> string" where
  "filename path = rev (takeWhile (\<lambda>c. c \<noteq> CHR ''/'') (rev path))"

definition hex_addr :: "u64 \<Rightarrow> string" where
  "hex_addr a = ''0x'' @ hex_string (unat a)"

definition mk_frame :: "u64 \<Rightarrow> string \<Rightarrow> string \<Rightarrow> u64 \<Rightarrow> bool \<Rightarrow> ResolvedFrame" where
  "mk_frame addr symbol binary offset resolved =
     \<lparr>rf_addr = addr, rf_symbol = symbol, rf_binary = binary, rf_offset = offset, rf_resolved = resolved\<rparr>"

definition resolve_user :: "Files \<Rightarrow> u32 \<Rightarrow> u64 \<Rightarrow> Symbolizer \<Rightarrow> (ResolvedFrame \<times> Symbolizer) option" where
  "resolve_user fs pid addr sy =
     (if addr = 0 then Some (mk_frame 0 ''[unknown]'' [] 0 False, sy)
      else let (maps, sy) = get_proc_maps fs pid sy in
        (case maps_find maps addr of
           None \<Rightarrow> Some (mk_frame addr (hex_addr addr) [] 0 False, sy)
         | Some mapping \<Rightarrow> do {
             (info, ec) \<leftarrow> get_info (fs_sort fs) (fs_elf fs) (mm_pathname mapping) (sy_elf_cache sy);
             let elf_vaddr = (case info of
                   Some i \<Rightarrow> addr - mm_start mapping + mm_offset mapping + ei_load_base i
                 | None \<Rightarrow> addr - mm_start mapping + mm_offset mapping);
             (sym, ec) \<leftarrow> elf_resolve (fs_sort fs) (fs_elf fs) (mm_pathname mapping) elf_vaddr ec;
             let sy = sy\<lparr>sy_elf_cache := ec\<rparr>;
             case sym of
               Some s \<Rightarrow>
                 let off = elf_vaddr - sym_addr s
                 in Some (mk_frame addr (sym_name s) (filename (mm_pathname mapping)) off True, sy)
             | None \<Rightarrow>
                 Some (mk_frame addr (hex_addr elf_vaddr) (filename (mm_pathname mapping)) elf_vaddr False, sy)
           }))"

definition resolve_kernel :: "Files \<Rightarrow> u64 \<Rightarrow> Symbolizer \<Rightarrow> ResolvedFrame \<times> Symbolizer" where
  "resolve_kernel fs addr sy =
     (if addr = 0 then (mk_frame 0 ''[unknown]'' ''[kernel]'' 0 False, sy)
      else let sy = load_kallsyms fs sy in
        if sy_kallsyms sy = [] then (mk_frame addr (hex_addr addr) ''[kernel]'' 0 False, sy)
        else let i = upper_bound (\<lambda>a s. a < ks_addr s) addr (sy_kallsyms sy) in
          if i \<noteq> 0 then
            (let s = sy_kallsyms sy ! (i - 1); off = addr - ks_addr s
             in (mk_frame addr (ks_name s) ''[kernel]'' off True, sy))
          else (mk_frame addr (hex_addr addr) ''[kernel]'' 0 False, sy))"

fun resolve_stack ::
  "Files \<Rightarrow> u32 \<Rightarrow> u64 list \<Rightarrow> bool \<Rightarrow> Symbolizer \<Rightarrow> (ResolvedFrame list \<times> Symbolizer) option" where
  "resolve_stack fs pid [] is_kernel sy = Some ([], sy)"
| "resolve_stack fs pid (addr # addrs) is_kernel sy = do {
     (fr, sy) \<leftarrow> (if is_kernel then Some (resolve_kernel fs addr sy) else resolve_user fs pid addr sy);
     (frames, sy) \<leftarrow> resolve_stack fs pid addrs is_kernel sy;
     Some (fr # frames, sy)
   }"

definition clear_cache :: "Symbolizer \<Rightarrow> Symbolizer" where
  "clear_cache sy = sy\<lparr>sy_elf_cache := elf_clear (sy_elf_cache sy), sy_proc_cache := [], sy_kallsyms := [],
     sy_kallsyms_loaded := False\<rparr>"

section \<open>Formatting\<close>

definition format_frame :: "ResolvedFrame \<Rightarrow> nat \<Rightarrow> string" where
  "format_frame fr index =
     (if rf_resolved fr
      then ''  #'' @ to_string index @ '' '' @ rf_symbol fr @ '' ('' @ rf_binary fr @ ''+0x'' @
           hex_string (unat (rf_offset fr)) @ '')''
      else ''  #'' @ to_string index @ '' 0x'' @ hex_string (unat (rf_addr fr)))"

definition format_stack :: "ResolvedFrame list \<Rightarrow> string" where
  "format_stack frames =
     fold (\<lambda>i result. (result @ format_frame (frames ! i) i) @ [CHR 0x0A]) [0..<length frames] []"

end
