(* ===== verification/Export_Json.thy ===== *)
theory Export_Json
  imports Aggregator_Queries Event_Decoder
begin

text \<open>
  The JSON and OpenTelemetry exporters (\<^verbatim>\<open>src/export/json_export.cpp\<close>, \<^verbatim>\<open>otel_export.cpp\<close>). The JSON
  library is third-party code: its values are the documented ones (strings, unsigned numbers, arrays,
  objects built from key-value lists), and \<^verbatim>\<open>dump(2)\<close> is an argument, \<open>None\<close> when it throws on text that
  is not UTF-8. Objects keep the order of the source; the library sorts keys when it prints.
\<close>

section \<open>Documents\<close>

datatype json =
    JString string
  | JNumber nat
  | JArray "json list"
  | JObject "(string \<times> json) list"

definition process_object :: "ProcessStats \<Rightarrow> json" where
  "process_object ps = JObject [
     (''pid'', JNumber (unat (ps_pid ps))),
     (''comm'', JString (ps_comm ps)),
     (''total_syscall_ns'', JNumber (unat (ps_total_syscall_ns ps))),
     (''total_offcpu_ns'', JNumber (unat (ps_total_offcpu_ns ps))),
     (''max_latency_ns'', JNumber (unat (ps_max_latency_ns ps))),
     (''slow_event_count'', JNumber (unat (ps_slow_event_count ps))),
     (''p50_ns'', JNumber (unat (percentile 50 (ps_latency_hist ps)))),
     (''p95_ns'', JNumber (unat (percentile 95 (ps_latency_hist ps)))),
     (''p99_ns'', JNumber (unat (percentile 99 (ps_latency_hist ps))))]"

definition average_ns :: "SyscallStats \<Rightarrow> u64" where
  "average_ns sc = (if ss_count sc > 0 then ss_total_ns sc div ss_count sc else 0)"

definition syscall_object :: "SyscallStats \<Rightarrow> json" where
  "syscall_object sc =
     (let pids = JArray (map (\<lambda>p. JNumber (unat p)) (sorted_list_of_set (ss_affected_pids sc))) in
      JObject [
        (''syscall'', JString (syscall_name (ss_syscall_id sc))),
        (''syscall_id'', JNumber (unat (ss_syscall_id sc))),
        (''count'', JNumber (unat (ss_count sc))),
        (''total_ns'', JNumber (unat (ss_total_ns sc))),
        (''avg_ns'', JNumber (unat (average_ns sc))),
        (''max_ns'', JNumber (unat (ss_max_ns sc))),
        (''p95_ns'', JNumber (unat (percentile 95 (ss_latency_hist sc)))),
        (''affected_pids'', pids)])"

definition json_snapshot ::
  "(u32, ProcessStats) iteration \<Rightarrow> (u64, SyscallStats) iteration \<Rightarrow> Aggregator \<Rightarrow> json" where
  "json_snapshot iterp iters agg = JObject [
     (''version'', JString ''1.0.0''),
     (''format'', JString ''kscope-snapshot''),
     (''processes'', JArray (map (\<lambda>(pid, ps). process_object ps) (iterp (procs agg)))),
     (''syscalls'', JArray (map (\<lambda>(id, sc). syscall_object sc) (iters (syscalls agg)))),
     (''diagnostics'', JObject [(''total_events'', JNumber (unat (total_events agg)))])]"

definition export_json ::
  "(json \<Rightarrow> string option) \<Rightarrow> (u32, ProcessStats) iteration \<Rightarrow> (u64, SyscallStats) iteration \<Rightarrow> Aggregator \<Rightarrow> string option"
where
  "export_json dump iterp iters agg = dump (json_snapshot iterp iters agg)"

definition attribute :: "string \<Rightarrow> string \<Rightarrow> json \<Rightarrow> json" where
  "attribute key kind v = JObject [(''key'', JString key), (''value'', JObject [(kind, v)])]"

definition int_attribute :: "string \<Rightarrow> nat \<Rightarrow> json" where
  "int_attribute key n = attribute key ''intValue'' (JNumber n)"

definition resource_span :: "ProcessStats \<Rightarrow> json" where
  "resource_span ps = JObject [
     (''resource'', JObject [(''attributes'', JArray [
        attribute ''service.name'' ''stringValue'' (JString (ps_comm ps)),
        int_attribute ''service.instance.id'' (unat (ps_pid ps))])]),
     (''scopeSpans'', JArray [JObject [
        (''scope'', JObject [(''name'', JString ''kscope''), (''version'', JString ''1.0.0'')]),
        (''spans'', JArray [JObject [
           (''name'', JString ''process.latency_summary''),
           (''kind'', JString ''SPAN_KIND_INTERNAL''),
           (''attributes'', JArray [
              int_attribute ''kscope.total_syscall_ns'' (unat (ps_total_syscall_ns ps)),
              int_attribute ''kscope.total_offcpu_ns'' (unat (ps_total_offcpu_ns ps)),
              int_attribute ''kscope.max_latency_ns'' (unat (ps_max_latency_ns ps)),
              int_attribute ''kscope.event_count'' (unat (ps_slow_event_count ps)),
              int_attribute ''kscope.p95_ns'' (unat (percentile 95 (ps_latency_hist ps))),
              int_attribute ''kscope.p99_ns'' (unat (percentile 99 (ps_latency_hist ps)))])]])]])]"

definition otel_summary :: "(u32, ProcessStats) iteration \<Rightarrow> Aggregator \<Rightarrow> json" where
  "otel_summary iterp agg = JObject [
     (''schema_url'', JString ''https://opentelemetry.io/schemas/1.21.0''),
     (''resource_spans'', JArray (map (\<lambda>(pid, ps). resource_span ps) (iterp (procs agg))))]"

definition export_otel ::
  "(json \<Rightarrow> string option) \<Rightarrow> (u32, ProcessStats) iteration \<Rightarrow> Aggregator \<Rightarrow> string option" where
  "export_otel dump iterp agg = dump (otel_summary iterp agg)"

section \<open>Types of the documents\<close>

text \<open>Numbers carry their width in bits; objects have exactly the given fields.\<close>

datatype jtype =
    TString
  | TNumber nat
  | TArray jtype
  | TObject "(string \<times> jtype) list"

fun conforms :: "jtype \<Rightarrow> json \<Rightarrow> bool"
  and conforms_fields :: "(string \<times> jtype) list \<Rightarrow> (string \<times> json) list \<Rightarrow> bool" where
  "conforms TString j = (case j of JString _ \<Rightarrow> True | _ \<Rightarrow> False)"
| "conforms (TNumber w) j = (case j of JNumber n \<Rightarrow> n < 2 ^ w | _ \<Rightarrow> False)"
| "conforms (TArray t) j = (case j of JArray js \<Rightarrow> list_all (conforms t) js | _ \<Rightarrow> False)"
| "conforms (TObject fs) j = (case j of JObject kvs \<Rightarrow> conforms_fields fs kvs | _ \<Rightarrow> False)"
| "conforms_fields [] kvs = (kvs = [])"
| "conforms_fields ((k, t) # fs) kvs =
     (case kvs of [] \<Rightarrow> False | (k', v) # kvs' \<Rightarrow> k = k' \<and> conforms t v \<and> conforms_fields fs kvs')"

definition process_type :: jtype where
  "process_type = TObject [(''pid'', TNumber 32), (''comm'', TString), (''total_syscall_ns'', TNumber 64),
     (''total_offcpu_ns'', TNumber 64), (''max_latency_ns'', TNumber 64), (''slow_event_count'', TNumber 32),
     (''p50_ns'', TNumber 64), (''p95_ns'', TNumber 64), (''p99_ns'', TNumber 64)]"

definition syscall_type :: jtype where
  "syscall_type = TObject [(''syscall'', TString), (''syscall_id'', TNumber 64), (''count'', TNumber 64),
     (''total_ns'', TNumber 64), (''avg_ns'', TNumber 64), (''max_ns'', TNumber 64), (''p95_ns'', TNumber 64),
     (''affected_pids'', TArray (TNumber 32))]"

definition snapshot_type :: jtype where
  "snapshot_type = TObject [(''version'', TString), (''format'', TString), (''processes'', TArray process_type),
     (''syscalls'', TArray syscall_type), (''diagnostics'', TObject [(''total_events'', TNumber 64)])]"

lemma unat_widths: "unat (x :: u32) < 2 ^ 32" "unat (y :: u64) < 2 ^ 64"
  using unsigned_less [of x, where ?'a = nat] unsigned_less [of y, where ?'a = nat] by simp_all

lemma conforms_process: "conforms process_type (process_object ps)"
  by (simp add: process_type_def process_object_def unat_widths [simplified])

lemma conforms_syscall: "conforms syscall_type (syscall_object sc)"
  by (simp add: syscall_type_def syscall_object_def Let_def list_all_iff unat_widths [simplified])

lemma conforms_snapshot: "conforms snapshot_type (json_snapshot iterp iters agg)"
  by (simp add: snapshot_type_def json_snapshot_def list_all_iff conforms_process conforms_syscall
      unat_widths [simplified] case_prod_beta)

text \<open>The attributes of a span, by key.\<close>

fun json_field :: "string \<Rightarrow> json \<Rightarrow> json option" where
  "json_field k (JObject kvs) = map_of kvs k"
| "json_field k _ = None"

lemma process_object_pid: "json_field ''pid'' (process_object ps) = Some (JNumber (unat (ps_pid ps)))"
  by (simp add: process_object_def)



end
