(* ===== verification/Export_Prometheus.thy ===== *)
theory Export_Prometheus
  imports Aggregator Event_Decoder Util_Time Scan
begin

text \<open>
  The Prometheus exporter (\<^verbatim>\<open>src/export/prometheus_export.cpp\<close>) and a reader of the text exposition
  format: every sample line the exporter writes is read back with the labels and the value it was
  written for, whatever characters the process names contain. The iteration orders of the two hash
  maps are arguments.
\<close>

section \<open>The exporter\<close>

definition escape_char :: "char \<Rightarrow> string" where
  "escape_char c =
     (if c = CHR 0x5C then [CHR 0x5C, CHR 0x5C]
      else if c = CHR 0x22 then [CHR 0x5C, CHR 0x22]
      else if c = CHR 0x0A then [CHR 0x5C, CHR ''n'']
      else [c])"

definition escape_label :: "string \<Rightarrow> string" where
  "escape_label s = fold (\<lambda>c out. out @ escape_char c) s []"

definition seconds :: "u64 \<Rightarrow> string" where
  "seconds ns = fixed_string 9 (dbl (dbl (of_nat (unat ns)) / 1000000000))"

definition process_sample :: "string \<Rightarrow> (ProcessStats \<Rightarrow> string) \<Rightarrow> ProcessStats \<Rightarrow> string" where
  "process_sample name val ps =
     name @ ''{pid='' @ [CHR 0x22] @ to_string (unat (ps_pid ps)) @ [CHR 0x22] @ '',comm='' @ [CHR 0x22] @
     escape_label (ps_comm ps) @ [CHR 0x22] @ ''} '' @ val ps @ [CHR 0x0A]"

definition syscall_sample :: "string \<Rightarrow> (SyscallStats \<Rightarrow> string) \<Rightarrow> SyscallStats \<Rightarrow> string" where
  "syscall_sample name val sc =
     name @ ''{syscall='' @ [CHR 0x22] @ syscall_name (ss_syscall_id sc) @ [CHR 0x22] @ ''} '' @ val sc @ [CHR 0x0A]"

definition metric :: "string \<Rightarrow> string \<Rightarrow> string \<Rightarrow> string list \<Rightarrow> string" where
  "metric name help kind samples =
     ''# HELP '' @ name @ '' '' @ help @ [CHR 0x0A] @ ''# TYPE '' @ name @ '' '' @ kind @ [CHR 0x0A] @ concat samples"

definition export_prometheus ::
  "(u32, ProcessStats) iteration \<Rightarrow> (u64, SyscallStats) iteration \<Rightarrow> Aggregator \<Rightarrow> string" where
  "export_prometheus iterp iters agg =
     (let ps = map snd (iterp (procs agg)); scs = map snd (iters (syscalls agg)) in
      metric ''kscope_events_total'' ''Total slow events per process.'' ''counter''
        (map (process_sample ''kscope_events_total'' (\<lambda>p. to_string (unat (ps_slow_event_count p)))) ps) @
      metric ''kscope_syscall_seconds_total'' ''Total syscall latency per process.'' ''counter''
        (map (process_sample ''kscope_syscall_seconds_total'' (\<lambda>p. seconds (ps_total_syscall_ns p))) ps) @
      metric ''kscope_offcpu_seconds_total'' ''Total off-CPU time per process.'' ''counter''
        (map (process_sample ''kscope_offcpu_seconds_total'' (\<lambda>p. seconds (ps_total_offcpu_ns p))) ps) @
      metric ''kscope_max_latency_seconds'' ''Maximum single-event latency.'' ''gauge''
        (map (process_sample ''kscope_max_latency_seconds'' (\<lambda>p. seconds (ps_max_latency_ns p))) ps) @
      metric ''kscope_syscall_calls_total'' ''Syscall invocation count.'' ''counter''
        (map (syscall_sample ''kscope_syscall_calls_total'' (\<lambda>s. to_string (unat (ss_count s)))) scs) @
      metric ''kscope_syscall_duration_seconds_total'' ''Total time in syscall.'' ''counter''
        (map (syscall_sample ''kscope_syscall_duration_seconds_total'' (\<lambda>s. seconds (ss_total_ns s))) scs))"

section \<open>A reader of the format\<close>

text \<open>A quoted label value, from behind the opening quote; the rest of the line behind the closing one.\<close>

fun unquote :: "string \<Rightarrow> (string \<times> string) option" where
  "unquote [] = None"
| "unquote (c # s) =
     (if c = CHR 0x22 then Some ([], s)
      else if c = CHR 0x5C then
        (case s of
           [] \<Rightarrow> None
         | d # s' \<Rightarrow> map_option (\<lambda>(t, r). ((if d = CHR ''n'' then CHR 0x0A else d) # t, r)) (unquote s'))
      else map_option (\<lambda>(t, r). (c # t, r)) (unquote s))"

text \<open>Labels up to the closing brace; each takes characters, so the length of the line is fuel enough.\<close>

fun read_labels :: "nat \<Rightarrow> string \<Rightarrow> ((string \<times> string) list \<times> string) option" where
  "read_labels 0 s = None"
| "read_labels (Suc n) s =
     (let key = takeWhile (\<lambda>c. c \<noteq> CHR ''='') s in
      case drop (length key) s of
        e # q # r \<Rightarrow>
          if q \<noteq> CHR 0x22 then None
          else (case unquote r of
             None \<Rightarrow> None
           | Some (v, []) \<Rightarrow> None
           | Some (v, c # r') \<Rightarrow>
               if c = CHR ''}'' then Some ([(key, v)], r')
               else if c = CHR '','' then map_option (\<lambda>(ls, r). ((key, v) # ls, r)) (read_labels n r')
               else None)
      | _ \<Rightarrow> None)"

definition read_sample :: "string \<Rightarrow> (string \<times> (string \<times> string) list \<times> string) option" where
  "read_sample line =
     (let name = takeWhile (\<lambda>c. c \<noteq> CHR ''{'') line in
      case read_labels (length line) (drop (Suc (length name)) line) of
        Some (ls, c # v) \<Rightarrow> if c = CHR '' '' then Some (name, ls, v) else None
      | _ \<Rightarrow> None)"

text \<open>All samples of a text, comment lines left out.\<close>

definition read_exposition :: "string \<Rightarrow> (string \<times> (string \<times> string) list \<times> string) option list" where
  "read_exposition text = map read_sample (filter (\<lambda>l. take 1 l \<noteq> ''#'') (getlines text))"

lemma escape_label_concat: "escape_label s = concat (map escape_char s)"
proof -
  have "fold (\<lambda>c out. out @ escape_char c) s r = r @ concat (map escape_char s)" for r
    by (induction s arbitrary: r) simp_all
  then show ?thesis by (simp add: escape_label_def)
qed

lemma unquote_escape: "unquote (escape_label s @ CHR 0x22 # r) = Some (s, r)"
  unfolding escape_label_concat by (induction s) (simp_all add: escape_char_def)

lemma unquote_plain:
  "CHR 0x22 \<notin> set s \<Longrightarrow> CHR 0x5C \<notin> set s \<Longrightarrow> unquote (s @ CHR 0x22 # r) = Some (s, r)"
  by (induction s) auto

lemma escape_no_newline: "CHR 0x0A \<notin> set (escape_label s)"
  unfolding escape_label_concat by (induction s) (auto simp: escape_char_def)

section \<open>Syscall names\<close>

definition label_char :: "char \<Rightarrow> bool" where
  "label_char c \<longleftrightarrow> c \<noteq> CHR 0x22 \<and> c \<noteq> CHR 0x5C \<and> c \<noteq> CHR 0x0A"

lemma label_names:
  "list_all (list_all label_char) syscall_names_0" "list_all (list_all label_char) syscall_names_1"
  "list_all (list_all label_char) syscall_names_2" "list_all (list_all label_char) syscall_names_3"
  "list_all (list_all label_char) syscall_names_4" "list_all (list_all label_char) syscall_names_5"
  "list_all (list_all label_char) syscall_names_6" "list_all (list_all label_char) syscall_names_late"
  by (simp_all add: label_char_def syscall_names_0_def syscall_names_1_def syscall_names_2_def
      syscall_names_3_def syscall_names_4_def syscall_names_5_def syscall_names_6_def syscall_names_late_def)

lemma label_decimal: "list_all label_char (to_string n)"
  using to_string_decimal [of n] by (auto simp: list_all_iff is_decimal_def label_char_def)

lemma label_syscall_name: "list_all label_char (syscall_name i)"
proof (cases "unat i < length syscall_table \<and> syscall_table ! unat i \<noteq> None")
  case True
  then have "Some (the (syscall_table ! unat i)) \<in> set syscall_table"
    using nth_mem [of "unat i" syscall_table] by simp
  then have "the (syscall_table ! unat i) \<in> set syscall_names_early \<union> set syscall_names_late"
    unfolding syscall_table_def by auto
  moreover have "list_all (list_all label_char) syscall_names_early"
    using label_names by (simp add: syscall_names_early_def)
  ultimately show ?thesis using True label_names(8) by (auto simp: syscall_name_def list_all_iff)
next
  case False
  then have "syscall_name i = ''sys_'' @ to_string (unat i)" unfolding syscall_name_def by (rule if_not_P)
  then show ?thesis using label_decimal by (simp add: label_char_def)
qed

section \<open>Reading the export back\<close>

definition sample_name :: "string \<Rightarrow> bool" where
  "sample_name n \<longleftrightarrow> CHR ''{'' \<notin> set n \<and> CHR 0x0A \<notin> set n \<and> n \<noteq> [] \<and> hd n \<noteq> CHR ''#''"

lemma read_sample_name:
  assumes "sample_name n" "read_labels (length (n @ ''{'' @ rest)) rest = Some (ls, CHR '' '' # v)"
  shows "read_sample (n @ ''{'' @ rest) = Some (n, ls, v)"
proof -
  have "takeWhile (\<lambda>c. c \<noteq> CHR ''{'') (n @ CHR ''{'' # rest) = n"
    using assms(1) by (subst takeWhile_append2) (auto simp: sample_name_def)
  then show ?thesis using assms(2) by (simp add: read_sample_def Let_def del: read_labels.simps)
qed

abbreviation quoted :: "string \<Rightarrow> string" where
  "quoted s \<equiv> CHR 0x22 # s @ [CHR 0x22]"

definition process_line :: "string \<Rightarrow> (ProcessStats \<Rightarrow> string) \<Rightarrow> ProcessStats \<Rightarrow> string" where
  "process_line name val ps = name @ ''{pid='' @ quoted (to_string (unat (ps_pid ps))) @ '',comm='' @
     quoted (escape_label (ps_comm ps)) @ ''} '' @ val ps"

definition syscall_line :: "string \<Rightarrow> (SyscallStats \<Rightarrow> string) \<Rightarrow> SyscallStats \<Rightarrow> string" where
  "syscall_line name val sc = name @ ''{syscall='' @ quoted (syscall_name (ss_syscall_id sc)) @ ''} '' @ val sc"

lemma read_process_line:
  assumes "sample_name name"
  shows "read_sample (process_line name val ps) =
    Some (name, [(''pid'', to_string (unat (ps_pid ps))), (''comm'', ps_comm ps)], val ps)"
proof -
  let ?pid = "to_string (unat (ps_pid ps))"
  let ?tail = "'',comm='' @ quoted (escape_label (ps_comm ps)) @ ''} '' @ val ps"
  have pid: "unquote (?pid @ CHR 0x22 # r) = Some (?pid, r)" for r
    using label_decimal [of "unat (ps_pid ps)"] by (intro unquote_plain) (auto simp: list_all_iff label_char_def)
  have "read_labels (Suc (Suc n)) (''pid='' @ quoted ?pid @ ?tail) =
      Some ([(''pid'', ?pid), (''comm'', ps_comm ps)], '' '' @ val ps)" for n
    using pid unquote_escape [of "ps_comm ps"] by (simp add: Let_def)
  from this [of "length (name @ ''{pid='' @ quoted ?pid @ ?tail) - 2"]
  have "read_labels (length (name @ ''{'' @ ''pid='' @ quoted ?pid @ ?tail)) (''pid='' @ quoted ?pid @ ?tail) =
      Some ([(''pid'', ?pid), (''comm'', ps_comm ps)], CHR '' '' # val ps)"
    by simp
  from read_sample_name [OF assms this] show ?thesis by (simp add: process_line_def)
qed

lemma read_syscall_line:
  assumes "sample_name name"
  shows "read_sample (syscall_line name val sc) = Some (name, [(''syscall'', syscall_name (ss_syscall_id sc))], val sc)"
proof -
  let ?sc = "syscall_name (ss_syscall_id sc)"
  have "unquote (?sc @ CHR 0x22 # r) = Some (?sc, r)" for r
    using label_syscall_name [of "ss_syscall_id sc"] by (intro unquote_plain) (auto simp: list_all_iff label_char_def)
  then have "read_labels (Suc n) (''syscall='' @ quoted ?sc @ ''} '' @ val sc) = Some ([(''syscall'', ?sc)], '' '' @ val sc)" for n
    by (simp add: Let_def)
  from this [of "length (name @ ''{syscall='' @ quoted ?sc @ ''} '' @ val sc) - 1"]
  have "read_labels (length (name @ ''{'' @ ''syscall='' @ quoted ?sc @ ''} '' @ val sc))
      (''syscall='' @ quoted ?sc @ ''} '' @ val sc) = Some ([(''syscall'', ?sc)], CHR '' '' # val sc)"
    by simp
  from read_sample_name [OF assms this] show ?thesis by (simp add: syscall_line_def)
qed

lemma seconds_no_newline: "CHR 0x0A \<notin> set (seconds ns)"
  using label_decimal by (auto simp: seconds_def fixed_string_def zero_pad_def Let_def list_all_iff label_char_def)

lemma sample_lines_plain:
  assumes "sample_name name"
  shows "CHR 0x0A \<notin> set (val ps) \<Longrightarrow> CHR 0x0A \<notin> set (process_line name val ps)"
    and "CHR 0x0A \<notin> set (val' sc) \<Longrightarrow> CHR 0x0A \<notin> set (syscall_line name val' sc)"
  using assms label_decimal [of "unat (ps_pid ps)"] label_syscall_name [of "ss_syscall_id sc"] escape_no_newline [of "ps_comm ps"]
  by (auto simp: process_line_def syscall_line_def sample_name_def list_all_iff label_char_def)

lemma sample_lines_kept:
  assumes "sample_name name"
  shows "take 1 (process_line name val ps) \<noteq> ''#''" "take 1 (syscall_line name val' sc) \<noteq> ''#''"
  using assms by (cases name; auto simp: process_line_def syscall_line_def sample_name_def)+

text \<open>One metric: its lines, and what the reader keeps of them.\<close>

definition metric_lines :: "string \<Rightarrow> string \<Rightarrow> string \<Rightarrow> string list \<Rightarrow> string list" where
  "metric_lines name help kind ls = [''# HELP '' @ name @ '' '' @ help, ''# TYPE '' @ name @ '' '' @ kind] @ ls"

lemma metric_text:
  "metric name help kind (map (\<lambda>x. f x @ [CHR 0x0A]) xs) = concat (map (\<lambda>l. l @ [CHR 0x0A]) (metric_lines name help kind (map f xs)))"
  by (simp add: metric_def metric_lines_def comp_def)

lemma sample_text:
  "process_sample name val = (\<lambda>ps. process_line name val ps @ [CHR 0x0A])"
  "syscall_sample name val' = (\<lambda>sc. syscall_line name val' sc @ [CHR 0x0A])"
  by (simp_all add: fun_eq_iff process_sample_def process_line_def syscall_sample_def syscall_line_def)

lemma read_metric:
  assumes "sample_name name"
  shows "map read_sample (filter (\<lambda>l. take 1 l \<noteq> ''#'') (metric_lines name help kind (map (process_line name val) ps))) =
      map (\<lambda>p. Some (name, [(''pid'', to_string (unat (ps_pid p))), (''comm'', ps_comm p)], val p)) ps"
    and "map read_sample (filter (\<lambda>l. take 1 l \<noteq> ''#'') (metric_lines name help kind (map (syscall_line name val') scs))) =
      map (\<lambda>s. Some (name, [(''syscall'', syscall_name (ss_syscall_id s))], val' s)) scs"
proof -
  have "filter (\<lambda>l. take 1 l \<noteq> ''#'') (map (process_line name val) ps) = map (process_line name val) ps"
    "filter (\<lambda>l. take 1 l \<noteq> ''#'') (map (syscall_line name val') scs) = map (syscall_line name val') scs"
    using sample_lines_kept [OF assms] by (simp_all add: filter_id_conv)
  then show "map read_sample (filter (\<lambda>l. take 1 l \<noteq> ''#'') (metric_lines name help kind (map (process_line name val) ps))) =
      map (\<lambda>p. Some (name, [(''pid'', to_string (unat (ps_pid p))), (''comm'', ps_comm p)], val p)) ps"
    "map read_sample (filter (\<lambda>l. take 1 l \<noteq> ''#'') (metric_lines name help kind (map (syscall_line name val') scs))) =
      map (\<lambda>s. Some (name, [(''syscall'', syscall_name (ss_syscall_id s))], val' s)) scs"
    by (simp_all add: metric_lines_def read_process_line [OF assms] read_syscall_line [OF assms])
qed

lemma metric_lines_plain:
  assumes "sample_name name" "CHR 0x0A \<notin> set help" "CHR 0x0A \<notin> set kind"
  shows "\<forall>p. CHR 0x0A \<notin> set (val p) \<Longrightarrow>
      list_all (\<lambda>l. CHR 0x0A \<notin> set l) (metric_lines name help kind (map (process_line name val) ps))"
    and "\<forall>s. CHR 0x0A \<notin> set (val' s) \<Longrightarrow>
      list_all (\<lambda>l. CHR 0x0A \<notin> set l) (metric_lines name help kind (map (syscall_line name val') scs))"
  using assms sample_lines_plain [OF assms(1)]
  by (auto simp: metric_lines_def list_all_iff sample_name_def)

text \<open>
  C18: a reader of the exposition format gets from the export exactly one sample per metric and process, and
  per metric and syscall, in the order of the hash maps, with the pid, the process name, byte for byte
  whatever it contains, and the value that was formatted; a time in seconds reads back within 6 ns below
  two to the 53 nanoseconds (104 days), and within 10 us above.
\<close>

theorem export_prometheus_reads:
  "read_exposition (export_prometheus iterp iters agg) =
   (let ps = map snd (iterp (procs agg)); scs = map snd (iters (syscalls agg));
        plabels = (\<lambda>p. [(''pid'', to_string (unat (ps_pid p))), (''comm'', ps_comm p)]);
        slabels = (\<lambda>s. [(''syscall'', syscall_name (ss_syscall_id s))]) in
    map (\<lambda>p. Some (''kscope_events_total'', plabels p, to_string (unat (ps_slow_event_count p)))) ps @
    map (\<lambda>p. Some (''kscope_syscall_seconds_total'', plabels p, seconds (ps_total_syscall_ns p))) ps @
    map (\<lambda>p. Some (''kscope_offcpu_seconds_total'', plabels p, seconds (ps_total_offcpu_ns p))) ps @
    map (\<lambda>p. Some (''kscope_max_latency_seconds'', plabels p, seconds (ps_max_latency_ns p))) ps @
    map (\<lambda>s. Some (''kscope_syscall_calls_total'', slabels s, to_string (unat (ss_count s)))) scs @
    map (\<lambda>s. Some (''kscope_syscall_duration_seconds_total'', slabels s, seconds (ss_total_ns s))) scs) \<and>
   \<bar>fst (read_decimal (seconds ns)) * 1000000000 - of_nat (unat ns)\<bar> \<le> (if unat ns < 2 ^ 53 then 6 else 10000)"
proof
  have names: "sample_name ''kscope_events_total''" "sample_name ''kscope_syscall_seconds_total''"
    "sample_name ''kscope_offcpu_seconds_total''" "sample_name ''kscope_max_latency_seconds''"
    "sample_name ''kscope_syscall_calls_total''" "sample_name ''kscope_syscall_duration_seconds_total''"
    by (simp_all add: sample_name_def)
  note plain = names [THEN metric_lines_plain(1)] names [THEN metric_lines_plain(2)]
  have num: "CHR 0x0A \<notin> set (to_string n)" for n
    using label_decimal [of n] by (auto simp: list_all_iff label_char_def)
  have lines: "getlines (concat (map (\<lambda>l. l @ [CHR 0x0A]) ls)) = ls" if "list_all (\<lambda>l. CHR 0x0A \<notin> set l) ls" for ls
    using getlines_concat [of ls "\<lambda>l. l"] that by (simp add: list_all_iff)
  show "read_exposition (export_prometheus iterp iters agg) = (let ps = map snd (iterp (procs agg)); scs = map snd (iters (syscalls agg));
        plabels = (\<lambda>p. [(''pid'', to_string (unat (ps_pid p))), (''comm'', ps_comm p)]);
        slabels = (\<lambda>s. [(''syscall'', syscall_name (ss_syscall_id s))]) in
    map (\<lambda>p. Some (''kscope_events_total'', plabels p, to_string (unat (ps_slow_event_count p)))) ps @
    map (\<lambda>p. Some (''kscope_syscall_seconds_total'', plabels p, seconds (ps_total_syscall_ns p))) ps @
    map (\<lambda>p. Some (''kscope_offcpu_seconds_total'', plabels p, seconds (ps_total_offcpu_ns p))) ps @
    map (\<lambda>p. Some (''kscope_max_latency_seconds'', plabels p, seconds (ps_max_latency_ns p))) ps @
    map (\<lambda>s. Some (''kscope_syscall_calls_total'', slabels s, to_string (unat (ss_count s)))) scs @
    map (\<lambda>s. Some (''kscope_syscall_duration_seconds_total'', slabels s, seconds (ss_total_ns s))) scs)"
    unfolding export_prometheus_def read_exposition_def Let_def sample_text metric_text
      concat_append [symmetric] map_append [symmetric]
    by (subst lines, simp add: plain num seconds_no_newline del: map_map)
      (simp only: filter_append map_append read_metric [OF names(1)] read_metric [OF names(2)] read_metric [OF names(3)]
        read_metric [OF names(4)] read_metric [OF names(5)] read_metric [OF names(6)])
next
  have n: "unat ns < 2 ^ 64" using unsigned_less [of ns, where ?'a = nat] by simp
  show "\<bar>fst (read_decimal (seconds ns)) * 1000000000 - of_nat (unat ns)\<bar> \<le> (if unat ns < 2 ^ 53 then 6 else 10000)"
  proof (cases "unat ns < 2 ^ 53")
    case True
    then show ?thesis
      using scaled_error [of "unat ns" 53 1000000000 25 9] read_fixed_string [of 9 "dbl (dbl (of_nat (unat ns)) / 1000000000)" "[]"]
      by (simp add: seconds_def)
  next
    case False
    then show ?thesis
      using n scaled_error [of "unat ns" 64 1000000000 36 9] read_fixed_string [of 9 "dbl (dbl (of_nat (unat ns)) / 1000000000)" "[]"]
      by (simp add: seconds_def)
  qed
qed

end
