(* ===== verification/Pidns.thy ===== *)
theory Pidns
  imports Proc_Maps
begin

text \<open>
  PID namespace translation (\<^verbatim>\<open>src/util/pidns.cpp\<close>) over the texts of the status files and the
  entries of \<^verbatim>\<open>/proc\<close>. \<^verbatim>\<open>%u\<close> reads an unsigned long and stores its low 32 bits.
\<close>

definition scan_uint :: "nat \<Rightarrow> string \<Rightarrow> (u32 \<times> string) option" where
  "scan_uint b s = map_option (\<lambda>(v, r). (ucast v, r)) (scan_ulong b s)"

fun nstgid_lines :: "string list \<Rightarrow> u32 option" where
  "nstgid_lines [] = None"
| "nstgid_lines (line # lines) =
     (if take 7 line = ''NStgid:'' then
        (case scan_uint 10 (c_str (drop 7 line)) of
           Some (first_pid, _) \<Rightarrow> Some first_pid
         | None \<Rightarrow> nstgid_lines lines)
      else nstgid_lines lines)"

definition parse_nstgid :: "(u32 \<Rightarrow> string option) \<Rightarrow> u32 \<Rightarrow> u32 option" where
  "parse_nstgid status pid = (case status pid of None \<Rightarrow> None | Some text \<Rightarrow> nstgid_lines (getlines text))"

definition to_kernel_pid :: "(u32 \<Rightarrow> string option) \<Rightarrow> u32 \<Rightarrow> u32" where
  "to_kernel_pid status ns_pid =
     (case parse_nstgid status ns_pid of
        Some kpid \<Rightarrow> if kpid \<noteq> ns_pid then kpid else ns_pid
      | None \<Rightarrow> ns_pid)"

text \<open>The entries of \<^verbatim>\<open>/proc\<close> in any order: whether it is a directory, and its name.\<close>

fun find_ns_pid :: "(u32 \<Rightarrow> string option) \<Rightarrow> u32 \<Rightarrow> (bool \<times> string) list \<Rightarrow> u32" where
  "find_ns_pid status kernel_pid [] = 0"
| "find_ns_pid status kernel_pid ((is_dir, name) # entries) =
     (if \<not> is_dir then find_ns_pid status kernel_pid entries
      else (case scan_uint 10 (c_str name) of
        None \<Rightarrow> find_ns_pid status kernel_pid entries
      | Some (pid, _) \<Rightarrow>
          if parse_nstgid status pid = Some kernel_pid then pid
          else find_ns_pid status kernel_pid entries))"

definition to_ns_pid ::
  "(u32 \<Rightarrow> bool) \<Rightarrow> (u32 \<Rightarrow> string option) \<Rightarrow> (bool \<times> string) list \<Rightarrow> u32 \<Rightarrow> u32" where
  "to_ns_pid maps_exists status entries kernel_pid =
     (if maps_exists kernel_pid then kernel_pid else find_ns_pid status kernel_pid entries)"

text \<open>The number of identifiers on the line.\<close>

function count_ids :: "string \<Rightarrow> nat" where
  "count_ids s =
     (let r = dropWhile (\<lambda>c. c = CHR '' '' \<or> c = CHR 0x09) s in
      case r of
        [] \<Rightarrow> 0
      | c # _ \<Rightarrow> if is_digit 10 c then Suc (count_ids (dropWhile (is_digit 10) r)) else 0)"
  by pat_completeness auto
termination
proof (relation "measure length", goal_cases)
  case (2 s r c cs)
  have "length (dropWhile (is_digit 10) (c # cs)) < length (c # cs)"
    using 2(3) by (simp add: length_dropWhile_le le_imp_less_Suc)
  moreover have "length r \<le> length s" using 2(1) by (simp add: length_dropWhile_le)
  ultimately show ?case using 2(2) by simp
qed simp

declare count_ids.simps [simp del]

fun namespace_lines :: "string list \<Rightarrow> bool" where
  "namespace_lines [] = False"
| "namespace_lines (line # lines) =
     (if take 7 line = ''NStgid:'' then 1 < count_ids (c_str (drop 7 line)) else namespace_lines lines)"

definition has_pid_namespace :: "string option \<Rightarrow> bool" where
  "has_pid_namespace self_status =
     (case self_status of None \<Rightarrow> False | Some text \<Rightarrow> namespace_lines (getlines text))"

section \<open>Status files as the kernel prints them\<close>

text \<open>One line of thread group ids, the namespace of the mount first, among other lines.\<close>

definition nstgid_line :: "u32 list \<Rightarrow> string" where
  "nstgid_line ids = ''NStgid:'' @ concat (map (\<lambda>i. CHR 0x09 # to_string (unat i)) ids)"

definition status_text :: "string list \<Rightarrow> u32 list \<Rightarrow> string list \<Rightarrow> string" where
  "status_text before ids after = concat (map (\<lambda>l. l @ [CHR 0x0A]) (before @ [nstgid_line ids] @ after))"

definition other_line :: "string \<Rightarrow> bool" where
  "other_line l \<longleftrightarrow> CHR 0x0A \<notin> set l \<and> take 7 l \<noteq> ''NStgid:''"

definition ids_text :: "u32 list \<Rightarrow> string" where
  "ids_text ids = concat (map (\<lambda>i. CHR 0x09 # to_string (unat i)) ids)"

lemma plain_ids_text: "list_all plain_char (ids_text ids)"
proof -
  have "plain_char c" if "c \<in> set (to_string n)" for c n
    using plain_base_string [of 10 n] that by (auto simp: to_string_def list_all_iff)
  then show ?thesis by (auto simp: ids_text_def list_all_iff plain_char_def)
qed

lemma ends_ids: "ends_number 10 (ids_text ids)"
  by (cases ids) (simp_all add: ids_text_def ends_number_def is_digit_def scan_digit_def)

lemma ucast_u32 [simp]: "ucast (ucast (i :: u32) :: u64) = i"
  by (rule bit_word_eqI) (auto simp: bit_simps)

lemma scan_ids: "scan_uint 10 (ids_text (i # ids)) = Some (i, ids_text ids)"
proof -
  have "unat i < 2 ^ 32" using unsigned_less [of i, where ?'a = nat] by simp
  then have "unat i < 2 ^ 64" by simp
  then have "scan_ulong 10 ([CHR 0x09] @ replicate 0 (CHR ''0'') @ base_string 10 (unat i) @ ids_text ids) = Some (of_nat (unat i), ids_text ids)"
    using scan_ulong_string [of 10 "[CHR 0x09]" "ids_text ids" "unat i" 0] ends_ids by (simp add: is_space_def)
  then show ?thesis by (simp add: scan_uint_def ids_text_def to_string_def)
qed

lemma count_ids_text: "count_ids (ids_text ids) = length ids"
proof (induction ids)
  case Nil
  then show ?case by (simp add: ids_text_def count_ids.simps)
next
  case (Cons i ids)
  let ?s = "to_string (unat i)"
  have digits: "list_all (is_digit 10) ?s" by (simp add: to_string_def base_string_digits)
  obtain c cs where s: "?s = c # cs" using base_string_nonempty [of 10 "unat i"] by (cases ?s) (auto simp: to_string_def)
  then have c: "is_digit 10 c" using digits by simp
  then have blank: "c \<noteq> CHR '' ''" "c \<noteq> CHR 0x09" using digit_not_space [OF c] by (auto simp: is_space_def)
  have "dropWhile (is_digit 10) (?s @ ids_text ids) = ids_text ids"
    using digits by (cases ids) (auto simp: list_all_iff dropWhile_append ids_text_def is_digit_def scan_digit_def)
  moreover have "ids_text (i # ids) = CHR 0x09 # ?s @ ids_text ids" by (simp add: ids_text_def)
  ultimately show ?case using Cons.IH s c blank by (subst count_ids.simps) simp
qed

lemma status_lines:
  assumes "list_all other_line before" "list_all other_line after"
  shows "getlines (status_text before ids after) = before @ [nstgid_line ids] @ after"
proof -
  have "CHR 0x0A \<notin> set l" if "l \<in> set (before @ [nstgid_line ids] @ after)" for l
    using that assms plain_ids_text [of ids]
    by (auto simp: other_line_def list_all_iff nstgid_line_def ids_text_def [symmetric] plain_char_def)
  then show ?thesis
    unfolding status_text_def using getlines_concat [of "before @ [nstgid_line ids] @ after" "\<lambda>l. l"] by simp
qed

lemma nstgid_ids: "take 7 (nstgid_line ids) = ''NStgid:''" "c_str (drop 7 (nstgid_line ids)) = ids_text ids"
  using c_str_plain [OF plain_ids_text [of ids]] by (simp_all add: nstgid_line_def ids_text_def)

lemma nstgid_status:
  assumes "list_all other_line before" "list_all other_line after"
  shows "nstgid_lines (getlines (status_text before (i # ids) after)) = Some i"
    and "namespace_lines (getlines (status_text before (i # ids) after)) \<longleftrightarrow> ids \<noteq> []"
proof -
  have "nstgid_lines (before @ [nstgid_line (i # ids)] @ after) = Some i"
    using assms(1) by (induction before) (simp_all add: other_line_def nstgid_ids scan_ids)
  moreover have "namespace_lines (before @ [nstgid_line (i # ids)] @ after) \<longleftrightarrow> ids \<noteq> []"
    using assms(1) by (induction before) (auto simp: other_line_def nstgid_ids count_ids_text)
  ultimately show "nstgid_lines (getlines (status_text before (i # ids) after)) = Some i"
    "namespace_lines (getlines (status_text before (i # ids) after)) \<longleftrightarrow> ids \<noteq> []"
    by (simp_all only: status_lines [OF assms])
qed

text \<open>
  The status files of a procfs mount: for each id that has a directory there, the thread group the task
  belongs to, numbered in the namespace of the mount, and the ids of that thread group in the namespaces
  nested below, the innermost last. The kernel prints these ids in this order in the line \<^verbatim>\<open>NStgid\<close> (so the leftmost
  is the one in the namespace of the mount, not the one in the initial namespace), among other lines.
\<close>

type_synonym procfs = "u32 \<Rightarrow> (string list \<times> u32 \<times> u32 list \<times> string list) option"

definition proc_status :: "procfs \<Rightarrow> u32 \<Rightarrow> string option" where
  "proc_status procs pid = map_option (\<lambda>(before, tgid, nested, after). status_text before (tgid # nested) after) (procs pid)"

definition procs_wf :: "procfs \<Rightarrow> bool" where
  "procs_wf procs \<longleftrightarrow> (\<forall>pid before tgid nested after. procs pid = Some (before, tgid, nested, after) \<longrightarrow>
     list_all other_line before \<and> list_all other_line after)"

definition thread_group :: "procfs \<Rightarrow> u32 \<Rightarrow> u32 option" where
  "thread_group procs pid = map_option (\<lambda>(before, tgid, nested, after). tgid) (procs pid)"

lemma parse_nstgid_proc:
  assumes "procs_wf procs"
  shows "parse_nstgid (proc_status procs) pid = thread_group procs pid"
proof (cases "procs pid")
  case (Some x)
  obtain before tgid nested after where x: "x = (before, tgid, nested, after)" by (cases x) auto
  then have "list_all other_line before" "list_all other_line after"
    using assms Some unfolding procs_wf_def by auto
  then show ?thesis
    using nstgid_status(1) Some x by (simp add: parse_nstgid_def proc_status_def thread_group_def)
qed (simp add: parse_nstgid_def proc_status_def thread_group_def)

lemma scan_pid_name: "scan_uint 10 (c_str (to_string (unat (pid :: u32)))) = Some (pid, [])"
proof -
  have "unat pid < 2 ^ 64" using unsigned_less [of pid, where ?'a = nat] by simp
  then have "scan_ulong 10 (to_string (unat pid)) = Some (of_nat (unat pid), [])"
    using scan_ulong_string [of 10 "[]" "[]" "unat pid" 0] by (simp add: to_string_def ends_number_def)
  moreover have "c_str (to_string (unat pid)) = to_string (unat pid)"
    by (rule c_str_plain) (simp add: to_string_def plain_base_string)
  ultimately show ?thesis by (simp add: scan_uint_def)
qed

text \<open>The directories that listing the mount shows are those of the processes, not of their other threads.\<close>

definition lists_processes :: "procfs \<Rightarrow> u32 list \<Rightarrow> bool" where
  "lists_processes procs ps \<longleftrightarrow> (\<forall>p \<in> set ps. thread_group procs p = None \<or> thread_group procs p = Some p)"

lemma find_ns_pid_spec:
  assumes "procs_wf procs" "lists_processes procs ps"
  shows "find_ns_pid (proc_status procs) k (map (\<lambda>p. (True, to_string (unat p))) ps) =
    (if k \<in> set ps \<and> thread_group procs k = Some k then k else 0)"
  using assms(2) by (induction ps) (auto simp: scan_pid_name parse_nstgid_proc [OF assms(1)] lists_processes_def)



end
