(* ===== verification/Doctor.thy ===== *)
theory Doctor
  imports Pidns
begin

text \<open>
  The doctor command (\<^verbatim>\<open>run_doctor\<close> and its checks, \<^verbatim>\<open>src/cli/commands.cpp\<close>): what it prints and its
  exit code, as a function of what the system calls return. \<^verbatim>\<open>uname\<close> is called twice.
\<close>

record utsname =
  uts_release :: string
  uts_machine :: string

record Host =
  host_uname :: "utsname option"
  host_uname_again :: "utsname option"
  host_btf :: bool
  host_root :: bool
  host_debug_tracing :: bool
  host_tracing :: bool

definition kVersion :: string where "kVersion = ''1.0.0-dev''"
definition kMinKernelMajor :: u32 where "kMinKernelMajor = 6"
definition kMinKernelMinor :: u32 where "kMinKernelMinor = 1"

text \<open>The symbols of the report, as UTF-8 bytes: check mark, cross, greater or equal, dash.\<close>

definition tick_mark :: string where "tick_mark = [CHR 0xE2, CHR 0x9C, CHR 0x93]"
definition cross_mark :: string where "cross_mark = [CHR 0xE2, CHR 0x9C, CHR 0x97]"
definition geq_sign :: string where "geq_sign = [CHR 0xE2, CHR 0x89, CHR 0xA5]"
definition em_dash :: string where "em_dash = [CHR 0xE2, CHR 0x80, CHR 0x94]"

text \<open>\<^verbatim>\<open>sscanf(release, "%u.%u", ...)\<close> with both numbers zero before.\<close>

definition scan_version :: "string \<Rightarrow> u32 \<times> u32" where
  "scan_version release =
     (case scan_uint 10 (c_str release) of
        None \<Rightarrow> (0, 0)
      | Some (major, s) \<Rightarrow>
          (case scan_lit (CHR ''.'') s of
             None \<Rightarrow> (major, 0)
           | Some s' \<Rightarrow> (case scan_uint 10 s' of None \<Rightarrow> (major, 0) | Some (minor, _) \<Rightarrow> (major, minor))))"

definition check_kernel_version :: "utsname option \<Rightarrow> bool \<times> string" where
  "check_kernel_version un =
     (case un of
        None \<Rightarrow> (False, ''  kernel version:  UNKNOWN (uname failed)'' @ newline)
      | Some info \<Rightarrow>
          let (major, minor) = scan_version (uts_release info);
              ok = (major > kMinKernelMajor \<or> major = kMinKernelMajor \<and> minor \<ge> kMinKernelMinor)
          in (ok, ''  kernel version:  '' @ c_str (uts_release info) @ '' '' @
                  (if ok then tick_mark else cross_mark @ '' (need '' @ geq_sign @ '' 6.1)'') @ newline))"

definition check_btf :: "bool \<Rightarrow> bool \<times> string" where
  "check_btf ok = (ok, ''  BTF available:   '' @ (if ok then ''yes '' @ tick_mark else ''no '' @ cross_mark) @ newline)"

definition check_bpf_access :: "bool \<Rightarrow> bool \<times> string" where
  "check_bpf_access root =
     (root, ''  running as root: '' @ (if root then ''yes '' @ tick_mark else ''no (may need CAP_BPF)'') @ newline)"

definition check_tracefs :: "bool \<Rightarrow> bool \<Rightarrow> bool \<times> string" where
  "check_tracefs debug_tracing tracing =
     (let ok = (debug_tracing \<or> tracing) in
      (ok, ''  tracefs:         '' @ (if ok then ''available '' @ tick_mark else ''not found '' @ cross_mark) @ newline))"

definition architecture_line :: "utsname option \<Rightarrow> string" where
  "architecture_line un =
     (case un of
        None \<Rightarrow> []
      | Some info \<Rightarrow>
          let x86 = (c_str (uts_machine info) = ''x86_64''); arm = (c_str (uts_machine info) = ''aarch64'') in
          ''  architecture:    '' @ c_str (uts_machine info) @ '' '' @
          (if x86 \<or> arm then tick_mark else ''(untested)'') @ newline)"

definition run_doctor :: "Host \<Rightarrow> int \<times> string" where
  "run_doctor h =
     (let head = ''KernelScope v'' @ kVersion @ '' '' @ em_dash @ '' System Compatibility Check'' @ newline @ newline;
          (ok1, t1) = check_kernel_version (host_uname h);
          issues = (if \<not> ok1 then 1 else 0 :: nat);
          (ok2, t2) = check_btf (host_btf h);
          issues = (if \<not> ok2 then issues + 1 else issues);
          (ok3, t3) = check_bpf_access (host_root h);
          issues = (if \<not> ok3 then issues + 1 else issues);
          (ok4, t4) = check_tracefs (host_debug_tracing h) (host_tracing h);
          issues = (if \<not> ok4 then issues + 1 else issues);
          out = head @ t1 @ t2 @ t3 @ t4 @ architecture_line (host_uname_again h) @ newline
      in if issues = 0 then (0, out @ ''All checks passed. Ready to profile.'' @ newline)
         else (1, out @ to_string issues @ '' issue(s) found. Some features may not work.'' @ newline))"

section \<open>The verdict\<close>

lemma scan_uint_string:
  assumes "ends_number 10 rest"
  shows "scan_uint 10 (to_string (unat (n :: u32)) @ rest) = Some (n, rest)"
proof -
  have "unat n < 2 ^ 64" using unsigned_less [of n, where ?'a = nat] by simp
  then have "scan_ulong 10 (to_string (unat n) @ rest) = Some (of_nat (unat n), rest)"
    using scan_ulong_string [of 10 "[]" rest "unat n" 0] assms by (simp add: to_string_def)
  then show ?thesis by (simp add: scan_uint_def)
qed

lemma scan_version_release:
  assumes "list_all plain_char rest" "ends_number 10 rest"
  shows "scan_version (to_string (unat major) @ ''.'' @ to_string (unat minor) @ rest) = (major, minor)"
proof -
  let ?r = "to_string (unat major) @ ''.'' @ to_string (unat minor) @ rest"
  have "list_all plain_char ?r"
    using assms(1) by (simp add: to_string_def plain_base_string plain_char_def)
  then have "c_str ?r = ?r" by (rule c_str_plain)
  moreover have "scan_uint 10 ?r = Some (major, ''.'' @ to_string (unat minor) @ rest)"
    by (rule scan_uint_string) (simp add: ends_number_def is_digit_def scan_digit_def)
  moreover have "scan_uint 10 (to_string (unat minor) @ rest) = Some (minor, rest)"
    using assms(2) by (rule scan_uint_string)
  ultimately show ?thesis by (simp add: scan_version_def)
qed

text \<open>
  C36: on a kernel whose release is any major and minor number followed by any text that does not continue
  the number, the doctor exits with 0 exactly if the version is at least 6.1, compared by number and not by
  text, and type information, root and a trace file system are there; with 1 otherwise; if the release
  cannot be read it exits with 1.
\<close>

theorem run_doctor_verdict:
  fixes major minor :: u32
  assumes "list_all plain_char rest" "ends_number 10 rest"
    and "host_uname h = Some \<lparr>uts_release = to_string (unat major) @ ''.'' @ to_string (unat minor) @ rest, uts_machine = arch\<rparr>"
  shows "fst (run_doctor h) =
      (if (6 < unat major \<or> unat major = 6 \<and> 1 \<le> unat minor) \<and> host_btf h \<and> host_root h \<and>
          (host_debug_tracing h \<or> host_tracing h) then 0 else 1) \<and>
    fst (run_doctor (h\<lparr>host_uname := None\<rparr>)) = 1"
proof -
  have "major > 6 \<longleftrightarrow> 6 < unat major" "major = 6 \<longleftrightarrow> unat major = 6" "minor \<ge> 1 \<longleftrightarrow> 1 \<le> unat minor"
    by (simp_all add: word_less_nat_alt word_le_nat_alt word_unat_eq_iff)
  then show ?thesis
    using scan_version_release [OF assms(1,2), of major minor] assms(3)
    by (simp add: run_doctor_def check_kernel_version_def check_btf_def check_bpf_access_def check_tracefs_def
        kMinKernelMajor_def kMinKernelMinor_def Let_def)
qed

definition modern_host :: Host where
  "modern_host = \<lparr>host_uname = Some \<lparr>uts_release = ''6.12.3-arch1'', uts_machine = ''x86_64''\<rparr>, host_uname_again = None,
     host_btf = True, host_root = True, host_debug_tracing = False, host_tracing = True\<rparr>"

theorem run_doctor_verdict_witness: "fst (run_doctor modern_host) = 0"
proof -
  have "list_all plain_char ''.3-arch1''" "ends_number 10 ''.3-arch1''"
    by (simp_all add: plain_char_def ends_number_def is_digit_def scan_digit_def)
  moreover have "to_string (unat (6 :: u32)) @ ''.'' @ to_string (unat (12 :: u32)) @ ''.3-arch1'' = ''6.12.3-arch1''"
    by code_simp
  ultimately show ?thesis
    using run_doctor_verdict [of "''.3-arch1''" modern_host 6 12 "''x86_64''"]
    by (simp add: modern_host_def)
qed

end
