(* ===== verification/Reports.thy ===== *)
theory Reports
  imports Logging Classifications Symbolizer Bpf_Loader Export_Json Export_Prometheus Doctor
begin

text \<open>
  What the commands print (\<^verbatim>\<open>src/cli/commands.cpp\<close>), byte for byte: the trace line, the tables of the top
  commands, the hot stacks with their resolved frames, the replay report and the exported document. Field
  widths count bytes, as \<^verbatim>\<open>printf\<close> does.
\<close>

section \<open>Unspecified orders\<close>

text \<open>What the C++ library leaves open: the sorters and the iteration orders of the four hash maps.\<close>

record Orders =
  or_psrt :: "ProcessStats sorter"
  or_piter :: "(u32, ProcessStats) iteration"
  or_tsrt :: "ThreadStats sorter"
  or_titer :: "(u64, ThreadStats) iteration"
  or_ssrt :: "SyscallStats sorter"
  or_siter :: "(u64, SyscallStats) iteration"
  or_ksrt :: "StackStats sorter"
  or_kiter :: "(i64, StackStats) iteration"

definition listed_orders :: Orders where
  "listed_orders = \<lparr>or_psrt = insertion_sort, or_piter = id, or_tsrt = insertion_sort, or_titer = id,
     or_ssrt = insertion_sort, or_siter = id, or_ksrt = insertion_sort, or_kiter = id\<rparr>"

section \<open>Fields\<close>

definition pad_left :: "nat \<Rightarrow> string \<Rightarrow> string" where
  "pad_left w s = replicate (w - length s) (CHR '' '') @ s"

definition pad_right :: "nat \<Rightarrow> string \<Rightarrow> string" where
  "pad_right w s = s @ replicate (w - length s) (CHR '' '')"

text \<open>A run of horizontal bars.\<close>

definition bars :: "nat \<Rightarrow> string" where
  "bars n = concat (replicate n [CHR 0xE2, CHR 0x94, CHR 0x80])"

definition clear_screen :: string where
  "clear_screen = escape_seq ''[2J'' @ escape_seq ''[H''"

definition title_line :: "string \<Rightarrow> string" where
  "title_line title =
     escape_seq ''[1m'' @ ''KernelScope '' @ em_dash @ '' '' @ title @ escape_seq ''[0m'' @ newline @ newline"

definition events_line :: "u64 \<Rightarrow> u64 \<Rightarrow> string" where
  "events_line recv lost =
     ''  [events: '' @ to_string (unat recv) @ '' received, '' @ to_string (unat lost) @ '' lost]'' @ newline"

section \<open>Trace\<close>

definition print_trace_event :: "Event \<Rightarrow> string" where
  "print_trace_event ev =
     ''['' @ format_timestamp_ns (ev_timestamp_ns ev) @ ''] pid='' @ pad_right 6 (to_string (unat (ev_pid ev))) @
     '' tid='' @ pad_right 6 (to_string (unat (ev_tid ev))) @ '' '' @ pad_right 16 (comm_str ev) @ '' '' @
     pad_right 12 (syscall_name (ev_syscall_id ev)) @ '' dur='' @ pad_right 12 (format_duration_ns (ev_duration_ns ev)) @
     '' class='' @ pad_right 16 (latency_class_name (ev_classification ev)) @
     (if has_user_stack ev then '' ustack='' @ int_string (sint (ev_user_stack_id ev)) else []) @
     (if has_kern_stack ev then '' kstack='' @ int_string (sint (ev_kern_stack_id ev)) else []) @ newline"

section \<open>Tables\<close>

definition process_columns :: "string \<Rightarrow> string \<Rightarrow> string \<Rightarrow> string \<Rightarrow> string \<Rightarrow> string \<Rightarrow> string \<Rightarrow> string" where
  "process_columns pid comm syscall offcpu mx nr p95 =
     ''  '' @ pad_right 8 pid @ '' '' @ pad_right 16 comm @ '' '' @ pad_left 12 syscall @ '' '' @ pad_left 12 offcpu @ '' '' @
     pad_left 12 mx @ '' '' @ pad_left 8 nr @ '' '' @ pad_left 12 p95 @ newline"

definition process_header :: string where
  "process_header =
     process_columns ''PID'' ''COMM'' ''SYSCALL'' ''OFFCPU'' ''MAX'' ''EVENTS'' ''P95'' @
     process_columns (bars 3) (bars 4) (bars 7) (bars 6) (bars 3) (bars 6) (bars 3)"

definition process_row :: "ProcessStats \<Rightarrow> string" where
  "process_row p = process_columns (to_string (unat (ps_pid p))) (take 16 (c_str (ps_comm p)))
     (format_duration_ns (ps_total_syscall_ns p)) (format_duration_ns (ps_total_offcpu_ns p))
     (format_duration_ns (ps_max_latency_ns p)) (to_string (unat (ps_slow_event_count p)))
     (format_duration_ns (percentile 95 (ps_latency_hist p)))"

definition print_process_table :: "string \<Rightarrow> ProcessStats list \<Rightarrow> u64 \<Rightarrow> u64 \<Rightarrow> string" where
  "print_process_table title ps recv lost =
     clear_screen @ title_line title @ process_header @ concat (map process_row ps) @ newline @ events_line recv lost"

definition syscall_columns :: "string \<Rightarrow> string \<Rightarrow> string \<Rightarrow> string \<Rightarrow> string \<Rightarrow> string \<Rightarrow> string \<Rightarrow> string" where
  "syscall_columns sc nr tot avg p95 mx pids =
     ''  '' @ pad_right 14 sc @ '' '' @ pad_left 10 nr @ '' '' @ pad_left 12 tot @ '' '' @ pad_left 12 avg @ '' '' @
     pad_left 12 p95 @ '' '' @ pad_left 12 mx @ '' '' @ pad_left 6 pids @ newline"

definition syscall_row :: "SyscallStats \<Rightarrow> string" where
  "syscall_row s = syscall_columns (syscall_name (ss_syscall_id s)) (to_string (unat (ss_count s)))
     (format_duration_ns (ss_total_ns s)) (format_duration_ns (average_ns s))
     (format_duration_ns (percentile 95 (ss_latency_hist s))) (format_duration_ns (ss_max_ns s))
     (to_string (card (ss_affected_pids s)))"

definition print_syscall_table :: "SyscallStats list \<Rightarrow> u64 \<Rightarrow> u64 \<Rightarrow> string" where
  "print_syscall_table scs recv lost =
     clear_screen @ title_line ''Top Syscalls by Latency'' @
     syscall_columns ''SYSCALL'' ''COUNT'' ''TOTAL'' ''AVG'' ''P95'' ''MAX'' ''PIDS'' @
     syscall_columns (bars 7) (bars 5) (bars 5) (bars 3) (bars 3) (bars 3) (bars 4) @
     concat (map syscall_row scs) @ newline @ events_line recv lost"

section \<open>Hot stacks\<close>

text \<open>\<open>fd\<close> and \<open>lookup\<close> are the stack map of the bridge. \<open>None\<close> is the trap of the ELF parser.\<close>

definition stack_heading :: "nat \<Rightarrow> StackStats \<Rightarrow> string" where
  "stack_heading i st =
     ''  #'' @ to_string (i + 1) @ ''  stack_id='' @ int_string (sint (st_stack_id st)) @ ''  pid='' @ to_string (unat (st_pid st)) @
     ''  total='' @ format_duration_ns (st_total_ns st) @ ''  count='' @ to_string (unat (st_count st)) @ ''  type='' @
     event_type_name (st_representative_type st) @ (if st_is_kernel st then '' [kernel]'' else []) @ newline"

definition stack_frames :: "ResolvedFrame list \<Rightarrow> string" where
  "stack_frames frames =
     concat (map (\<lambda>f. ''      '' @ format_frame (frames ! f) f @ newline) [0..<min (length frames) 8])"

fun hot_stack_blocks ::
  "Files \<Rightarrow> int \<Rightarrow> (u32 \<Rightarrow> u64 list option) \<Rightarrow> nat \<Rightarrow> StackStats list \<Rightarrow> Symbolizer \<Rightarrow> (string \<times> Symbolizer) option" where
  "hot_stack_blocks fs fd lookup i [] sy = Some ([], sy)"
| "hot_stack_blocks fs fd lookup i (st # sts) sy = do {
     let addrs = read_stack fd lookup (ucast (st_stack_id st));
     (frames, sy) \<leftarrow> resolve_stack fs (st_pid st) addrs (st_is_kernel st) sy;
     (rest, sy) \<leftarrow> hot_stack_blocks fs fd lookup (Suc i) sts sy;
     Some (stack_heading i st @ stack_frames frames @ newline @ rest, sy)
   }"

definition print_hot_stacks ::
  "Files \<Rightarrow> int \<Rightarrow> (u32 \<Rightarrow> u64 list option) \<Rightarrow> StackStats list \<Rightarrow> u64 \<Rightarrow> u64 \<Rightarrow> Symbolizer \<Rightarrow> (string \<times> Symbolizer) option"
where
  "print_hot_stacks fs fd lookup sts recv lost sy = do {
     (body, sy) \<leftarrow> hot_stack_blocks fs fd lookup 0 sts sy;
     Some (clear_screen @ title_line ''Hot Stacks'' @ body @ events_line recv lost, sy)
   }"

section \<open>Replay and export\<close>

definition replay_syscall_row :: "SyscallStats \<Rightarrow> string" where
  "replay_syscall_row s =
     ''    '' @ pad_right 14 (syscall_name (ss_syscall_id s)) @ '' count='' @ pad_right 8 (to_string (unat (ss_count s))) @
     '' total='' @ pad_right 12 (format_duration_ns (ss_total_ns s)) @ '' avg='' @
     pad_right 12 (format_duration_ns (average_ns s)) @ '' max='' @ format_duration_ns (ss_max_ns s) @ newline"

definition replay_report ::
  "(json \<Rightarrow> string option) \<Rightarrow> ProcessStats sorter \<Rightarrow> SyscallStats sorter \<Rightarrow> (u32, ProcessStats) iteration \<Rightarrow>
   (u64, SyscallStats) iteration \<Rightarrow> Config \<Rightarrow> u64 \<Rightarrow> Aggregator \<Rightarrow> string option"
where
  "replay_report dump psrt ssrt iterp iters cfg nr agg =
     (if cfg_json_output cfg then map_option (\<lambda>s. c_str s @ newline) (export_json dump iterp iters agg)
      else let ps = top_processes psrt iterp (unat (cfg_top_n cfg)) TotalLatency agg;
               scs = top_syscalls ssrt iters (unat (cfg_top_n cfg)) agg in
        Some (''KernelScope '' @ em_dash @ '' Replay: '' @ c_str (cfg_replay_file cfg) @ '' ('' @ to_string (unat nr) @
          '' events)'' @ newline @ newline @ process_header @ concat (map process_row ps) @ newline @ ''  Syscalls:'' @ newline @
          concat (map replay_syscall_row scs)))"

text \<open>What \<^verbatim>\<open>run_top\<close> prints when its loop has ended: nothing, or the snapshot.\<close>

definition top_json_output ::
  "(json \<Rightarrow> string option) \<Rightarrow> (u32, ProcessStats) iteration \<Rightarrow> (u64, SyscallStats) iteration \<Rightarrow> Config \<Rightarrow> Aggregator \<Rightarrow> string option"
where
  "top_json_output dump iterp iters cfg agg =
     (if cfg_json_output cfg then map_option (\<lambda>s. c_str s @ newline) (export_json dump iterp iters agg) else Some [])"

definition export_document ::
  "(json \<Rightarrow> string option) \<Rightarrow> (u32, ProcessStats) iteration \<Rightarrow> (u64, SyscallStats) iteration \<Rightarrow> Config \<Rightarrow> Aggregator \<Rightarrow> string option"
where
  "export_document dump iterp iters cfg agg =
     (if cfg_export_format cfg = ''otel'' then export_otel dump iterp agg
      else if cfg_export_format cfg = ''prometheus'' then Some (export_prometheus iterp iters agg)
      else export_json dump iterp iters agg)"

text \<open>Where it goes: standard output with a newline, or the content of the named file.\<close>

datatype destination = Stdout string | File string string

definition export_output :: "Config \<Rightarrow> string \<Rightarrow> destination" where
  "export_output cfg output =
     (if cfg_export_file cfg = [] then Stdout (c_str output @ newline) else File (cfg_export_file cfg) output)"

end
