(* ===== verification/Commands.thy ===== *)
theory Commands
  imports Log_Messages Ksr_Facts Reports
begin

text \<open>
  The commands (\<^verbatim>\<open>src/cli/commands.cpp\<close>): each is a function from what the environment supplies and the
  configuration to its exit code, the text on standard output, the calls of the logging functions and the
  file it writes. What the environment supplies to one turn of a polling loop is an \<open>Iteration\<close>: whether a
  signal has asked for shutdown, the records and the code of the poll, the readings of the monotonic clock,
  and the files and the stack map that a redraw of the hot stacks reads.
\<close>

record Iteration =
  it_shutdown :: bool
  it_recs :: "bytes list"
  it_err :: int
  it_now :: u64
  it_expiry_now :: u64
  it_files :: Files
  it_stacks :: "u32 \<Rightarrow> u64 list option"

text \<open>
  The environment of a run: libbpf and the ring buffer, the clock and the turns of the loop, the file system
  (which files open for writing and reading, how much fits, what padding bytes hold), the C++ library's
  choices, the JSON printer (\<open>None\<close> where it throws), and the host the doctor looks at.
\<close>

record 'k World =
  w_libbpf :: "'k Libbpf"
  w_pidns :: "(u64 \<times> u64) option"
  w_ring_buffer :: bool
  w_t0 :: u64
  w_turns :: "Iteration list"
  w_fopen_wb :: "string \<Rightarrow> bool"
  w_fopen_rb :: "string \<Rightarrow> bytes option"
  w_ofstream :: "string \<Rightarrow> bool"
  w_strerror :: string
  w_room :: "nat \<Rightarrow> nat"
  w_bufsiz :: nat
  w_pads :: "Event \<Rightarrow> Recorder \<Rightarrow> bytes \<times> bytes"
  w_now :: u64
  w_wall :: u64
  w_orders :: Orders
  w_dump :: "json \<Rightarrow> string option"
  w_host :: Host

text \<open>A file a command leaves: a recording or an exported document, with its path.\<close>

datatype written = Recording string bytes | Document string string

record Outcome =
  out_code :: int
  out_stdout :: string
  out_log :: "LogCall list"
  out_file :: "written option"

text \<open>A process still runs, was ended by a trap or an uncaught exception, or has exited.\<close>

datatype 'a progress = Running | Aborted | Exited 'a

text \<open>The early returns: the message of the error is logged and the exit code is 1.\<close>

definition failed :: "LogCall list \<Rightarrow> Error \<Rightarrow> Outcome" where
  "failed ks e = \<lparr>out_code = 1, out_stdout = [], out_log = ks @ [LogError (err_message e)], out_file = None\<rparr>"

definition printed :: "LogCall list \<Rightarrow> string option \<Rightarrow> Outcome progress" where
  "printed ks out =
     (case out of None \<Rightarrow> Aborted
      | Some s \<Rightarrow> Exited \<lparr>out_code = 0, out_stdout = s, out_log = ks, out_file = None\<rparr>)"

definition expired :: "u64 \<Rightarrow> u64 \<Rightarrow> u32 \<Rightarrow> bool" where
  "expired now_ns start_ns duration_sec =
     (if duration_sec = 0 then False else now_ns - start_ns \<ge> sec_to_ns (ucast duration_sec))"

text \<open>Setting up the loader and starting a collector on it, with the messages logged on the way.\<close>

definition start_live ::
  "'k World \<Rightarrow> Config \<Rightarrow> 's callback \<Rightarrow> LogCall list \<times> ('k BpfLoader \<times> 's Collector) Result" where
  "start_live w cfg cb =
     (let ks = setup_log (w_libbpf w) (w_pidns w) cfg None in
      case setup_bpf (w_libbpf w) (w_pidns w) cfg None of
        (Inl e, loader) \<Rightarrow> (ks, Inl e)
      | (Inr u, loader) \<Rightarrow>
          (case collector_start (w_libbpf w) loader (w_ring_buffer w) (set_callback (Some cb) Collector_init) of
             (Inl e, c) \<Rightarrow> (ks @ start_log (w_libbpf w) loader (Inl e), Inl e)
           | (Inr u, c) \<Rightarrow> (ks @ start_log (w_libbpf w) loader (Inr u), Inr (loader, c))))"

section \<open>Plain loops\<close>

text \<open>The loop of \<^verbatim>\<open>run_trace\<close>, \<^verbatim>\<open>run_record\<close> and \<^verbatim>\<open>run_export\<close>; its first component tells whether it has
  been left or is still running when the given turns end.\<close>

fun poll_loop ::
  "u32 \<Rightarrow> u64 \<Rightarrow> Iteration list \<Rightarrow> 's Collector \<times> 's \<Rightarrow> bool \<times> 's Collector \<times> 's" where
  "poll_loop duration_sec t0 [] cs = (False, cs)"
| "poll_loop duration_sec t0 (i # is) cs =
     (if it_shutdown i then (True, cs)
      else let cs' = snd (poll (it_recs i) (it_err i) cs) in
        if expired (it_expiry_now i) t0 duration_sec then (True, cs')
        else poll_loop duration_sec t0 is cs')"

text \<open>The callbacks: classify, then hand on.\<close>

definition aggregate_callback :: "Aggregator callback" where
  "aggregate_callback ev agg = process_event (classified ev) agg"

definition trace_callback :: "string callback" where
  "trace_callback ev out = out @ print_trace_event (classified ev)"

text \<open>The padding of the copy that is written is whatever memory holds.\<close>

definition record_callback ::
  "nat \<Rightarrow> (nat \<Rightarrow> nat) \<Rightarrow> (Event \<Rightarrow> Recorder \<Rightarrow> bytes \<times> bytes) \<Rightarrow> Recorder callback" where
  "record_callback bufsiz room pads ev r =
     (case pads ev r of (pad1, pad2) \<Rightarrow> snd (write_event bufsiz room pad1 pad2 (classified ev) r))"

definition trace_done :: "'s Collector \<Rightarrow> LogCall" where
  "trace_done c = LogInfo (''Trace done: '' @ to_string (unat (events_received c)) @ '' received, '' @
     to_string (unat (events_lost c)) @ '' lost'')"

definition run_trace :: "'k World \<Rightarrow> Config \<Rightarrow> Outcome progress" where
  "run_trace w cfg =
     (case start_live w cfg trace_callback of
        (ks, Inl e) \<Rightarrow> Exited (failed ks e)
      | (ks, Inr (loader, c)) \<Rightarrow>
          (case poll_loop (cfg_duration_sec cfg) (w_t0 w) (w_turns w) (c, []) of
             (left, c', out) \<Rightarrow> if left then printed (ks @ [trace_done c']) (Some out) else Running))"

text \<open>\<^verbatim>\<open>run_record\<close>: the destructor of the recorder closes the file on the early returns too.\<close>

definition recording :: "(nat \<Rightarrow> nat) \<Rightarrow> string \<Rightarrow> Recorder \<Rightarrow> written option" where
  "recording room path r = map_option (Recording path) (fst (recorder_close room r))"

definition recorded_line :: "Config \<Rightarrow> Recorder \<Rightarrow> string" where
  "recorded_line cfg r =
     ''Recorded '' @ to_string (unat (rec_events_written r)) @ '' events to '' @ c_str (cfg_record_file cfg) @ newline"

definition run_record :: "'k World \<Rightarrow> Config \<Rightarrow> Outcome progress" where
  "run_record w cfg =
     (let ks = setup_log (w_libbpf w) (w_pidns w) cfg None; path = cfg_record_file cfg in
      case setup_bpf (w_libbpf w) (w_pidns w) cfg None of
        (Inl e, loader) \<Rightarrow> Exited (failed ks e)
      | (Inr u, loader) \<Rightarrow>
          (case recorder_open (w_fopen_wb w path) (w_strerror w) (w_bufsiz w) (w_room w) (w_now w) (w_wall w) path Recorder_init of
             (Inl e, r) \<Rightarrow>
               let out = failed ks e in
               Exited (out\<lparr>out_log := out_log out @ recorder_close_log r, out_file := recording (w_room w) path r\<rparr>)
           | (Inr u, r) \<Rightarrow>
               let ks = ks @ recorder_open_log path (Inr u) in
               (case collector_start (w_libbpf w) loader (w_ring_buffer w)
                       (set_callback (Some (record_callback (w_bufsiz w) (w_room w) (w_pads w))) Collector_init) of
                  (Inl e, c) \<Rightarrow>
                    let out = failed (ks @ start_log (w_libbpf w) loader (Inl e)) e in
                    Exited (out\<lparr>out_log := out_log out @ recorder_close_log r, out_file := recording (w_room w) path r\<rparr>)
                | (Inr u, c) \<Rightarrow>
                    (case poll_loop (cfg_duration_sec cfg) (w_t0 w) (w_turns w) (c, r) of
                       (left, c', r') \<Rightarrow>
                         if left then
                           Exited \<lparr>out_code = 0, out_stdout = recorded_line cfg (snd (recorder_close (w_room w) r')),
                             out_log = ks @ start_log (w_libbpf w) loader (Inr u) @ recorder_close_log r',
                             out_file = recording (w_room w) path r'\<rparr>
                         else Running))))"

text \<open>
  \<^verbatim>\<open>run_export\<close>: neither a file that cannot be opened nor a full device is noticed, the stream just drops the
  text that does not fit.
\<close>

definition export_result :: "'k World \<Rightarrow> Config \<Rightarrow> LogCall list \<Rightarrow> string \<Rightarrow> Outcome" where
  "export_result w cfg ks output =
     (case export_output cfg output of
        Stdout s \<Rightarrow> \<lparr>out_code = 0, out_stdout = s, out_log = ks, out_file = None\<rparr>
      | File path doc \<Rightarrow> \<lparr>out_code = 0, out_stdout = [], out_log = ks @ [LogInfo (''Exported to '' @ path)],
          out_file = (if w_ofstream w path then Some (Document path (take (w_room w 0) doc)) else None)\<rparr>)"

definition run_export :: "'k World \<Rightarrow> Config \<Rightarrow> Outcome progress" where
  "run_export w cfg =
     (case start_live w cfg aggregate_callback of
        (ks, Inl e) \<Rightarrow> Exited (failed ks e)
      | (ks, Inr (loader, c)) \<Rightarrow>
          let dur = (if cfg_duration_sec cfg > 0 then cfg_duration_sec cfg else cfg_window_sec cfg) in
          (case poll_loop dur (w_t0 w) (w_turns w) (c, Aggregator_init) of
             (left, c', agg) \<Rightarrow>
               if left then
                 (case export_document (w_dump w) (or_piter (w_orders w)) (or_siter (w_orders w)) cfg agg of
                    None \<Rightarrow> Aborted
                  | Some output \<Rightarrow> Exited (export_result w cfg ks output))
               else Running))"

definition run_replay :: "'k World \<Rightarrow> Config \<Rightarrow> Outcome progress" where
  "run_replay w cfg =
     (let path = cfg_replay_file cfg; od = w_orders w in
      case replay_open (w_fopen_rb w path) (w_strerror w) path ReplaySource_init of
        (Inl e, src) \<Rightarrow> Exited (failed [] e)
      | (Inr u, src) \<Rightarrow>
          let ks = replay_open_log path (Inr u) in
          (case replay (Some process_event) src Aggregator_init of
             (Inl e, src', agg) \<Rightarrow> Exited (failed ks e)
           | (Inr u, src', agg) \<Rightarrow>
               printed (ks @ replay_log (Inr u, src'))
                 (replay_report (w_dump w) (or_psrt od) (or_ssrt od) (or_piter od) (or_siter od) cfg
                    (rp_events_replayed (replay_close src')) agg)))"

section \<open>Windowed loops\<close>

text \<open>
  The loop of \<^verbatim>\<open>run_top\<close>, \<^verbatim>\<open>run_top_offcpu\<close>, \<^verbatim>\<open>run_top_syscalls\<close> and \<^verbatim>\<open>run_hot_stacks\<close>: they differ in the
  step \<open>draw\<close> they take once a second, which works on a state of its own (the text shown so far, and for the
  hot stacks the symbolizer) and may trap.
\<close>

type_synonym 'd draw = "Iteration \<Rightarrow> Aggregator \<Rightarrow> u64 \<Rightarrow> u64 \<Rightarrow> 'd \<Rightarrow> 'd option"

record 'd TopState =
  top_collector :: "Aggregator Collector"
  top_agg :: Aggregator
  top_t0 :: u64
  top_last_draw :: u64
  top_shown :: 'd

definition top_start :: "Aggregator Collector \<Rightarrow> u64 \<Rightarrow> 'd \<Rightarrow> 'd TopState" where
  "top_start c t0 d = \<lparr>top_collector = c, top_agg = Aggregator_init, top_t0 = t0, top_last_draw = t0, top_shown = d\<rparr>"

definition top_redraw :: "'d draw \<Rightarrow> Iteration \<Rightarrow> 'd TopState \<Rightarrow> 'd TopState option" where
  "top_redraw draw i st =
     (if it_now i - top_last_draw st \<ge> 1000000000
      then map_option (\<lambda>d. st\<lparr>top_shown := d, top_last_draw := it_now i\<rparr>)
        (draw i (top_agg st) (events_received (top_collector st)) (events_lost (top_collector st)) (top_shown st))
      else Some st)"

definition top_window :: "Config \<Rightarrow> u64 \<Rightarrow> 'd TopState \<Rightarrow> 'd TopState" where
  "top_window cfg now st =
     (let window_ns = sec_to_ns (ucast (cfg_window_sec cfg)) in
      if window_ns > 0 \<and> now - top_t0 st \<ge> window_ns
      then st\<lparr>top_agg := agg_reset (top_agg st), top_t0 := now\<rparr>
      else st)"

definition top_turn :: "'d draw \<Rightarrow> Config \<Rightarrow> Iteration \<Rightarrow> 'd TopState \<Rightarrow> 'd TopState option" where
  "top_turn draw cfg i st =
     (let (c, agg) = snd (poll (it_recs i) (it_err i) (top_collector st, top_agg st)) in
      map_option (top_window cfg (it_now i)) (top_redraw draw i (st\<lparr>top_collector := c, top_agg := agg\<rparr>)))"

text \<open>\<open>None\<close> is the trap of a redraw.\<close>

fun top_loop :: "'d draw \<Rightarrow> Config \<Rightarrow> Iteration list \<Rightarrow> 'd TopState \<Rightarrow> (bool \<times> 'd TopState) option" where
  "top_loop draw cfg [] st = Some (False, st)"
| "top_loop draw cfg (i # is) st =
     (if it_shutdown i then Some (True, st)
      else case top_turn draw cfg i st of
        None \<Rightarrow> None
      | Some st' \<Rightarrow>
          if expired (it_expiry_now i) (top_t0 st') (cfg_duration_sec cfg) then Some (True, st')
          else top_loop draw cfg is st')"

text \<open>A windowed command: the step may use the stack map of the loader; \<open>finish\<close> is the text on standard
  output once the loop was left.\<close>

definition run_windowed ::
  "(int \<Rightarrow> 'd draw) \<Rightarrow> 'd \<Rightarrow> ('d TopState \<Rightarrow> string option) \<Rightarrow> 'k World \<Rightarrow> Config \<Rightarrow> Outcome progress" where
  "run_windowed draw d finish w cfg =
     (case start_live w cfg aggregate_callback of
        (ks, Inl e) \<Rightarrow> Exited (failed ks e)
      | (ks, Inr (loader, c)) \<Rightarrow>
          (case top_loop (draw (stack_trace_fd (w_libbpf w) loader)) cfg (w_turns w) (top_start c (w_t0 w) d) of
             None \<Rightarrow> Aborted
           | Some (left, st) \<Rightarrow> if left then printed ks (finish st) else Running))"

definition draw_processes :: "string \<Rightarrow> SortBy \<Rightarrow> Orders \<Rightarrow> Config \<Rightarrow> string draw" where
  "draw_processes title by od cfg i agg recv lost out =
     Some (out @ print_process_table title (top_processes (or_psrt od) (or_piter od) (unat (cfg_top_n cfg)) by agg) recv lost)"

definition draw_syscalls :: "Orders \<Rightarrow> Config \<Rightarrow> string draw" where
  "draw_syscalls od cfg i agg recv lost out =
     Some (out @ print_syscall_table (top_syscalls (or_ssrt od) (or_siter od) (unat (cfg_top_n cfg)) agg) recv lost)"

definition draw_stacks :: "Orders \<Rightarrow> Config \<Rightarrow> int \<Rightarrow> (string \<times> Symbolizer) draw" where
  "draw_stacks od cfg fd i agg recv lost d =
     map_option (\<lambda>(s, sy). (fst d @ s, sy))
       (print_hot_stacks (it_files i) fd (it_stacks i)
          (top_stacks (or_ksrt od) (or_kiter od) (unat (cfg_top_n cfg)) agg) recv lost (snd d))"

definition run_top :: "'k World \<Rightarrow> Config \<Rightarrow> Outcome progress" where
  "run_top w cfg =
     run_windowed (\<lambda>fd. draw_processes ''Top Latency Processes'' TotalLatency (w_orders w) cfg) []
       (\<lambda>st. map_option (\<lambda>s. top_shown st @ s)
          (top_json_output (w_dump w) (or_piter (w_orders w)) (or_siter (w_orders w)) cfg (top_agg st))) w cfg"

definition run_top_offcpu :: "'k World \<Rightarrow> Config \<Rightarrow> Outcome progress" where
  "run_top_offcpu w cfg =
     run_windowed (\<lambda>fd. draw_processes ''Top Off-CPU Processes'' OffcpuTime (w_orders w) cfg) []
       (\<lambda>st. Some (top_shown st)) w cfg"

definition run_top_syscalls :: "'k World \<Rightarrow> Config \<Rightarrow> Outcome progress" where
  "run_top_syscalls w cfg =
     run_windowed (\<lambda>fd. draw_syscalls (w_orders w) cfg) [] (\<lambda>st. Some (top_shown st)) w cfg"

definition run_hot_stacks :: "'k World \<Rightarrow> Config \<Rightarrow> Outcome progress" where
  "run_hot_stacks w cfg =
     run_windowed (draw_stacks (w_orders w) cfg) ([], Symbolizer_init) (\<lambda>st. Some (fst (top_shown st))) w cfg"

section \<open>Dispatch\<close>

definition doctor_outcome :: "'k World \<Rightarrow> Outcome progress" where
  "doctor_outcome w =
     (case run_doctor (w_host w) of (code, out) \<Rightarrow>
        Exited \<lparr>out_code = code, out_stdout = out, out_log = [], out_file = None\<rparr>)"

definition run_command :: "'k World \<Rightarrow> Config \<Rightarrow> Outcome progress" where
  "run_command w cfg =
     (case cfg_command cfg of
        Top \<Rightarrow> run_top w cfg
      | TopOffcpu \<Rightarrow> run_top_offcpu w cfg
      | TopSyscalls \<Rightarrow> run_top_syscalls w cfg
      | Trace \<Rightarrow> run_trace w cfg
      | HotStacks \<Rightarrow> run_hot_stacks w cfg
      | Record \<Rightarrow> run_record w cfg
      | Replay \<Rightarrow> run_replay w cfg
      | Export \<Rightarrow> run_export w cfg
      | Doctor \<Rightarrow> doctor_outcome w
      | Help \<Rightarrow> Exited \<lparr>out_code = 1, out_stdout = [], out_log = [LogError ''Unknown command''], out_file = None\<rparr>)"

end
