(* ===== verification/Commands_Properties.thy ===== *)
theory Commands_Properties
  imports Commands
begin

text \<open>
  What the command loops do over any sequence of turns: when they end, which events have been
  handled by then, what a windowed view contains, and that recording and replaying gives the same
  analysis as looking at the events live.
\<close>

section \<open>Plain loops\<close>

definition running :: "'s Collector \<Rightarrow> bool" where
  "running c \<longleftrightarrow> co_rb c \<and> co_running c"

lemma poll_running: "running c \<Longrightarrow> snd (poll recs err (c, s)) = fold handle_event recs (c, s)"
  by (simp add: poll_def running_def)

lemma running_handled: "running (fst (fold handle_event recs (c, s))) = running c"
  by (simp add: handle_events running_def)

lemma handled_callback: "co_callback (fst (fold handle_event recs (c, s))) = co_callback c"
  by (simp add: handle_events)

text \<open>The turns in which a plain loop polls: those before the first that stops it, and that one
  too if it is the expiry that stops it.\<close>

definition stops :: "u32 \<Rightarrow> u64 \<Rightarrow> Iteration \<Rightarrow> bool" where
  "stops duration_sec t0 i \<longleftrightarrow> it_shutdown i \<or> expired (it_expiry_now i) t0 duration_sec"

definition polled_turns :: "u32 \<Rightarrow> u64 \<Rightarrow> Iteration list \<Rightarrow> Iteration list" where
  "polled_turns duration_sec t0 is =
     takeWhile (\<lambda>i. \<not> stops duration_sec t0 i) is @
     (case dropWhile (\<lambda>i. \<not> stops duration_sec t0 i) is of
        [] \<Rightarrow> [] | i # _ \<Rightarrow> if it_shutdown i then [] else [i])"

definition handled_events :: "Iteration list \<Rightarrow> Event list" where
  "handled_events is = decoded (concat (map it_recs is))"

lemma decoded_append: "decoded (xs @ ys) = decoded xs @ decoded ys"
  by (induction xs) (auto split: option.split)

lemma handled_events_simps [simp]:
  "handled_events [] = []" "handled_events (i # is) = decoded (it_recs i) @ handled_events is"
  "handled_events (is @ js) = handled_events is @ handled_events js"
  by (simp_all add: handled_events_def decoded_append)

lemma poll_loop_handles:
  assumes "running c"
  shows "poll_loop duration_sec t0 is (c, s) =
    (list_ex (stops duration_sec t0) is,
     fold handle_event (concat (map it_recs (polled_turns duration_sec t0 is))) (c, s))"
  using assms
proof (induction "is" arbitrary: c s)
  case Nil
  then show ?case by (simp add: polled_turns_def)
next
  case (Cons i "is")
  let ?cs = "fold handle_event (it_recs i) (c, s)"
  have "running (fst ?cs)" using Cons.prems by (simp add: running_handled)
  then show ?case
    using Cons.prems Cons.IH [of "fst ?cs" "snd ?cs"]
    by (simp add: poll_running polled_turns_def stops_def)
qed

lemma poll_loop_result:
  assumes "running c"
  shows "fst (poll_loop duration_sec t0 is (c, s)) = list_ex (stops duration_sec t0) is"
    and "snd (snd (poll_loop duration_sec t0 is (c, s))) =
      fold (call (co_callback c)) (handled_events (polled_turns duration_sec t0 is)) s"
  using assms by (simp_all add: poll_loop_handles handle_events handled_events_def)

lemma collector_start_running:
  "collector_start lb loader rb_new (set_callback cb Collector_init) = (Inr u, c) \<Longrightarrow>
   running c \<and> co_callback c = cb"
  by (auto simp: collector_start_def set_callback_def running_def split: if_splits)

lemma fold_aggregate_callback:
  "fold aggregate_callback evs a = fold process_event (map classified evs) a"
  by (induction evs arbitrary: a) (simp_all add: aggregate_callback_def)

lemma collector_start_init:
  assumes "0 \<le> ringbuf_fd lb loader" "rb_new"
  obtains c where "collector_start lb loader rb_new (set_callback (Some cb) Collector_init) = (Inr (), c)"
    "running c" "co_callback c = Some cb" "co_received c = 0" "co_decode_errors c = 0"
  using assms that [of "Collector_init\<lparr>co_callback := Some cb, co_rb := True, co_running := True\<rparr>"]
  by (simp add: collector_start_def set_callback_def running_def Collector_init_def)

lemma start_live_collector:
  assumes "start_live w cfg cb = (ks, Inr (loader, c))"
  shows "running c" "co_callback c = Some cb" "co_received c = 0" "co_decode_errors c = 0"
proof -
  obtain st l where "setup_bpf (w_libbpf w) (w_pidns w) cfg None = (st, l)" by fastforce
  moreover obtain st' c' where
    *: "collector_start (w_libbpf w) l (w_ring_buffer w) (set_callback (Some cb) Collector_init) = (st', c')"
    by fastforce
  ultimately have "st' = Inr ()" "c' = c"
    using assms by (cases st; cases st'; simp add: start_live_def Let_def)+
  with * show "running c" "co_callback c = Some cb" "co_received c = 0" "co_decode_errors c = 0"
    by (auto simp: collector_start_def set_callback_def running_def Collector_init_def split: if_splits)
qed

lemma start_live_succeeds:
  assumes "setup_bpf (w_libbpf w) (w_pidns w) cfg None = (Inr (), loader)"
    and "0 \<le> ringbuf_fd (w_libbpf w) loader" "w_ring_buffer w"
  obtains ks c where "start_live w cfg cb = (ks, Inr (loader, c))"
proof -
  obtain c where "collector_start (w_libbpf w) loader (w_ring_buffer w) (set_callback (Some cb) Collector_init) = (Inr (), c)"
    using collector_start_init [OF assms(2,3)] by blast
  then show ?thesis using assms(1) that by (simp add: start_live_def Let_def)
qed

text \<open>
  C27: once the BPF side and the collector have started, the export command ends if and only if some turn
  brings a shutdown request or finds the duration (or, if none is given, the window) elapsed. It then exports
  the aggregation of exactly the events polled until then, each classified, in the order of the ring buffer,
  in the format asked for: as one line on standard output, or to the named file. If that file cannot be
  opened, or the device takes only a part of the text, the command still reports that it has exported to it and
  exits with code 0. It is ended abnormally exactly if the JSON printer throws.
\<close>

theorem run_export_result:
  assumes "setup_bpf (w_libbpf w) (w_pidns w) cfg None = (Inr (), loader)"
    and "0 \<le> ringbuf_fd (w_libbpf w) loader" "w_ring_buffer w"
  shows "let dur = (if cfg_duration_sec cfg > 0 then cfg_duration_sec cfg else cfg_window_sec cfg);
             agg = aggregate (map classified (handled_events (polled_turns dur (w_t0 w) (w_turns w))));
             path = cfg_export_file cfg in
    if \<not> list_ex (stops dur (w_t0 w)) (w_turns w) then run_export w cfg = Running
    else case export_document (w_dump w) (or_piter (w_orders w)) (or_siter (w_orders w)) cfg agg of
        None \<Rightarrow> run_export w cfg = Aborted
      | Some doc \<Rightarrow> (\<exists>out. run_export w cfg = Exited out \<and> out_code out = 0 \<and>
          (if path = [] then out_stdout out = c_str doc @ newline \<and> out_file out = None
           else out_stdout out = [] \<and> last (out_log out) = LogInfo (''Exported to '' @ path) \<and>
             out_file out = (if w_ofstream w path then Some (Document path (take (w_room w 0) doc)) else None)))"
proof -
  obtain ks c where live: "start_live w cfg aggregate_callback = (ks, Inr (loader, c))"
    using start_live_succeeds [OF assms] by blast
  let ?dur = "if cfg_duration_sec cfg > 0 then cfg_duration_sec cfg else cfg_window_sec cfg"
  let ?agg = "aggregate (map classified (handled_events (polled_turns ?dur (w_t0 w) (w_turns w))))"
  let ?doc = "export_document (w_dump w) (or_piter (w_orders w)) (or_siter (w_orders w)) cfg ?agg"
  have run: "run_export w cfg =
     (if list_ex (stops ?dur (w_t0 w)) (w_turns w)
      then case ?doc of None \<Rightarrow> Aborted | Some doc \<Rightarrow> Exited (export_result w cfg ks doc) else Running)"
    using poll_loop_result [OF start_live_collector(1) [OF live], of ?dur "w_t0 w" "w_turns w" Aggregator_init]
    unfolding run_export_def Let_def live prod.case sum.case case_prod_beta snd_conv fst_conv
    by (simp only: start_live_collector(2) [OF live] call_Some fold_aggregate_callback aggregate_def)
  show ?thesis
    unfolding Let_def run
    by (cases ?doc) (simp_all add: export_result_def export_output_def)
qed

text \<open>A turn without a shutdown request, at a given time, and a world in which everything succeeds.\<close>

definition no_files :: Files where
  "no_files = \<lparr>fs_maps = (\<lambda>_. None), fs_elf = (\<lambda>_. None), fs_kallsyms = None, fs_sort = insertion_sort,
     fs_ksort = insertion_sort\<rparr>"

definition turn_at :: "bytes list \<Rightarrow> u64 \<Rightarrow> Iteration" where
  "turn_at recs t = \<lparr>it_shutdown = False, it_recs = recs, it_err = 0, it_now = t, it_expiry_now = t,
     it_files = no_files, it_stacks = (\<lambda>_. None)\<rparr>"

definition willing_world :: "Iteration list \<Rightarrow> unit World" where
  "willing_world is = \<lparr>w_libbpf = willing_libbpf, w_pidns = None, w_ring_buffer = True, w_t0 = 1, w_turns = is,
     w_fopen_wb = (\<lambda>_. True), w_fopen_rb = (\<lambda>_. None), w_ofstream = (\<lambda>_. True), w_strerror = [],
     w_room = (\<lambda>n. 1000 - n), w_bufsiz = 4096, w_pads = (\<lambda>_ _. ([0, 0, 0, 0], [0, 0, 0, 0])), w_now = 1, w_wall = 2,
     w_orders = listed_orders, w_dump = (\<lambda>_. Some ''{}''), w_host = modern_host\<rparr>"

lemma setup_willing:
  "\<exists>sk. setup_bpf willing_libbpf None cfg None = (Inr (), Some sk)"
  by (simp add: setup_bpf_def loader_open_def loader_configure_def loader_load_def loader_attach_def
      willing_libbpf_def)

lemma setup_willing_world:
  obtains sk where "setup_bpf (w_libbpf (willing_world is)) (w_pidns (willing_world is)) cfg None = (Inr (), Some sk)"
    "0 \<le> ringbuf_fd (w_libbpf (willing_world is)) (Some sk)" "w_ring_buffer (willing_world is)"
  using setup_willing [of cfg] by (auto simp: willing_world_def willing_libbpf_def ringbuf_fd_def)

theorem run_export_result_witness:
  "\<exists>out. run_export ((willing_world [turn_at [] 2, turn_at [] 5000000001])\<lparr>w_ofstream := \<lambda>_. False\<rparr>)
     (Config_init\<lparr>cfg_export_file := ''report''\<rparr>) = Exited out \<and> out_code out = 0 \<and> out_file out = None"
proof -
  let ?w = "(willing_world [turn_at [] 2, turn_at [] 5000000001])\<lparr>w_ofstream := \<lambda>_. False\<rparr>"
  let ?cfg = "Config_init\<lparr>cfg_export_file := ''report''\<rparr>"
  obtain sk where "setup_bpf (w_libbpf ?w) (w_pidns ?w) ?cfg None = (Inr (), Some sk)"
    "0 \<le> ringbuf_fd (w_libbpf ?w) (Some sk)" "w_ring_buffer ?w"
    using setup_willing_world [of "[]" ?cfg] by (auto simp: willing_world_def)
  note run_export_result [OF this]
  moreover have "list_ex (stops 5 (w_t0 ?w)) (w_turns ?w)"
    by (simp add: willing_world_def stops_def turn_at_def expired_def sec_to_ns_def)
  moreover have "cfg_duration_sec ?cfg = 0" "cfg_window_sec ?cfg = 5" "cfg_export_file ?cfg = ''report''"
    "w_ofstream ?w ''report'' = False" by (simp_all add: Config_init_def)
  moreover have "export_document (w_dump ?w) pit sit ?cfg agg = Some ''{}''" for pit sit agg
    by (simp add: export_document_def export_json_def Config_init_def willing_world_def)
  ultimately show ?thesis by (auto simp: Let_def)
qed

section \<open>Windowed loops\<close>

text \<open>
  The specification of a windowed view. The turns it polls: a turn that finds the window full starts the next
  one behind itself, and the duration is compared with the time since the window began.
\<close>

fun windowed_turns :: "u64 \<Rightarrow> u32 \<Rightarrow> u64 \<Rightarrow> Iteration list \<Rightarrow> bool \<times> Iteration list" where
  "windowed_turns window_ns dur t0 [] = (False, [])"
| "windowed_turns window_ns dur t0 (i # is) =
     (if it_shutdown i then (True, [])
      else let t0 = (if window_ns > 0 \<and> it_now i - t0 \<ge> window_ns then it_now i else t0) in
        if expired (it_expiry_now i) t0 dur then (True, [i])
        else apsnd (Cons i) (windowed_turns window_ns dur t0 is))"

text \<open>The time the current window began and the turns polled in it.\<close>

fun window_of :: "u64 \<Rightarrow> u64 \<Rightarrow> Iteration list \<Rightarrow> Iteration list \<Rightarrow> u64 \<times> Iteration list" where
  "window_of window_ns t0 since [] = (t0, since)"
| "window_of window_ns t0 since (i # is) =
     (if window_ns > 0 \<and> it_now i - t0 \<ge> window_ns then window_of window_ns (it_now i) [] is
      else window_of window_ns t0 (since @ [i]) is)"

text \<open>The redraws: a turn at least a second behind the last one, with the turns of its window up to and
  including itself, and all turns so far.\<close>

fun redraws ::
  "u64 \<Rightarrow> u64 \<Rightarrow> u64 \<Rightarrow> Iteration list \<Rightarrow> Iteration list \<Rightarrow> Iteration list \<Rightarrow>
   (Iteration \<times> Iteration list \<times> Iteration list) list" where
  "redraws window_ns t0 last_draw since past [] = []"
| "redraws window_ns t0 last_draw since past (i # is) =
     (let full = (window_ns > 0 \<and> it_now i - t0 \<ge> window_ns); due = (it_now i - last_draw \<ge> 1000000000) in
      (if due then [(i, since @ [i], past @ [i])] else []) @
      redraws window_ns (if full then it_now i else t0) (if due then it_now i else last_draw)
        (if full then [] else since @ [i]) (past @ [i]) is)"

definition undecoded :: "Iteration list \<Rightarrow> nat" where
  "undecoded is = length (concat (map it_recs is)) - length (handled_events is)"

fun show_all :: "'d draw \<Rightarrow> (Iteration \<times> Iteration list \<times> Iteration list) list \<Rightarrow> 'd \<Rightarrow> 'd option" where
  "show_all draw [] d = Some d"
| "show_all draw ((i, since, past) # vs) d =
     (case draw i (aggregate (map classified (handled_events since))) (of_nat (length (handled_events past)))
             (of_nat (undecoded past)) d of
        None \<Rightarrow> None
      | Some d' \<Rightarrow> show_all draw vs d')"

text \<open>The state of a loop that has polled the turns \<open>past\<close>, those in \<open>since\<close> in the current window.\<close>

definition views :: "Iteration list \<Rightarrow> Iteration list \<Rightarrow> 'd TopState \<Rightarrow> bool" where
  "views since past st \<longleftrightarrow> running (top_collector st) \<and> co_callback (top_collector st) = Some aggregate_callback \<and>
     top_agg st = aggregate (map classified (handled_events since)) \<and>
     events_received (top_collector st) = of_nat (length (handled_events past)) \<and>
     events_lost (top_collector st) = of_nat (undecoded past)"

lemma undecoded_snoc:
  "undecoded (past @ [i]) = undecoded past + (length (it_recs i) - length (decoded (it_recs i)))"
  using length_decoded [of "it_recs i"] length_decoded [of "concat (map it_recs past)"]
  by (simp add: undecoded_def handled_events_def decoded_append)

lemma views_polled:
  assumes "views since past st" "fold handle_event (it_recs i) (top_collector st, top_agg st) = (c, agg)"
  shows "views (since @ [i]) (past @ [i]) (st\<lparr>top_collector := c, top_agg := agg\<rparr>)"
proof -
  have "running (fst (c, agg))" "co_callback (fst (c, agg)) = Some aggregate_callback"
    unfolding assms(2) [symmetric] using assms(1) by (simp_all add: running_handled handled_callback views_def)
  with assms show ?thesis
    by (auto simp: views_def handle_events events_received_def events_lost_def undecoded_snoc call_Some
        fold_aggregate_callback aggregate_def)
qed

lemma top_window_fields:
  fixes cfg now and st :: "'d TopState"
  defines "full \<equiv> sec_to_ns (ucast (cfg_window_sec cfg)) > 0 \<and> now - top_t0 st \<ge> sec_to_ns (ucast (cfg_window_sec cfg))"
  shows "views since past st \<Longrightarrow> views (if full then [] else since) past (top_window cfg now st)"
    and "top_t0 (top_window cfg now st) = (if full then now else top_t0 st)"
    and "top_shown (top_window cfg now st) = top_shown st"
    and "top_last_draw (top_window cfg now st) = top_last_draw st"
  by (auto simp: top_window_def views_def Let_def full_def agg_reset_def Aggregator_init_def aggregate_def)

text \<open>One turn: a redraw if one is due, with what the specification says it shows, then the window.\<close>

lemma top_turn_views:
  fixes cfg i st
  defines "full \<equiv> sec_to_ns (ucast (cfg_window_sec cfg)) > 0 \<and> it_now i - top_t0 st \<ge> sec_to_ns (ucast (cfg_window_sec cfg))"
    and "due \<equiv> it_now i - top_last_draw st \<ge> 1000000000"
  assumes "views since past st"
  shows "case show_all draw (if due then [(i, since @ [i], past @ [i])] else []) (top_shown st) of
      None \<Rightarrow> top_turn draw cfg i st = None
    | Some d \<Rightarrow> (\<exists>st'. top_turn draw cfg i st = Some st' \<and> top_shown st' = d \<and>
        views (if full then [] else since @ [i]) (past @ [i]) st' \<and>
        top_t0 st' = (if full then it_now i else top_t0 st) \<and>
        top_last_draw st' = (if due then it_now i else top_last_draw st))"
proof -
  obtain c agg where p: "fold handle_event (it_recs i) (top_collector st, top_agg st) = (c, agg)" by fastforce
  have polled: "snd (poll (it_recs i) (it_err i) (top_collector st, top_agg st)) = (c, agg)"
    using assms(3) p by (simp add: poll_running views_def)
  let ?st = "st\<lparr>top_collector := c, top_agg := agg\<rparr>"
  have v: "views (since @ [i]) (past @ [i]) ?st" using views_polled [OF assms(3) p] .
  define r where "r = show_all draw (if due then [(i, since @ [i], past @ [i])] else []) (top_shown st)"
  let ?next = "\<lambda>d. ?st\<lparr>top_shown := d, top_last_draw := (if due then it_now i else top_last_draw st)\<rparr>"
  have "top_redraw draw i ?st = map_option ?next r"
    using v by (auto simp: top_redraw_def due_def views_def r_def split: option.split simp del: handled_events_simps)
  then have turn: "top_turn draw cfg i st = map_option (\<lambda>d. top_window cfg (it_now i) (?next d)) r"
    by (simp add: top_turn_def polled option.map_comp comp_def)
  have w: "views (since @ [i]) (past @ [i]) (?next d)" for d
    using v by (simp add: views_def)
  show ?thesis
    unfolding turn r_def [symmetric] full_def
    using top_window_fields [where st = "?next d" for d] top_window_fields(1) [OF w, of cfg "it_now i"]
    by (cases r) simp_all
qed

lemma show_all_append: "show_all draw (vs @ us) d = Option.bind (show_all draw vs d) (show_all draw us)"
  by (induction draw vs d rule: show_all.induct) (simp_all split: option.split)

lemma windowed_turns_go:
  "\<not> it_shutdown i \<Longrightarrow> \<not> expired (it_expiry_now i) t1 dur \<Longrightarrow>
   t1 = (if W > 0 \<and> it_now i - t0 \<ge> W then it_now i else t0) \<Longrightarrow>
   windowed_turns W dur t0 (i # is) = apsnd (Cons i) (windowed_turns W dur t1 is)"
  by (simp only: windowed_turns.simps Let_def if_False)

lemma windowed_turns_last:
  "\<not> it_shutdown i \<Longrightarrow> expired (it_expiry_now i) t1 dur \<Longrightarrow>
   t1 = (if W > 0 \<and> it_now i - t0 \<ge> W then it_now i else t0) \<Longrightarrow> windowed_turns W dur t0 (i # is) = (True, [i])"
  by (simp only: windowed_turns.simps Let_def if_False if_True)

lemma windowed_turns_head: "\<not> it_shutdown i \<Longrightarrow> \<exists>js. snd (windowed_turns W dur t0 (i # is)) = i # js"
  by (simp add: Let_def)

lemma window_of_go:
  "window_of W t0 since (i # is) =
   window_of W (if W > 0 \<and> it_now i - t0 \<ge> W then it_now i else t0)
     (if W > 0 \<and> it_now i - t0 \<ge> W then [] else since @ [i]) is"
  by simp

lemma top_loop_views:
  fixes cfg
  defines "W \<equiv> sec_to_ns (ucast (cfg_window_sec cfg))"
  assumes "views since past st"
  shows "windowed_turns W (cfg_duration_sec cfg) (top_t0 st) is = (left, ps) \<Longrightarrow>
    case show_all draw (redraws W (top_t0 st) (top_last_draw st) since past ps) (top_shown st) of
      None \<Rightarrow> top_loop draw cfg is st = None
    | Some d \<Rightarrow> (\<exists>st'. top_loop draw cfg is st = Some (left, st') \<and> top_shown st' = d \<and>
        top_t0 st' = fst (window_of W (top_t0 st) since ps) \<and>
        views (snd (window_of W (top_t0 st) since ps)) (past @ ps) st')"
  using assms(2)
proof (induction "is" arbitrary: st since past ps)
  case Nil
  then show ?case by simp
next
  case (Cons i "is")
  let ?full = "W > 0 \<and> it_now i - top_t0 st \<ge> W" and ?due = "it_now i - top_last_draw st \<ge> 1000000000"
  let ?v = "if ?due then [(i, since @ [i], past @ [i])] else []"
  let ?t1 = "if ?full then it_now i else top_t0 st" and ?l1 = "if ?due then it_now i else top_last_draw st"
  note turn = top_turn_views [OF Cons.prems(2), where i = i and draw = draw and cfg = cfg, folded W_def]
  have go: "redraws W (top_t0 st) (top_last_draw st) since past (i # js) =
      ?v @ redraws W ?t1 ?l1 (if ?full then [] else since @ [i]) (past @ [i]) js" for js
    by (simp only: redraws.simps Let_def)
  show ?case
  proof (cases "it_shutdown i")
    case True
    then show ?thesis using Cons.prems by simp
  next
    case False
    obtain js where js: "ps = i # js"
      using windowed_turns_head [OF False, of W "cfg_duration_sec cfg" "top_t0 st" "is"] Cons.prems(1) by auto
    show ?thesis
    proof (cases "show_all draw ?v (top_shown st)")
      case None
      then have "top_turn draw cfg i st = None" using turn by (simp only: option.case)
      then have "top_loop draw cfg (i # is) st = None" using False by simp
      then show ?thesis by (simp only: js go show_all_append None bind.simps option.case)
    next
      case (Some d)
      then obtain st1 where st1: "top_turn draw cfg i st = Some st1" "top_shown st1 = d"
        "views (if ?full then [] else since @ [i]) (past @ [i]) st1" "top_t0 st1 = ?t1" "top_last_draw st1 = ?l1"
        using turn by (auto simp only: option.case)
      have shown: "show_all draw (redraws W (top_t0 st) (top_last_draw st) since past ps) (top_shown st) =
          show_all draw (redraws W (top_t0 st1) (top_last_draw st1) (if ?full then [] else since @ [i]) (past @ [i]) js) (top_shown st1)"
        by (simp only: js go show_all_append Some bind.simps st1)
      have window: "window_of W (top_t0 st) since ps = window_of W (top_t0 st1) (if ?full then [] else since @ [i]) js"
        by (simp only: js window_of_go st1)
      show ?thesis
      proof (cases "expired (it_expiry_now i) (top_t0 st1) (cfg_duration_sec cfg)")
        case True
        then have l: "left" "js = []" using windowed_turns_last [OF False True st1(4), of "is"] Cons.prems(1) js by simp_all
        have "top_loop draw cfg (i # is) st = Some (True, st1)" using False True st1(1) by simp
        then show ?thesis unfolding shown window using l st1(3) js by simp
      next
        case notexp: False
        have "windowed_turns W (cfg_duration_sec cfg) (top_t0 st1) is = (left, js)"
          using windowed_turns_go [OF False notexp st1(4), of "is"] Cons.prems(1) js
          by (cases "windowed_turns W (cfg_duration_sec cfg) (top_t0 st1) is") simp
        note IH = Cons.IH [OF this st1(3)]
        have loop: "top_loop draw cfg (i # is) st = top_loop draw cfg is st1" using False notexp st1(1) by simp
        have all: "past @ ps = (past @ [i]) @ js" using js by simp
        show ?thesis unfolding shown window loop all by (rule IH)
      qed
    qed
  qed
qed

text \<open>
  C23: a windowed command shows, once a second, the events of its current window: its loop polls exactly the
  turns up to a shutdown request or an expiry; every redraw gets the aggregation of the events, each
  classified, polled since the turn that last found the window full (or since the start), and counts of the
  events received and lost that run on across the windows; what is on the screen is what these redraws made
  of it, in their order, and the loop traps exactly when one of them does. The same holds of the aggregation
  left at the end.
\<close>

theorem windowed_view:
  assumes "start_live w cfg aggregate_callback = (ks, Inr (loader, c))"
    and "windowed_turns (sec_to_ns (ucast (cfg_window_sec cfg))) (cfg_duration_sec cfg) t0 is = (left, ps)"
  shows "let W = sec_to_ns (ucast (cfg_window_sec cfg)); (start, turns) = window_of W t0 [] ps in
    case show_all draw (redraws W t0 t0 [] [] ps) d of
      None \<Rightarrow> top_loop draw cfg is (top_start c t0 d) = None
    | Some d' \<Rightarrow> (\<exists>st. top_loop draw cfg is (top_start c t0 d) = Some (left, st) \<and> top_shown st = d' \<and>
        top_t0 st = start \<and> top_agg st = aggregate (map classified (handled_events turns)) \<and>
        events_received (top_collector st) = of_nat (length (handled_events ps)))"
proof -
  note live = start_live_collector [OF assms(1)]
  have "views [] [] (top_start c t0 d)"
    using live by (simp add: views_def top_start_def aggregate_def events_received_def events_lost_def undecoded_def)
  note top_loop_views [OF this, of cfg "is" left ps draw]
  then show ?thesis
    using assms(2) by (auto simp: top_start_def views_def Let_def split: option.split prod.split)
qed

lemma start_live_willing: "\<exists>ks sk c. start_live (willing_world is) cfg cb = (ks, Inr (Some sk, c))"
proof -
  obtain sk where "setup_bpf (w_libbpf (willing_world is)) (w_pidns (willing_world is)) cfg None = (Inr (), Some sk)"
    "0 \<le> ringbuf_fd (w_libbpf (willing_world is)) (Some sk)" "w_ring_buffer (willing_world is)"
    using setup_willing_world by blast
  from start_live_succeeds [OF this, of cb] show ?thesis by metis
qed

theorem windowed_view_witness:
  "\<exists>ks loader c st. start_live (willing_world []) Config_init aggregate_callback = (ks, Inr (loader, c)) \<and>
     top_loop (\<lambda>i agg recv lost n. Some (n + 1)) Config_init [turn_at [[]] 2, turn_at [] 1000000001]
       (top_start c 1 (0 :: nat)) = Some (False, st) \<and>
     top_shown st = 1 \<and> top_agg st = aggregate [] \<and> events_received (top_collector st) = 0"
proof -
  obtain ks sk c where live: "start_live (willing_world []) Config_init aggregate_callback = (ks, Inr (Some sk, c))"
    using start_live_willing by blast
  let ?is = "[turn_at [[]] 2, turn_at [] 1000000001]"
  let ?W = "sec_to_ns (ucast (cfg_window_sec Config_init))"
  have W: "?W = 5000000000" by (simp add: Config_init_def sec_to_ns_def)
  have "windowed_turns ?W (cfg_duration_sec Config_init) 1 ?is = (False, ?is)"
    by (simp add: W turn_at_def expired_def Config_init_def Let_def word_le_nat_alt)
  note v = windowed_view [OF live this, where draw = "\<lambda>i agg recv lost n. Some (n + 1)" and d = "0 :: nat"]
  have win: "window_of ?W 1 [] ?is = (1, ?is)" by (simp add: W turn_at_def word_le_nat_alt)
  have re: "redraws ?W 1 1 [] [] ?is = [(turn_at [] 1000000001, ?is, ?is)]" by (simp add: W turn_at_def Let_def word_le_nat_alt)
  have "handled_events ?is = []" by (simp add: turn_at_def decode_event_def sizeof_event_def)
  then show ?thesis using live v unfolding Let_def win re by auto
qed

lemma top_turn_running:
  assumes "top_turn draw cfg i st = Some st'" "running (top_collector st)"
  shows "running (top_collector st')"
    and "top_t0 st' = (if sec_to_ns (ucast (cfg_window_sec cfg)) > 0 \<and> it_now i - top_t0 st \<ge> sec_to_ns (ucast (cfg_window_sec cfg))
         then it_now i else top_t0 st)"
proof -
  obtain c agg where p: "fold handle_event (it_recs i) (top_collector st, top_agg st) = (c, agg)" by fastforce
  then have "running c" using running_handled [of "it_recs i" "top_collector st" "top_agg st"] assms(2) by simp
  moreover obtain st1 where "top_redraw draw i (st\<lparr>top_collector := c, top_agg := agg\<rparr>) = Some st1"
    "st' = top_window cfg (it_now i) st1"
    using assms p by (auto simp: top_turn_def poll_running)
  moreover from this(1) have "top_collector st1 = c" "top_t0 st1 = top_t0 st"
    by (auto simp: top_redraw_def split: if_splits)
  ultimately show "running (top_collector st')"
    and "top_t0 st' = (if sec_to_ns (ucast (cfg_window_sec cfg)) > 0 \<and> it_now i - top_t0 st \<ge> sec_to_ns (ucast (cfg_window_sec cfg))
         then it_now i else top_t0 st)"
    by (auto simp: top_window_def Let_def)
qed

lemma unat_sec_to_ns: "unat (sec_to_ns (ucast (d :: u32))) = unat d * 1000000000"
proof -
  have d: "unat d < 2 ^ 32" using unsigned_less [of d, where ?'a = nat] by simp
  then have "unat (ucast d :: u64) = unat d"
    by (simp add: unsigned_ucast_eq take_bit_nat_eq_self)
  moreover have "unat d * 1000000000 < 2 ^ 64" using d by simp
  ultimately show ?thesis by (simp add: sec_to_ns_def unat_word_ariths)
qed

text \<open>
  C28: the windowed commands do not honour the duration when it exceeds the window and the window
  is positive: they compare
  the time since the window began with it, and the window begins anew before that can happen. If
  the two clock readings of a turn are less than the difference of duration and window apart, no
  sequence of turns without a shutdown request, however long, ends the command.
\<close>

theorem windowed_duration_ignored:
  assumes "0 < cfg_window_sec cfg"
    and "unat (cfg_window_sec cfg) * 1000000000 + gap \<le> unat (cfg_duration_sec cfg) * 1000000000"
    and "list_all (\<lambda>i. \<not> it_shutdown i \<and> unat (it_expiry_now i - it_now i) < gap) is"
    and "running (top_collector st)"
  shows "top_loop draw cfg is st \<noteq> Some (True, st')"
  using assms(3,4)
proof (induction "is" arbitrary: st)
  case Nil
  then show ?case by simp
next
  case (Cons i "is")
  let ?w = "sec_to_ns (ucast (cfg_window_sec cfg))"
  have w: "unat ?w = unat (cfg_window_sec cfg) * 1000000000" by (rule unat_sec_to_ns)
  then have pos: "0 < ?w" using assms(1) by (simp add: word_less_nat_alt)
  show ?case
  proof (cases "top_turn draw cfg i st")
    case None
    then show ?thesis using Cons.prems(1) by simp
  next
    case (Some st1)
    note turn = top_turn_running [OF Some Cons.prems(2)]
    have "it_now i - top_t0 st1 < ?w" using pos by (auto simp: turn(2))
    then have now: "unat (it_now i - top_t0 st1) < unat ?w" by (simp add: word_less_nat_alt)
    have "it_expiry_now i - top_t0 st1 = (it_expiry_now i - it_now i) + (it_now i - top_t0 st1)" by simp
    then have "unat (it_expiry_now i - top_t0 st1) \<le>
        unat (it_expiry_now i - it_now i) + unat (it_now i - top_t0 st1)"
      by (simp only: unat_word_ariths) simp
    also have "\<dots> < unat (sec_to_ns (ucast (cfg_duration_sec cfg)))"
      unfolding unat_sec_to_ns using now w assms(2) Cons.prems(1) by simp
    finally have "\<not> expired (it_expiry_now i) (top_t0 st1) (cfg_duration_sec cfg)"
      by (simp add: expired_def word_le_nat_alt)
    then show ?thesis using Cons.IH [OF _ turn(1)] Cons.prems(1) Some by simp
  qed
qed

theorem windowed_duration_ignored_witness:
  "\<exists>ks loader c. start_live (willing_world []) Config_init aggregate_callback = (ks, Inr (loader, c)) \<and>
     (\<forall>st. top_loop (\<lambda>i agg recv lost n. Some (n + 1)) (Config_init\<lparr>cfg_duration_sec := 6\<rparr>)
       (map (turn_at []) [1, 5000000001, 6000000001, 999000000000]) (top_start c 1 (0 :: nat)) \<noteq> Some (True, st))"
proof -
  obtain ks sk c where live: "start_live (willing_world []) Config_init aggregate_callback = (ks, Inr (Some sk, c))"
    using start_live_willing by blast
  have "running (top_collector (top_start c 1 (0 :: nat)))"
    using start_live_collector(1) [OF live] by (simp add: top_start_def)
  then have "top_loop (\<lambda>i agg recv lost n. Some (n + 1)) (Config_init\<lparr>cfg_duration_sec := 6\<rparr>)
       (map (turn_at []) [1, 5000000001, 6000000001, 999000000000]) (top_start c 1 (0 :: nat)) \<noteq> Some (True, st)" for st
    by (intro windowed_duration_ignored [where gap = 1]) (simp_all add: Config_init_def turn_at_def)
  then show ?thesis using live by blast
qed

end
