(* ===== verification/Symbolizer_Properties.thy ===== *)
theory Symbolizer_Properties
  imports Symbolizer
begin

text \<open>
  What the symbolizer returns: the caches are transparent, so a stack resolves to what a reference
  without state computes from the files; user frames name the nearest function of the file that is
  mapped at the address; kernel frames name the nearest text symbol of the kernel's table; the only
  failure is the trap on a malformed ELF section.
\<close>

section \<open>Reference without caches\<close>

definition mappings_of :: "Files \<Rightarrow> u32 \<Rightarrow> MemoryMapping list" where
  "mappings_of fs pid = (case fs_maps fs pid of
     None \<Rightarrow> [] | Some text \<Rightarrow> List.map_filter mapping_of_line (getlines text))"

definition elf_address :: "MemoryMapping \<Rightarrow> ElfInfo \<Rightarrow> u64 \<Rightarrow> u64" where
  "elf_address m info addr = addr - mm_start m + mm_offset m + ei_load_base info"

definition reference_user :: "Files \<Rightarrow> u32 \<Rightarrow> u64 \<Rightarrow> ResolvedFrame option" where
  "reference_user fs pid addr =
     (if addr = 0 then Some (mk_frame 0 ''[unknown]'' [] 0 False)
      else (case find_mapping (mappings_of fs pid) addr of
        None \<Rightarrow> Some (mk_frame addr (hex_addr addr) [] 0 False)
      | Some m \<Rightarrow> map_option (\<lambda>info.
          let v = elf_address m info addr; file = filename (mm_pathname m) in
          (case lookup_symbol (ei_symbols info) v of
             Some s \<Rightarrow> mk_frame addr (sym_name s) file (v - sym_addr s) True
           | None \<Rightarrow> mk_frame addr (hex_addr v) file v False))
          (parse_elf (fs_sort fs) (fs_elf fs (mm_pathname m)))))"

definition kernel_table :: "Files \<Rightarrow> KernelSymbol list" where
  "kernel_table fs = (case fs_kallsyms fs of
     None \<Rightarrow> []
   | Some text \<Rightarrow> fs_ksort fs (\<lambda>a b. ks_addr a < ks_addr b) (List.map_filter kernel_symbol_of_line (getlines text)))"

definition reference_kernel :: "Files \<Rightarrow> u64 \<Rightarrow> ResolvedFrame" where
  "reference_kernel fs addr =
     (let syms = kernel_table fs; i = upper_bound (\<lambda>a s. a < ks_addr s) addr syms in
      if addr = 0 then mk_frame 0 ''[unknown]'' ''[kernel]'' 0 False
      else if syms = [] \<or> i = 0 then mk_frame addr (hex_addr addr) ''[kernel]'' 0 False
      else mk_frame addr (ks_name (syms ! (i - 1))) ''[kernel]'' (addr - ks_addr (syms ! (i - 1))) True)"

definition reference_frame :: "Files \<Rightarrow> u32 \<Rightarrow> bool \<Rightarrow> u64 \<Rightarrow> ResolvedFrame option" where
  "reference_frame fs pid is_kernel addr =
     (if is_kernel then Some (reference_kernel fs addr) else reference_user fs pid addr)"

section \<open>Reachable states\<close>

text \<open>
  The states of a symbolizer whose caches were filled from the given files: other files may have been
  read before a \<open>clear_cache\<close>.
\<close>

inductive sym_reach :: "Files \<Rightarrow> Symbolizer \<Rightarrow> bool" where
  init: "sym_reach fs Symbolizer_init"
| stack: "sym_reach fs sy \<Longrightarrow> resolve_stack fs pid addrs is_kernel sy = Some (frames, sy') \<Longrightarrow> sym_reach fs sy'"
| clear: "sym_reach fs' sy \<Longrightarrow> sym_reach fs (clear_cache sy)"

abbreviation elf_entries :: "Symbolizer \<Rightarrow> nat" where
  "elf_entries sy \<equiv> length (ec_cache (sy_elf_cache sy))"

interpretation procs: memo_table "\<lambda>sy. map_of (sy_proc_cache sy)" "\<lambda>pid sy. Some (get_proc_maps fs pid sy)"
    "\<lambda>pid. Some (snd (maps_load (fs_maps fs pid) (ProcMaps_init pid)))" "\<lambda>sy. length (sy_proc_cache sy)"
  for fs
proof (unfold_locales, goal_cases)
  case (3 sy pid pm)
  then have "length (umap_upd pid (\<lambda>_. pm) pm (sy_proc_cache sy)) = Suc (length (sy_proc_cache sy))"
    by (simp add: length_umap_upd)
  with 3 show ?case by (auto simp: get_proc_maps_def umap_simps case_prod_beta Let_def)
qed (simp_all add: get_proc_maps_def)

definition sym_inv :: "Files \<Rightarrow> Symbolizer \<Rightarrow> bool" where
  "sym_inv fs sy \<longleftrightarrow>
     elf_inv (fs_sort fs) (fs_elf fs) (sy_elf_cache sy) \<and> ec_max_entries (sy_elf_cache sy) = 10000 \<and>
     procs.coherent fs sy \<and>
     sy_kallsyms sy = (if sy_kallsyms_loaded sy then kernel_table fs else [])"

lemma mappings_of_load: "pm_mappings (snd (maps_load (fs_maps fs pid) (ProcMaps_init pid))) = mappings_of fs pid"
  by (simp add: maps_load_def mappings_of_def ProcMaps_init_def Let_def split: option.split)

lemma get_proc_maps_inv:
  assumes "sym_inv fs sy" "get_proc_maps fs pid sy = (pm, sy')"
  shows "sym_inv fs sy' \<and> sy_elf_cache sy' = sy_elf_cache sy \<and> pm_mappings pm = mappings_of fs pid"
proof -
  have co: "procs.coherent fs sy" using assms(1) by (simp add: sym_inv_def)
  have "pm_mappings pm = mappings_of fs pid"
    using procs.load_computes [OF co, of pid] assms(2) mappings_of_load [of fs pid] by simp
  moreover have "procs.coherent fs sy'" using procs.load_coherent [OF co, of pid pm sy'] assms(2) by simp
  moreover have "sy_elf_cache sy' = sy_elf_cache sy" "sy_kallsyms sy' = sy_kallsyms sy"
    "sy_kallsyms_loaded sy' = sy_kallsyms_loaded sy"
    using assms(2) by (auto simp: get_proc_maps_def Let_def split: option.splits prod.splits)
  ultimately show ?thesis using assms(1) by (simp add: sym_inv_def)
qed

lemma get_info_resolve:
  assumes "elf_inv srt files c" "\<not> cache_full path c"
  shows "case parse_elf srt (files path) of
      None \<Rightarrow> get_info srt files path c = None
    | Some info \<Rightarrow> \<exists>c'. get_info srt files path c = Some (Some info, c') \<and> elf_inv srt files c' \<and>
        length (ec_cache c') \<le> Suc (length (ec_cache c)) \<and> ec_max_entries c' = ec_max_entries c \<and>
        (\<forall>v. elf_resolve srt files path v c' = Some (lookup_symbol (ei_symbols info) v, c'))"
proof -
  have load: "map_option fst (ensure_loaded srt files path c) = parse_elf srt (files path)"
    using assms(1) by (intro elf.load_computes) (simp add: elf_inv_def)
  show ?thesis
  proof (cases "ensure_loaded srt files path c")
    case None
    then show ?thesis using load assms(2) by (simp add: get_info_def flip: load)
  next
    case (Some x)
    then obtain info c' where ok: "ensure_loaded srt files path c = Some (info, c')" by (cases x) auto
    then have hit: "map_of (ec_cache c') path = Some info"
      by (auto simp: ensure_loaded_def umap_simps split: option.splits)
    have "elf_resolve srt files path v c' = Some (lookup_symbol (ei_symbols info) v, c')" for v
      using hit by (simp add: elf_resolve_def cache_full_def ensure_loaded_def)
    then show ?thesis
      using load ok assms(2) elf_inv_loaded [OF assms ok] elf.load_entries(1) [OF ok] max_entries_loaded [OF ok]
      by (simp add: get_info_def flip: load)
  qed
qed

lemma resolve_user_step:
  assumes "sym_inv fs sy"
  shows "case resolve_user fs pid addr sy of
      None \<Rightarrow> reference_user fs pid addr = None
    | Some (fr, sy') \<Rightarrow> sym_inv fs sy' \<and> elf_entries sy' \<le> Suc (elf_entries sy) \<and> rf_addr fr = addr \<and>
        (reference_user fs pid addr = Some fr \<or> \<not> rf_resolved fr \<and> 10000 \<le> elf_entries sy)"
proof -
  obtain pm sy1 where maps: "get_proc_maps fs pid sy = (pm, sy1)" by fastforce
  note inv = get_proc_maps_inv [OF assms maps]
  let ?c = "sy_elf_cache sy1"
  have c: "elf_inv (fs_sort fs) (fs_elf fs) ?c" "?c = sy_elf_cache sy" "ec_max_entries ?c = 10000"
    using inv by (auto simp: sym_inv_def)
  have upd: "sym_inv fs (sy1\<lparr>sy_elf_cache := c'\<rparr>)"
    if "elf_inv (fs_sort fs) (fs_elf fs) c'" "ec_max_entries c' = ec_max_entries ?c" for c'
    using conjunct1 [OF inv] that c(3) by (simp add: sym_inv_def procs.coherent_def)
  show ?thesis
  proof (cases "addr = 0 \<or> find_mapping (mappings_of fs pid) addr = None")
    case True
    then show ?thesis
      using assms inv maps by (auto simp: resolve_user_def reference_user_def maps_find_def mk_frame_def)
  next
    case False
    then obtain m where m: "find_mapping (mappings_of fs pid) addr = Some m" and nz: "addr \<noteq> 0" by auto
    show ?thesis
    proof (cases "cache_full (mm_pathname m) ?c")
      case True
      then have "10000 \<le> elf_entries sy" using c by (simp add: cache_full_def)
      then show ?thesis
        using True m nz maps inv c upd [OF c(1)]
        by (simp add: resolve_user_def maps_find_def get_info_def elf_resolve_def mk_frame_def Let_def)
    next
      case notfull: False
      show ?thesis
      proof (cases "parse_elf (fs_sort fs) (fs_elf fs (mm_pathname m))")
        case None
        then show ?thesis
          using get_info_resolve [OF c(1) notfull] m nz maps inv
          by (simp add: resolve_user_def reference_user_def maps_find_def)
      next
        case (Some info)
        then obtain c' where c': "get_info (fs_sort fs) (fs_elf fs) (mm_pathname m) ?c = Some (Some info, c')"
          "elf_inv (fs_sort fs) (fs_elf fs) c'" "length (ec_cache c') \<le> Suc (length (ec_cache ?c))"
          "ec_max_entries c' = ec_max_entries ?c"
          "\<And>v. elf_resolve (fs_sort fs) (fs_elf fs) (mm_pathname m) v c' = Some (lookup_symbol (ei_symbols info) v, c')"
          using get_info_resolve [OF c(1) notfull] by auto
        then show ?thesis
          using Some m nz maps conjunct2 [OF inv] upd [OF c'(2,4)]
          by (cases "lookup_symbol (ei_symbols info) (elf_address m info addr)")
            (simp_all add: resolve_user_def reference_user_def maps_find_def elf_address_def mk_frame_def Let_def)
      qed
    qed
  qed
qed

lemma resolve_kernel_step:
  assumes "sym_inv fs sy" "resolve_kernel fs addr sy = (fr, sy')"
  shows "sym_inv fs sy' \<and> sy_elf_cache sy' = sy_elf_cache sy \<and> fr = reference_kernel fs addr \<and> rf_addr fr = addr"
proof -
  have load: "sy_kallsyms (load_kallsyms fs sy) = kernel_table fs" "sym_inv fs (load_kallsyms fs sy)"
    "sy_elf_cache (load_kallsyms fs sy) = sy_elf_cache sy"
    using assms(1)
    by (cases "sy_kallsyms_loaded sy"; cases "fs_kallsyms fs";
        simp add: sym_inv_def load_kallsyms_def kernel_table_def procs.coherent_def)+
  then show ?thesis
    using assms by (cases "addr = 0") (auto simp: resolve_kernel_def reference_kernel_def Let_def mk_frame_def split: if_splits)
qed

lemma resolve_stack_step:
  assumes "sym_inv fs sy"
  shows "case resolve_stack fs pid addrs is_kernel sy of
      None \<Rightarrow> list_ex (\<lambda>a. reference_frame fs pid is_kernel a = None) addrs
    | Some (frames, sy') \<Rightarrow> sym_inv fs sy' \<and> map rf_addr frames = addrs \<and>
        list_all2 (\<lambda>a fr. reference_frame fs pid is_kernel a = Some fr \<or>
          \<not> is_kernel \<and> \<not> rf_resolved fr \<and> 10000 < elf_entries sy + length addrs) addrs frames"
  using assms
proof (induction addrs arbitrary: sy)
  case (Cons addr addrs)
  let ?one = "if is_kernel then Some (resolve_kernel fs addr sy) else resolve_user fs pid addr sy"
  have one: "case ?one of
      None \<Rightarrow> reference_frame fs pid is_kernel addr = None
    | Some (fr, sy') \<Rightarrow> sym_inv fs sy' \<and> elf_entries sy' \<le> Suc (elf_entries sy) \<and> rf_addr fr = addr \<and>
        (reference_frame fs pid is_kernel addr = Some fr \<or> \<not> is_kernel \<and> \<not> rf_resolved fr \<and> 10000 \<le> elf_entries sy)"
  proof (cases is_kernel)
    case True
    obtain fr sy' where k: "resolve_kernel fs addr sy = (fr, sy')" by fastforce
    show ?thesis using resolve_kernel_step [OF Cons.prems k] k True by (auto simp: reference_frame_def)
  next
    case False
    then show ?thesis
      using resolve_user_step [OF Cons.prems, of pid addr]
      by (simp add: reference_frame_def split: option.splits prod.splits)
  qed
  show ?case
  proof (cases ?one)
    case None
    then show ?thesis using one by simp
  next
    case (Some x)
    then obtain fr sy1 where x: "?one = Some (fr, sy1)" by (cases x) auto
    with one have 1: "sym_inv fs sy1" "elf_entries sy1 \<le> Suc (elf_entries sy)" "rf_addr fr = addr"
      "reference_frame fs pid is_kernel addr = Some fr \<or> \<not> is_kernel \<and> \<not> rf_resolved fr \<and> 10000 \<le> elf_entries sy"
      by auto
    show ?thesis
    proof (cases "resolve_stack fs pid addrs is_kernel sy1")
      case None
      then show ?thesis using Cons.IH [OF 1(1)] x by simp
    next
      case (Some y)
      then obtain frames sy2 where y: "resolve_stack fs pid addrs is_kernel sy1 = Some (frames, sy2)" by (cases y) auto
      let ?ok = "\<lambda>n a fr. reference_frame fs pid is_kernel a = Some fr \<or> \<not> is_kernel \<and> \<not> rf_resolved fr \<and> 10000 < n"
      have 2: "sym_inv fs sy2" "map rf_addr frames = addrs" "list_all2 (?ok (elf_entries sy1 + length addrs)) addrs frames"
        using Cons.IH [OF 1(1)] y by simp_all
      have "list_all2 (?ok (elf_entries sy + length (addr # addrs))) addrs frames"
        using 2(3) by (rule list_all2_mono) (use 1(2) in auto)
      moreover have "?ok (elf_entries sy + length (addr # addrs)) addr fr" using 1(4) by auto
      moreover have "resolve_stack fs pid (addr # addrs) is_kernel sy = Some (fr # frames, sy2)" using x y by simp
      ultimately show ?thesis using 2(1,2) 1(3) by (simp del: resolve_stack.simps)
    qed
  qed
qed simp

lemma sym_inv_init: "sym_inv fs Symbolizer_init"
  by (simp add: sym_inv_def Symbolizer_init_def elf_inv_def elf.coherent_def procs.coherent_def ElfCache_init_def)

lemma sym_inv_clear: "sym_inv fs' sy \<Longrightarrow> sym_inv fs (clear_cache sy)"
  by (simp add: sym_inv_def clear_cache_def elf_clear_def elf_inv_def elf.coherent_def procs.coherent_def)

lemma sym_reach_inv: "sym_reach fs sy \<Longrightarrow> sym_inv fs sy"
proof (induction rule: sym_reach.induct)
  case (stack fs sy pid addrs is_kernel frames sy')
  then show ?case using resolve_stack_step [OF stack.IH, of pid is_kernel addrs] by simp
qed (auto intro: sym_inv_init sym_inv_clear)

section \<open>Resolving a stack\<close>

text \<open>
  C13: while the ELF cache has room, resolving a stack gives frame by frame what a computation
  without any cache gives from the same files, traps included, whatever was resolved before and
  whatever files were read before the caches were last cleared.
\<close>

theorem resolve_stack_reference:
  assumes "sym_reach fs sy" "elf_entries sy + length addrs \<le> 10000"
  shows "map_option fst (resolve_stack fs pid addrs is_kernel sy) = those (map (reference_frame fs pid is_kernel) addrs)"
proof -
  have none: "those (map g xs) = None" if "list_ex (\<lambda>a. g a = None) xs" for g :: "u64 \<Rightarrow> ResolvedFrame option" and xs
    using that by (induction xs) (auto split: option.split)
  have some: "those (map g xs) = Some ys" if "list_all2 (\<lambda>a fr. g a = Some fr) xs ys"
    for g :: "u64 \<Rightarrow> ResolvedFrame option" and xs ys
    using that by (induction rule: list_all2_induct) auto
  show ?thesis
    using resolve_stack_step [OF sym_reach_inv [OF assms(1)], of pid is_kernel addrs] assms(2)
    by (cases "resolve_stack fs pid addrs is_kernel sy") (simp_all add: none case_prod_beta, use some in force)
qed

text \<open>
  C16: every stack resolves, one frame per address and in order, unresolved frames included, unless a
  user address is mapped to an ELF file with a symbol section of entry size zero; only then can the
  division by that size trap.
\<close>

theorem resolve_stack_total:
  assumes "sym_reach fs sy"
  shows "case resolve_stack fs pid addrs is_kernel sy of
      Some (frames, sy') \<Rightarrow> map rf_addr frames = addrs
    | None \<Rightarrow> \<not> is_kernel \<and> list_ex (\<lambda>a. \<exists>m f. find_mapping (mappings_of fs pid) a = Some m \<and>
        fs_elf fs (mm_pathname m) = Some f \<and> list_ex bad_section (ef_sections f)) addrs"
proof -
  have bad: "\<not> is_kernel \<and> (\<exists>m f. find_mapping (mappings_of fs pid) a = Some m \<and>
      fs_elf fs (mm_pathname m) = Some f \<and> list_ex bad_section (ef_sections f))"
    if "reference_frame fs pid is_kernel a = None" for a
    using that by (auto simp: reference_frame_def reference_user_def parse_elf_trap split: if_splits option.splits)
  show ?thesis
    using resolve_stack_step [OF sym_reach_inv [OF assms], of pid is_kernel addrs] bad
    by (cases "resolve_stack fs pid addrs is_kernel sy") (auto simp: list_ex_iff simp del: resolve_stack.simps, blast?)
qed

text \<open>
  When the translation is right: for a segment loaded with some bias, the translated address is the
  address in the file's own numbering exactly if the distance of the segment's address and offset is
  the load base.
\<close>

lemma elf_address_exact:
  assumes "mm_start m = bias + p_vaddr" "mm_offset m = p_offset"
  shows "elf_address m info (bias + x) = x \<longleftrightarrow> p_vaddr - p_offset = ei_load_base info"
  using assms by (auto simp: elf_address_def algebra_simps)

text \<open>
  C14: a user frame that is marked resolved names, in every reachable state, the function nearest to the address
  the code translates to: the address lies in an executable mapping of the process, it is translated to
  its offset in the mapped file plus the lowest address of the file's segments, and the frame names a
  function of the file, the one with the greatest start at or below the translated address, with the base
  name of the file and the distance to the function's start, which is below the function's size or 64 KiB.
  For a segment that was mapped with some bias, the translated address is the one in the file's own
  numbering exactly if the segment's address exceeds its offset by that lowest address.
\<close>

theorem resolve_user_sound:
  assumes "sym_reach fs sy" "std_sort (fs_sort fs)"
    and "resolve_user fs pid addr sy = Some (fr, sy')" "rf_resolved fr"
  shows "\<exists>m f syms s. m \<in> set (mappings_of fs pid) \<and> mm_start m \<le> addr \<and> addr < mm_end m \<and>
    fs_elf fs (mm_pathname m) = Some f \<and> all_symbols (ef_sections f) = Some syms \<and> s \<in> set syms \<and>
    (let base = min_vaddr (ef_phdrs f);
         v = addr - mm_start m + mm_offset m + (if base = - 1 then 0 else base) in
     sym_addr s \<le> v \<and> (\<forall>t \<in> set syms. sym_addr t \<le> v \<longrightarrow> sym_addr t \<le> sym_addr s) \<and>
     v - sym_addr s < max (sym_size s) 0x10000 \<and>
     fr = mk_frame addr (sym_name s) (filename (mm_pathname m)) (v - sym_addr s) True \<and>
     (\<forall>bias p_vaddr p_offset x. mm_start m = bias + p_vaddr \<and> mm_offset m = p_offset \<and> addr = bias + x \<longrightarrow>
        (v = x \<longleftrightarrow> p_vaddr - p_offset = (if base = - 1 then 0 else base))))"
proof -
  have ref: "reference_user fs pid addr = Some fr"
    using resolve_user_step [OF sym_reach_inv [OF assms(1)], of pid addr] assms(3,4) by simp
  then obtain m where m: "find_mapping (mappings_of fs pid) addr = Some m"
    using assms(4) by (auto simp: reference_user_def mk_frame_def split: if_splits option.splits)
  then obtain info where info: "parse_elf (fs_sort fs) (fs_elf fs (mm_pathname m)) = Some info"
    using ref assms(4) by (auto simp: reference_user_def mk_frame_def split: if_splits)
  let ?v = "elf_address m info addr"
  obtain s where s: "lookup_symbol (ei_symbols info) ?v = Some s"
    and fr: "fr = mk_frame addr (sym_name s) (filename (mm_pathname m)) (?v - sym_addr s) True"
    using ref m info assms(4)
    by (auto simp: reference_user_def mk_frame_def Let_def split: if_splits option.splits)
  obtain f where f: "fs_elf fs (mm_pathname m) = Some f"
    using info s by (cases "fs_elf fs (mm_pathname m)") (auto simp: parse_elf_def ElfInfo_init_def lookup_symbol_def)
  obtain syms where syms: "all_symbols (ef_sections f) = Some syms"
    and base: "ei_load_base info = (if min_vaddr (ef_phdrs f) = - 1 then 0 else min_vaddr (ef_phdrs f))"
    using info f by (auto simp: parse_elf_def split: option.splits)
  have near: "s \<in> set syms \<and> sym_addr s \<le> ?v \<and> ?v - sym_addr s < max (sym_size s) 0x10000 \<and>
      (\<forall>t \<in> set syms. sym_addr t \<le> ?v \<longrightarrow> sym_addr t \<le> sym_addr s)"
    using lookup_symbol_nearest [OF assms(2) _ syms, of info ?v] info f s by simp
  have "m \<in> set (mappings_of fs pid) \<and> mm_start m \<le> addr \<and> addr < mm_end m"
    using m by (rule find_mapping_Some)
  moreover have "elf_address m info addr = x \<longleftrightarrow> p_vaddr - p_offset = ei_load_base info"
    if "mm_start m = bias + p_vaddr \<and> mm_offset m = p_offset \<and> addr = bias + x" for bias p_vaddr p_offset x
    using that elf_address_exact [of m bias p_vaddr p_offset info x] by simp
  ultimately show ?thesis
    using f syms near fr unfolding elf_address_def base Let_def by blast
qed

definition app_elf :: ElfFile where
  "app_elf = \<lparr>ef_type = 3, ef_phdrs = [Some (PT_LOAD, 0)], ef_sections = [Some \<lparr>es_type = SHT_SYMTAB,
     es_size = 48, es_entsize = 24, es_data = Some (\<lambda>i. if i = 0 then Some \<lparr>gs_type = STT_FUNC, gs_value = 0x1100,
       gs_size = 8, gs_name = Some ''main''\<rparr> else Some \<lparr>gs_type = STT_FUNC, gs_value = 0x1000,
       gs_size = 32, gs_name = Some ''_start''\<rparr>)\<rparr>]\<rparr>"

definition app_files :: Files where
  "app_files = \<lparr>fs_maps = (\<lambda>pid. Some (maps_line text_entry @ [CHR 0x0A])),
     fs_elf = (\<lambda>path. if path = ''/usr/bin/app'' then Some app_elf else None),
     fs_kallsyms = None, fs_sort = insertion_sort, fs_ksort = insertion_sort\<rparr>"

lemma app_mappings: "snd (maps_load (fs_maps app_files pid) (ProcMaps_init pid)) = \<lparr>pm_pid = pid, pm_mappings = [entry_mapping text_entry]\<rparr>"
proof -
  have wf: "maps_entry_wf text_entry" by (simp add: maps_entry_wf_def text_entry_def is_space_def)
  have "CHR 0x0A \<notin> set (maps_line text_entry)"
    using plain_maps_line [OF wf] by (auto simp: list_all_iff plain_char_def)
  then show ?thesis
    using mapping_of_entry [OF wf]
    by (simp add: maps_load_def app_files_def getlines_line map_filter_simps ProcMaps_init_def maps_entry_kept_def text_entry_def)
qed

lemma app_parsed:
  "parse_elf insertion_sort (Some app_elf) = Some \<lparr>ei_symbols =
     [\<lparr>sym_name = ''_start'', sym_addr = 0x1000, sym_size = 32\<rparr>, \<lparr>sym_name = ''main'', sym_addr = 0x1100, sym_size = 8\<rparr>],
     ei_load_base = 0, ei_is_pie = True\<rparr>"
  by code_simp

lemma app_reference:
  "reference_user app_files 7 0x400104 = Some (mk_frame 0x400104 ''main'' ''app'' 4 True)"
proof -
  have "mappings_of app_files 7 = [entry_mapping text_entry]"
    unfolding mappings_of_load [symmetric] app_mappings by simp
  moreover have "parse_elf (fs_sort app_files) (fs_elf app_files (mm_pathname (entry_mapping text_entry))) =
      parse_elf insertion_sort (Some app_elf)"
    by (simp add: app_files_def entry_mapping_def)
  moreover have "lookup_symbol [\<lparr>sym_name = ''_start'', sym_addr = 0x1000, sym_size = 32\<rparr>,
      \<lparr>sym_name = ''main'', sym_addr = 0x1100, sym_size = 8\<rparr>] 0x1104 = Some \<lparr>sym_name = ''main'', sym_addr = 0x1100, sym_size = 8\<rparr>"
    by code_simp
  ultimately show ?thesis
    by (simp add: reference_user_def entry_mapping_def elf_address_def Let_def filename_def app_parsed) (simp add: text_entry_def)
qed

theorem resolve_stack_reference_witness:
  "map_option fst (resolve_stack app_files 7 [0x400104, 0] False Symbolizer_init) =
     Some [mk_frame 0x400104 ''main'' ''app'' 4 True, mk_frame 0 ''[unknown]'' [] 0 False]"
proof -
  have "reference_user app_files 7 0 = Some (mk_frame 0 ''[unknown]'' [] 0 False)" by (simp add: reference_user_def)
  moreover have "elf_entries Symbolizer_init + length [0x400104 :: u64, 0] \<le> 10000"
    by (simp add: Symbolizer_init_def ElfCache_init_def)
  ultimately show ?thesis
    using resolve_stack_reference [OF sym_reach.init, of "[0x400104, 0]" app_files 7 False]
    by (simp add: reference_frame_def app_reference del: resolve_stack.simps)
qed

theorem resolve_stack_total_witness:
  "\<exists>frames sy'. resolve_stack app_files 7 [0x400104, 0] False Symbolizer_init = Some (frames, sy') \<and>
     map rf_addr frames = [0x400104, 0]"
proof -
  have "\<not> list_ex bad_section (ef_sections app_elf)" by (simp add: app_elf_def bad_section_def)
  then have "\<not> list_ex bad_section (ef_sections f)" if "fs_elf app_files p = Some f" for p f
    using that by (auto simp: app_files_def split: if_splits)
  then show ?thesis
    using resolve_stack_total [OF sym_reach.init, where fs = app_files and is_kernel = False and addrs = "[0x400104, 0]" and pid = 7]
    by (auto simp del: resolve_stack.simps split: option.splits prod.splits)
qed

theorem resolve_user_sound_witness:
  "\<exists>fr sy'. resolve_user app_files 7 0x400104 Symbolizer_init = Some (fr, sy') \<and> rf_resolved fr \<and>
     (\<exists>m \<in> set (mappings_of app_files 7). mm_start m \<le> 0x400104 \<and> 0x400104 < mm_end m)"
proof -
  have "case resolve_user app_files 7 0x400104 Symbolizer_init of None \<Rightarrow> False | Some (fr, sy') \<Rightarrow> rf_resolved fr"
    using resolve_user_step [OF sym_inv_init, of app_files 7 "0x400104"] app_reference
    by (auto simp: mk_frame_def Symbolizer_init_def ElfCache_init_def split: option.splits)
  then obtain fr sy' where ok: "resolve_user app_files 7 0x400104 Symbolizer_init = Some (fr, sy')" "rf_resolved fr"
    by (auto split: option.splits)
  have "std_sort (fs_sort app_files)" using isort.std_sort_axioms by (simp add: app_files_def)
  from resolve_user_sound [OF sym_reach.init this ok] ok show ?thesis by blast
qed

section \<open>Kernel stacks\<close>

text \<open>A line of the kernel's table as it is printed: padded address, type, name and, behind a tab, a module.\<close>

record KernelEntry =
  ke_addr :: u64
  ke_type :: char
  ke_name :: string
  ke_module :: string
  ke_zeros :: nat

definition kallsyms_line :: "KernelEntry \<Rightarrow> string" where
  "kallsyms_line e = replicate (ke_zeros e) (CHR ''0'') @ hex_string (unat (ke_addr e)) @ '' '' @ [ke_type e] @ '' '' @
     ke_name e @ (if ke_module e = [] then [] else CHR 0x09 # ''['' @ ke_module e @ '']'')"

definition kernel_entry_wf :: "KernelEntry \<Rightarrow> bool" where
  "kernel_entry_wf e \<longleftrightarrow> ke_name e \<noteq> [] \<and> length (ke_name e) \<le> 255 \<and>
     list_all (\<lambda>c. \<not> is_space c \<and> c \<noteq> CHR 0x00) (ke_type e # ke_name e @ ke_module e)"

definition text_entries :: "KernelEntry list \<Rightarrow> KernelEntry list" where
  "text_entries es = filter (\<lambda>e. ke_addr e \<noteq> 0 \<and> (ke_type e = CHR ''T'' \<or> ke_type e = CHR ''t'')) es"

lemma plain_kallsyms_line:
  assumes "kernel_entry_wf e"
  shows "list_all plain_char (kallsyms_line e)"
proof -
  have "list_all plain_char (ke_name e)" "list_all plain_char (ke_module e)" "plain_char (ke_type e)"
    using assms by (auto simp: kernel_entry_wf_def list_all_iff plain_char_def is_space_def)
  moreover have "list_all plain_char (replicate k (CHR ''0''))" for k
    by (simp add: list_all_iff plain_char_def)
  ultimately show ?thesis
    unfolding kallsyms_line_def hex_string_def list_all_append
    by (simp add: plain_base_string plain_char_def)
qed

lemma kernel_symbol_of_entry:
  assumes "kernel_entry_wf e"
  shows "kernel_symbol_of_line (kallsyms_line e) =
    (if text_entries [e] = [] then None else Some \<lparr>ks_addr = ke_addr e, ks_name = ke_name e\<rparr>)"
proof -
  let ?mod = "if ke_module e = [] then [] else CHR 0x09 # ''['' @ ke_module e @ '']''"
  have wf: "ke_name e \<noteq> []" "length (ke_name e) \<le> 255" "list_all (\<lambda>c. \<not> is_space c) (ke_name e)" "\<not> is_space (ke_type e)"
    using assms by (auto simp: kernel_entry_wf_def list_all_iff)
  have "c_str (kallsyms_line e) = kallsyms_line e" using plain_kallsyms_line [OF assms] by (rule c_str_plain)
  moreover have "scan_ulong 16 (kallsyms_line e) = Some (ke_addr e, '' '' @ [ke_type e] @ '' '' @ ke_name e @ ?mod)"
    using scan_hex(1) [OF ends_number_simps(2) unat_less_u64, of "ke_zeros e" "ke_addr e" "[ke_type e] @ '' '' @ ke_name e @ ?mod"]
    unfolding kallsyms_line_def append_Cons append_Nil by simp
  moreover have "skip_ws ('' '' @ [ke_type e] @ '' '' @ ke_name e @ ?mod) = ke_type e # '' '' @ ke_name e @ ?mod"
    using wf(4) by (simp add: skip_ws_def)
  moreover have "scan_word 255 ('' '' @ ke_name e @ ?mod) = Some (ke_name e, ?mod)"
    by (rule scan_word_string) (use wf in \<open>auto simp: is_space_def\<close>)
  ultimately show ?thesis
    by (simp add: kernel_symbol_of_line_def text_entries_def)
qed

lemma kernel_table_entries:
  assumes "list_all kernel_entry_wf es" "std_sort (fs_ksort fs)"
    and "fs_kallsyms fs = Some (concat (map (\<lambda>e. kallsyms_line e @ [CHR 0x0A]) es))"
  shows "sorted_wrt (\<lambda>x y. \<not> ks_addr y < ks_addr x) (kernel_table fs)"
    and "set (kernel_table fs) = (\<lambda>e. \<lparr>ks_addr = ke_addr e, ks_name = ke_name e\<rparr>) ` set (text_entries es)"
proof -
  have lines: "getlines (concat (map (\<lambda>e. kallsyms_line e @ [CHR 0x0A]) es)) = map kallsyms_line es"
    using assms(1) plain_kallsyms_line by (intro getlines_concat) (fastforce simp: list_all_iff plain_char_def)
  have "List.map_filter kernel_symbol_of_line (map kallsyms_line es) =
      map (\<lambda>e. \<lparr>ks_addr = ke_addr e, ks_name = ke_name e\<rparr>) (text_entries es)"
    using assms(1) by (induction es) (auto simp: map_filter_simps kernel_symbol_of_entry text_entries_def)
  then have "kernel_table fs = fs_ksort fs (\<lambda>a b. ks_addr a < ks_addr b)
      (map (\<lambda>e. \<lparr>ks_addr = ke_addr e, ks_name = ke_name e\<rparr>) (text_entries es))"
    using lines assms(3) by (simp add: kernel_table_def)
  then show "sorted_wrt (\<lambda>x y. \<not> ks_addr y < ks_addr x) (kernel_table fs)"
    "set (kernel_table fs) = (\<lambda>e. \<lparr>ks_addr = ke_addr e, ks_name = ke_name e\<rparr>) ` set (text_entries es)"
    using std_sort.sort_ordered [OF assms(2) strict_weak_key, of ks_addr]
      std_sort.sort_set [OF assms(2) strict_weak_key, of ks_addr] by auto
qed

definition kernel_frame_ok :: "KernelEntry list \<Rightarrow> u64 \<Rightarrow> ResolvedFrame \<Rightarrow> bool" where
  "kernel_frame_ok es a fr \<longleftrightarrow>
     (if \<exists>e \<in> set (text_entries es). ke_addr e \<le> a
      then \<exists>e \<in> set (text_entries es). ke_addr e \<le> a \<and>
        (\<forall>e' \<in> set (text_entries es). ke_addr e' \<le> a \<longrightarrow> ke_addr e' \<le> ke_addr e) \<and>
        fr = mk_frame a (ke_name e) ''[kernel]'' (a - ke_addr e) True
      else rf_addr fr = a \<and> rf_binary fr = ''[kernel]'' \<and> \<not> rf_resolved fr)"

lemma reference_kernel_nearest:
  assumes "list_all kernel_entry_wf es" "std_sort (fs_ksort fs)"
    and "fs_kallsyms fs = Some (concat (map (\<lambda>e. kallsyms_line e @ [CHR 0x0A]) es))"
  shows "kernel_frame_ok es a (reference_kernel fs a)"
proof -
  let ?xs = "kernel_table fs" and ?u = "upper_bound (\<lambda>a s. a < ks_addr s) a (kernel_table fs)"
  note set = kernel_table_entries(2) [OF assms]
  note near = nearest_below [OF kernel_table_entries(1) [OF assms], where a = a]
  show ?thesis
  proof (cases "?u = 0")
    case True
    then have "\<forall>e \<in> set (text_entries es). a < ke_addr e" using near(1) unfolding set by fastforce
    then show ?thesis using True by (auto simp: kernel_frame_ok_def reference_kernel_def Let_def mk_frame_def not_le)
  next
    case False
    then obtain e where e: "e \<in> set (text_entries es)" "?xs ! (?u - 1) = \<lparr>ks_addr = ke_addr e, ks_name = ke_name e\<rparr>"
      using near(2) unfolding set by auto
    have le: "ke_addr e \<le> a" using near(3) [OF False] e(2) by simp
    have max: "ke_addr e' \<le> ke_addr e" if "e' \<in> set (text_entries es)" "ke_addr e' \<le> a" for e'
      using near(4) [OF False, of "\<lparr>ks_addr = ke_addr e', ks_name = ke_name e'\<rparr>"] e(2) that unfolding set by simp
    have "a \<noteq> 0" "?xs \<noteq> []" using le e(1) set by (auto simp: text_entries_def)
    then have "reference_kernel fs a = mk_frame a (ke_name e) ''[kernel]'' (a - ke_addr e) True"
      using False e(2) by (simp add: reference_kernel_def Let_def)
    then show ?thesis unfolding kernel_frame_ok_def using e(1) le max by auto
  qed
qed

lemma format_stack_lines:
  assumes "\<And>fr. fr \<in> set frames \<Longrightarrow> rf_resolved fr \<Longrightarrow> CHR 0x0A \<notin> set (rf_symbol fr) \<and> CHR 0x0A \<notin> set (rf_binary fr)"
  shows "getlines (format_stack frames) = map (\<lambda>i. format_frame (frames ! i) i) [0..<length frames]"
proof -
  have acc: "fold (\<lambda>i r. (r @ format_frame (frames ! i) i) @ [CHR 0x0A]) is r =
      r @ concat (map (\<lambda>i. format_frame (frames ! i) i @ [CHR 0x0A]) is)" for "is" r
    by (induction "is" arbitrary: r) simp_all
  have num: "CHR 0x0A \<notin> set (base_string b n)" if "2 \<le> b" "b \<le> 16" for b n
    using plain_base_string [OF that] by (auto simp: list_all_iff plain_char_def)
  have "CHR 0x0A \<notin> set (format_frame (frames ! i) i)" if "i < length frames" for i
    using assms [of "frames ! i"] that by (auto simp: format_frame_def to_string_def hex_string_def num)
  then show ?thesis
    unfolding format_stack_def acc append_Nil by (intro getlines_concat) simp
qed

text \<open>
  C15: a kernel stack resolves, in every reachable state and for any conforming sort, to one frame
  per address: the text symbol of the kernel's table with the greatest address at or below it and the
  distance to it, or an unresolved frame if there is none; printed, it is one line per frame.
\<close>

theorem resolve_kernel_stack:
  assumes "sym_reach fs sy" "list_all kernel_entry_wf es" "std_sort (fs_ksort fs)"
    and "fs_kallsyms fs = Some (concat (map (\<lambda>e. kallsyms_line e @ [CHR 0x0A]) es))"
  shows "\<exists>frames sy'. resolve_stack fs pid addrs True sy = Some (frames, sy') \<and>
    list_all2 (kernel_frame_ok es) addrs frames \<and>
    getlines (format_stack frames) = map (\<lambda>i. format_frame (frames ! i) i) [0..<length frames]"
proof -
  have step: "case resolve_stack fs pid addrs True sy of
      None \<Rightarrow> False | Some (frames, sy') \<Rightarrow> list_all2 (\<lambda>a fr. fr = reference_kernel fs a) addrs frames"
    using resolve_stack_step [OF sym_reach_inv [OF assms(1)], where pid = pid and addrs = addrs and is_kernel = True]
    by (auto simp: reference_frame_def list_ex_iff eq_commute [of "reference_kernel _ _"] split: option.splits)
  then obtain frames sy' where ok: "resolve_stack fs pid addrs True sy = Some (frames, sy')"
    and ref: "list_all2 (\<lambda>a fr. fr = reference_kernel fs a) addrs frames"
    by (auto split: option.splits)
  have frames: "list_all2 (kernel_frame_ok es) addrs frames"
    using ref by (rule list_all2_mono) (use reference_kernel_nearest [OF assms(2-4)] in simp)
  have "CHR 0x0A \<notin> set (rf_symbol fr) \<and> CHR 0x0A \<notin> set (rf_binary fr)"
    if h: "fr \<in> set frames" "rf_resolved fr" for fr
  proof -
    obtain a where "kernel_frame_ok es a fr" using frames h(1) by (auto simp: list_all2_conv_all_nth in_set_conv_nth)
    with h(2) obtain e where "e \<in> set es" "fr = mk_frame a (ke_name e) ''[kernel]'' (a - ke_addr e) True"
      by (auto simp: kernel_frame_ok_def text_entries_def split: if_splits)
    then show ?thesis
      using assms(2) by (auto simp: list_all_iff kernel_entry_wf_def mk_frame_def is_space_def)
  qed
  then show ?thesis using ok frames format_stack_lines by blast
qed

definition kernel_entries :: "KernelEntry list" where
  "kernel_entries = [
     \<lparr>ke_addr = 0xffffffff81000200, ke_type = CHR ''T'', ke_name = ''vfs_read'', ke_module = [], ke_zeros = 0\<rparr>,
     \<lparr>ke_addr = 0xffffffff81000300, ke_type = CHR ''d'', ke_name = ''jiffies'', ke_module = [], ke_zeros = 0\<rparr>,
     \<lparr>ke_addr = 0xffffffff81000100, ke_type = CHR ''t'', ke_name = ''nf_hook'', ke_module = ''nf'', ke_zeros = 0\<rparr>]"

theorem resolve_kernel_stack_witness:
  "\<exists>frames sy'. resolve_stack (app_files\<lparr>fs_kallsyms := Some (concat (map (\<lambda>e. kallsyms_line e @ [CHR 0x0A]) kernel_entries))\<rparr>)
      0 [0xffffffff81000310] True Symbolizer_init = Some (frames, sy') \<and>
    getlines (format_stack frames) = [''  #0 vfs_read ([kernel]+0x110)'']"
proof -
  let ?fs = "app_files\<lparr>fs_kallsyms := Some (concat (map (\<lambda>e. kallsyms_line e @ [CHR 0x0A]) kernel_entries))\<rparr>"
  have wf: "list_all kernel_entry_wf kernel_entries" by (simp add: kernel_entries_def kernel_entry_wf_def is_space_def)
  have "std_sort (fs_ksort ?fs)" using isort.std_sort_axioms by (simp add: app_files_def)
  then obtain frames sy' where r: "resolve_stack ?fs 0 [0xffffffff81000310] True Symbolizer_init = Some (frames, sy')"
    "list_all2 (kernel_frame_ok kernel_entries) [0xffffffff81000310] frames"
    "getlines (format_stack frames) = map (\<lambda>i. format_frame (frames ! i) i) [0..<length frames]"
    using resolve_kernel_stack [OF sym_reach.init wf, of ?fs 0 "[0xffffffff81000310]"] by auto
  have "frames = [mk_frame 0xffffffff81000310 ''vfs_read'' ''[kernel]'' 0x110 True]"
    using r(2) by (auto simp: list_all2_Cons1 kernel_frame_ok_def kernel_entries_def text_entries_def)
  moreover have "format_frame (mk_frame 0xffffffff81000310 ''vfs_read'' ''[kernel]'' 0x110 True) 0 = ''  #0 vfs_read ([kernel]+0x110)''"
    by code_simp
  ultimately show ?thesis using r(1,3) by auto
qed

end
