(* ===== verification/Windows.thy ===== *)
theory Windows
  imports Kscope_Prelude
begin

text \<open>
  Rolling windows (\<^verbatim>\<open>src/core/windows.cpp\<close>): the state, its operations, when a window is over, and
  what a caller must do for windows to rotate at all.
\<close>

record WindowManager =
  window_duration_ns :: u64
  window_start_ns :: u64
  max_windows :: u32
  window_count :: u32

definition WindowManager_init :: "u32 \<Rightarrow> u32 \<Rightarrow> WindowManager" where
  "WindowManager_init window_sec limit = \<lparr>window_duration_ns = ucast window_sec * 1000000000,
     window_start_ns = 0, max_windows = limit, window_count = 0\<rparr>"

definition should_rotate :: "u64 \<Rightarrow> WindowManager \<Rightarrow> bool" where
  "should_rotate current_ns w =
     (if window_start_ns w = 0 then False
      else current_ns - window_start_ns w \<ge> window_duration_ns w)"

definition rotate_window :: "u64 \<Rightarrow> WindowManager \<Rightarrow> WindowManager" where
  "rotate_window current_ns w = w\<lparr>window_start_ns := current_ns, window_count := window_count w + 1\<rparr>"

definition reset_windows :: "WindowManager \<Rightarrow> WindowManager" where
  "reset_windows w = w\<lparr>window_start_ns := 0, window_count := 0\<rparr>"

section \<open>Driving the windows\<close>

text \<open>The intended use: at every reading of the clock, rotate if the window is over.\<close>

definition tick :: "u64 \<Rightarrow> WindowManager \<Rightarrow> WindowManager" where
  "tick now w = (if should_rotate now w then rotate_window now w else w)"

lemma unat_window:
  "unat (ucast (sec :: u32) * 1000000000 :: u64) = unat sec * 1000000000"
proof -
  have "unat sec < 2 ^ 32" using unsigned_less [of sec, where ?'a = nat] by simp
  moreover have "unat (ucast sec :: u64) = unat sec"
    using calculation by (simp add: unsigned_ucast_eq take_bit_nat_eq_self)
  ultimately show ?thesis by (simp add: unat_word_ariths)
qed

lemma should_rotate_exact:
  assumes "window_duration_ns w = ucast (sec :: u32) * 1000000000" "window_start_ns w \<noteq> 0" "window_start_ns w \<le> now"
  shows "should_rotate now w \<longleftrightarrow> unat sec * 1000000000 \<le> unat now - unat (window_start_ns w)"
  using assms unat_window [of sec] by (simp add: should_rotate_def word_le_nat_alt unat_sub)

lemma tick_fresh: "window_start_ns w = 0 \<Longrightarrow> fold tick ts w = w"
  by (induction ts) (simp_all add: tick_def should_rotate_def)

text \<open>
  The starts a reference computes: a reading opens a new window exactly if the current one has
  lasted for the window length.
\<close>

fun window_starts :: "nat \<Rightarrow> nat \<Rightarrow> nat list \<Rightarrow> nat list" where
  "window_starts len start [] = []"
| "window_starts len start (t # ts) =
     (if len \<le> t - start then t # window_starts len t ts else window_starts len start ts)"

lemma fold_tick:
  assumes "window_duration_ns w = ucast (sec :: u32) * 1000000000" "window_start_ns w \<noteq> 0"
    and "sorted_wrt (\<le>) (window_start_ns w # ts)"
  shows "let starts = window_starts (unat sec * 1000000000) (unat (window_start_ns w)) (map unat ts); w' = fold tick ts w in
     unat (window_start_ns w') = last (unat (window_start_ns w) # starts) \<and>
     window_count w' = window_count w + of_nat (length starts)"
  using assms
proof (induction ts arbitrary: w)
  case (Cons t ts)
  have le: "window_start_ns w \<le> t" using Cons.prems(3) by simp
  then have nz: "t \<noteq> 0" using Cons.prems(2) by (auto simp: word_le_nat_alt unat_eq_0)
  note exact = should_rotate_exact [OF Cons.prems(1,2) le]
  show ?case
  proof (cases "should_rotate t w")
    case True
    have "sorted_wrt (\<le>) (window_start_ns (rotate_window t w) # ts)"
      using Cons.prems(3) by (simp add: rotate_window_def)
    from Cons.IH [OF _ _ this] True exact nz Cons.prems(1) show ?thesis
      by (simp add: tick_def rotate_window_def Let_def algebra_simps)
  next
    case False
    have "sorted_wrt (\<le>) (window_start_ns w # ts)" using Cons.prems(3) by simp
    from Cons.IH [OF Cons.prems(1,2) this] False exact show ?thesis by (simp add: tick_def Let_def)
  qed
qed simp

text \<open>
  Once a first window has been opened at a time other than 0, ticking with any non-decreasing
  readings of the clock opens a new window exactly at the readings that are at least the window length
  after the start of the current one, with no overflow for any 32-bit number of seconds; before that,
  or after a reset, ticking never opens one.
\<close>

lemma window_rotation:
  assumes "t0 \<noteq> 0" "sorted_wrt (\<le>) (t0 # ts)"
  shows "(let w = WindowManager_init sec limit;
              starts = window_starts (unat sec * 1000000000) (unat t0) (map unat ts);
              w' = fold tick ts (rotate_window t0 w) in
     unat (window_start_ns w') = last (unat t0 # starts) \<and> window_count w' = of_nat (Suc (length starts))) \<and>
     fold tick ts (WindowManager_init sec limit) = WindowManager_init sec limit \<and>
     fold tick ts (reset_windows w0) = reset_windows w0"
proof -
  have "let starts = window_starts (unat sec * 1000000000) (unat t0) (map unat ts);
            w' = fold tick ts (rotate_window t0 (WindowManager_init sec limit)) in
     unat (window_start_ns w') = last (unat t0 # starts) \<and> window_count w' = of_nat (Suc (length starts))"
    using fold_tick [of "rotate_window t0 (WindowManager_init sec limit)" sec ts] assms
    by (simp add: rotate_window_def WindowManager_init_def Let_def)
  then show ?thesis by (simp add: tick_fresh WindowManager_init_def reset_windows_def Let_def)
qed

end
