(* ===== verification/Tui.thy ===== *)
theory Tui
  imports Commands_Properties Reports Aggregator_Properties
begin

text \<open>
  The terminal UI (\<^verbatim>\<open>src/tui/\<close>). FTXUI is third-party code: an element is the tree of the library calls
  that build it, with the decorators in the order in which they are applied, and drawing it is not
  modelled. Its loop calls the two closures of the application, the renderer and the event handler, and lets the
  tab component write the selected tab; when it makes which call, and when it returns (an exit that was asked
  for, but also an interrupt key or a termination signal), is an argument. The application polls while it
  renders, so a session is a sequence of such calls.
\<close>

section \<open>Elements\<close>

datatype Color = RedLight | Red | Yellow | White | Cyan | Green | GrayDark | Blue | Black

datatype Element =
    Text string
  | Separator
  | Filler
  | HBox "Element list"
  | VBox "Element list"
  | Bold Element
  | Dim Element
  | Colored Color Element
  | BgColor Color Element
  | Width nat Element
  | Flex Element
  | Center Element

definition heading :: "string \<Rightarrow> Element" where
  "heading s = Colored Cyan (Bold (Text s))"

definition latency_color :: "u64 \<Rightarrow> Element \<Rightarrow> Element" where
  "latency_color ns e =
     (if ns \<ge> 10000000000 then Bold (Colored RedLight e)
      else if ns \<ge> 1000000000 then Colored Red e
      else if ns \<ge> 100000000 then Colored Yellow e
      else if ns \<ge> 10000000 then Colored White e
      else Dim e)"

definition cell :: "nat \<Rightarrow> string \<Rightarrow> Element" where
  "cell w s = Width w (Text s)"

definition duration_cell :: "u64 \<Rightarrow> Element" where
  "duration_cell ns = cell 14 (format_duration_ns ns)"

definition header_row :: "(string \<times> nat) list \<Rightarrow> Element" where
  "header_row cols = Colored Cyan (Bold (HBox (map (\<lambda>(s, w). cell w s) cols)))"

text \<open>Header, separator, rows, and a note when there are none.\<close>

definition table_rows :: "(string \<times> nat) list \<Rightarrow> Element list \<Rightarrow> Element list" where
  "table_rows cols rows =
     [header_row cols, Separator] @ rows @ (if rows = [] then [Dim (Text ''  (no data yet)'')] else [])"

definition tui_process_row :: "ProcessStats \<Rightarrow> Element" where
  "tui_process_row p = HBox [
     cell 8 (to_string (unat (ps_pid p))),
     Bold (cell 16 (ps_comm p)),
     latency_color (ps_total_syscall_ns p) (duration_cell (ps_total_syscall_ns p)),
     latency_color (ps_total_offcpu_ns p) (duration_cell (ps_total_offcpu_ns p)),
     latency_color (ps_max_latency_ns p) (duration_cell (ps_max_latency_ns p)),
     cell 8 (to_string (unat (ps_slow_event_count p))),
     duration_cell (percentile 95 (ps_latency_hist p))]"

definition render_process_table :: "ProcessStats list \<Rightarrow> Element" where
  "render_process_table ps = VBox (table_rows
     [(''PID'', 8), (''COMM'', 16), (''SYSCALL'', 14), (''OFFCPU'', 14), (''MAX'', 14), (''EVENTS'', 8), (''P95'', 14)]
     (map tui_process_row ps))"

definition tui_syscall_row :: "SyscallStats \<Rightarrow> Element" where
  "tui_syscall_row s = HBox [
     Bold (cell 14 (syscall_name (ss_syscall_id s))),
     cell 10 (to_string (unat (ss_count s))),
     latency_color (ss_total_ns s) (duration_cell (ss_total_ns s)),
     duration_cell (average_ns s),
     duration_cell (percentile 95 (ss_latency_hist s)),
     latency_color (ss_max_ns s) (duration_cell (ss_max_ns s)),
     cell 6 (to_string (card (ss_affected_pids s)))]"

definition render_syscall_table :: "SyscallStats list \<Rightarrow> Element" where
  "render_syscall_table scs = VBox (table_rows
     [(''SYSCALL'', 14), (''COUNT'', 10), (''TOTAL'', 14), (''AVG'', 14), (''P95'', 14), (''MAX'', 14), (''PIDS'', 6)]
     (map tui_syscall_row scs))"

section \<open>Screens\<close>

definition lost_style :: "'s Collector \<Rightarrow> Element \<Rightarrow> Element" where
  "lost_style c e = (if events_lost c > 0 then Bold (Colored Red e) else Colored Green e)"

definition render_overview :: "Orders \<Rightarrow> Aggregator \<Rightarrow> 's Collector \<Rightarrow> Element" where
  "render_overview od agg c =
     (let ps = top_processes (or_psrt od) (or_piter od) 5 TotalLatency agg;
          scs = top_syscalls (or_ssrt od) (or_siter od) 5 agg in
      VBox [
        HBox [Dim (Text ''Events: ''), Bold (Text (to_string (unat (total_events agg)))),
              Dim (Text ''  received: ''), Text (to_string (unat (events_received c))),
              Dim (Text ''  lost: ''), lost_style c (Text (to_string (unat (events_lost c))))],
        Separator, heading '' Top Processes'', render_process_table ps,
        Separator, heading '' Top Syscalls'', render_syscall_table scs])"

definition render_processes :: "Orders \<Rightarrow> Aggregator \<Rightarrow> Config \<Rightarrow> Element" where
  "render_processes od agg cfg =
     VBox [heading ('' Processes '' @ em_dash @ '' sorted by total latency''), Separator,
       render_process_table (top_processes (or_psrt od) (or_piter od) (unat (cfg_top_n cfg)) TotalLatency agg)]"

definition tui_thread_row :: "ThreadStats \<Rightarrow> Element" where
  "tui_thread_row t = HBox [
     cell 8 (to_string (unat (ts_pid t))), cell 8 (to_string (unat (ts_tid t))), Bold (cell 16 (ts_comm t)),
     duration_cell (ts_total_syscall_ns t), duration_cell (ts_total_offcpu_ns t), duration_cell (ts_max_latency_ns t),
     cell 8 (to_string (unat (ts_slow_event_count t)))]"

definition render_threads :: "Orders \<Rightarrow> Aggregator \<Rightarrow> Config \<Rightarrow> Element" where
  "render_threads od agg cfg =
     (let ths = top_threads (or_tsrt od) (or_titer od) (unat (cfg_top_n cfg)) TotalLatency agg in
      VBox [heading ('' Threads '' @ em_dash @ '' sorted by total latency''), Separator,
        VBox (table_rows
          [(''PID'', 8), (''TID'', 8), (''COMM'', 16), (''SYSCALL'', 14), (''OFFCPU'', 14), (''MAX'', 14), (''EVENTS'', 8)]
          (map tui_thread_row ths))])"

definition render_syscalls :: "Orders \<Rightarrow> Aggregator \<Rightarrow> Config \<Rightarrow> Element" where
  "render_syscalls od agg cfg =
     VBox [heading ('' Syscalls '' @ em_dash @ '' sorted by total time''), Separator,
       render_syscall_table (top_syscalls (or_ssrt od) (or_siter od) (unat (cfg_top_n cfg)) agg)]"

text \<open>
  The stack screen resolves every stack with pid 0. As in the printed report, \<open>fd\<close> and \<open>lookup\<close> are the
  stack map and \<open>None\<close> is the trap of the ELF parser.
\<close>

definition tui_stack_heading :: "nat \<Rightarrow> StackStats \<Rightarrow> Element" where
  "tui_stack_heading i st = HBox [
     Colored Cyan (Bold (Text (''#'' @ to_string (i + 1)))),
     Text (''  stack='' @ int_string (sint (st_stack_id st))),
     Text ''  total='', Bold (Text (format_duration_ns (st_total_ns st))),
     Text (''  count='' @ to_string (unat (st_count st))),
     Text ''  type='', Colored Yellow (Text (event_type_name (st_representative_type st)))]"

definition tui_frame_rows :: "ResolvedFrame list \<Rightarrow> Element list" where
  "tui_frame_rows frames =
     map (\<lambda>f. Colored (if rf_resolved (frames ! f) then White else GrayDark) (Text (''    '' @ format_frame (frames ! f) f)))
       [0..<min (length frames) 8] @
     (if length frames > 8 then [Dim (Text (''    ... +'' @ to_string (length frames - 8) @ '' more''))] else [])"

fun tui_stack_rows ::
  "Files \<Rightarrow> int \<Rightarrow> (u32 \<Rightarrow> u64 list option) \<Rightarrow> nat \<Rightarrow> StackStats list \<Rightarrow> Symbolizer \<Rightarrow> (Element list \<times> Symbolizer) option" where
  "tui_stack_rows fs fd lookup i [] sy = Some ([], sy)"
| "tui_stack_rows fs fd lookup i (st # sts) sy = do {
     let addrs = read_stack fd lookup (ucast (st_stack_id st));
     (frames, sy) \<leftarrow> resolve_stack fs 0 addrs (st_is_kernel st) sy;
     (rest, sy) \<leftarrow> tui_stack_rows fs fd lookup (Suc i) sts sy;
     Some (tui_stack_heading i st # tui_frame_rows frames @ [Separator] @ rest, sy)
   }"

definition render_hot_stacks ::
  "Orders \<Rightarrow> Files \<Rightarrow> int \<Rightarrow> (u32 \<Rightarrow> u64 list option) \<Rightarrow> Aggregator \<Rightarrow> Config \<Rightarrow> Symbolizer \<Rightarrow> (Element \<times> Symbolizer) option"
where
  "render_hot_stacks od fs fd lookup agg cfg sy = do {
     let sts = top_stacks (or_ksrt od) (or_kiter od) (unat (cfg_top_n cfg)) agg;
     (rows, sy) \<leftarrow> tui_stack_rows fs fd lookup 0 sts sy;
     let rows = (if sts = [] then [Dim (Text (''  (no stack data '' @ em_dash @ '' try --user-stacks or --kernel-stacks)''))] else []) @ rows;
     Some (VBox [heading ('' Hot Stacks '' @ em_dash @ '' sorted by attributed time''), Separator, VBox rows], sy)
   }"

definition make_row :: "string \<Rightarrow> string \<Rightarrow> (Element \<Rightarrow> Element) \<Rightarrow> Element" where
  "make_row label v style = HBox [Dim (Width 24 (Text (''  '' @ label))), style (Text v)]"

text \<open>\<open>active\<close> and \<open>sched\<close> are the two counts of the bridge.\<close>

definition render_diagnostics :: "Aggregator \<Rightarrow> 's Collector \<Rightarrow> u32 \<Rightarrow> u32 \<Rightarrow> Element" where
  "render_diagnostics agg c active sched = VBox [
     heading '' Diagnostics'', Separator, Bold (Text '' Pipeline''),
     make_row ''Total events:'' (to_string (unat (total_events agg))) Bold,
     make_row ''Events received:'' (to_string (unat (events_received c))) (\<lambda>e. e),
     make_row ''Events lost:'' (to_string (unat (events_lost c))) (lost_style c),
     Separator, Bold (Text '' BPF Maps''),
     make_row ''Active syscalls:'' (to_string (unat active)) (\<lambda>e. e),
     make_row ''Sched state entries:'' (to_string (unat sched)) (\<lambda>e. e)]"

section \<open>The application\<close>

record TuiState =
  tui_collector :: "Aggregator Collector"
  tui_agg :: Aggregator
  tui_sym :: Symbolizer
  tui_tab :: int
  tui_exited :: bool

text \<open>What one rendering reads from outside: the ring buffer, the files, the maps and the uptime in seconds.\<close>

record TuiInput =
  ti_recs :: "bytes list"
  ti_err :: int
  ti_files :: Files
  ti_stack_fd :: int
  ti_stack_lookup :: "u32 \<Rightarrow> u64 list option"
  ti_active :: u32
  ti_sched :: u32
  ti_secs :: nat

definition tab_names :: "string list" where
  "tab_names = ['' Overview '', '' Processes '', '' Threads '', '' Syscalls '', '' Stacks '', '' Diag '']"

definition render_content ::
  "Orders \<Rightarrow> Config \<Rightarrow> TuiInput \<Rightarrow> TuiState \<Rightarrow> (Element \<times> Symbolizer) option" where
  "render_content od cfg i st =
     (let agg = tui_agg st; c = tui_collector st; tab = tui_tab st in
      if tab = 0 then Some (render_overview od agg c, tui_sym st)
      else if tab = 1 then Some (render_processes od agg cfg, tui_sym st)
      else if tab = 2 then Some (render_threads od agg cfg, tui_sym st)
      else if tab = 3 then Some (render_syscalls od agg cfg, tui_sym st)
      else if tab = 4 then
        render_hot_stacks od (ti_files i) (ti_stack_fd i) (ti_stack_lookup i) agg cfg (tui_sym st)
      else if tab = 5 then Some (render_diagnostics agg c (ti_active i) (ti_sched i), tui_sym st)
      else Some (Text ''Unknown screen'', tui_sym st))"

definition uptime :: "nat \<Rightarrow> string" where
  "uptime secs = to_string (secs div 3600) @ '':'' @ zero_pad 2 (to_string (secs mod 3600 div 60)) @ '':'' @
     zero_pad 2 (to_string (secs mod 60))"

definition title_bar :: "nat \<Rightarrow> TuiState \<Rightarrow> Element" where
  "title_bar secs st = HBox [
     Colored White (BgColor Blue (Bold (Text '' KernelScope ''))), Text '' '', Dim (Text kVersion), Filler,
     Bold (Text (to_string (unat (total_events (tui_agg st))))), Dim (Text '' events''), Text ''  '',
     (let e = Text (to_string (unat (events_lost (tui_collector st)))) in
      if events_lost (tui_collector st) > 0 then Bold (Colored Red e) else Dim e),
     Dim (Text '' lost''), Text ''  '', Dim (Text (uptime secs)), Text '' '']"

definition tab_bar :: "int \<Rightarrow> Element" where
  "tab_bar tab =
     fold (\<lambda>i bar. let label = Text (tab_names ! i);
                       label = (if int i = tab then Colored Black (BgColor Cyan (Bold label)) else Dim label)
                   in HBox [bar, label, Text '' ''])
       [0..<length tab_names] (HBox [])"

definition status_bar :: "Config \<Rightarrow> Element" where
  "status_bar cfg = HBox [
     Colored Cyan (Bold (Text '' q'')), Dim (Text '':quit''), Text ''  '',
     Colored Cyan (Bold (Text ''1-6'')), Dim (Text '':screen''), Text ''  '',
     Colored Cyan (Bold (Text [CHR 0xE2, CHR 0x86, CHR 0x90, CHR 0xE2, CHR 0x86, CHR 0x92])), Dim (Text '':navigate''), Filler,
     (if cfg_pid cfg > 0 then HBox [Dim (Text ''PID:''), Bold (Text (to_string (unat (cfg_pid cfg)))), Text '' ''] else Text []),
     (if cfg_comm cfg \<noteq> [] then HBox [Dim (Text ''COMM:''), Bold (Text (cfg_comm cfg)), Text '' ''] else Text [])]"

definition tui_render :: "Orders \<Rightarrow> Config \<Rightarrow> TuiInput \<Rightarrow> TuiState \<Rightarrow> (Element \<times> TuiState) option" where
  "tui_render od cfg i st =
     (let (c, agg) = snd (poll (ti_recs i) (ti_err i) (tui_collector st, tui_agg st));
          st = st\<lparr>tui_collector := c, tui_agg := agg\<rparr> in
      map_option (\<lambda>(content, sy).
        (VBox [title_bar (ti_secs i) st, Center (tab_bar (tui_tab st)), Separator, Flex content, Separator, status_bar cfg],
         st\<lparr>tui_sym := sy\<rparr>))
        (render_content od cfg i st))"

text \<open>
  Input: \<open>Custom\<close> is the refresh event and \<open>Special\<close> any other, by the bytes the terminal sent: arrow keys, the
  interrupt key and so on. The handler says whether it has handled the event.
\<close>

datatype TuiEvent = Character char | Escape | Custom | Special string

definition tui_event :: "TuiEvent \<Rightarrow> TuiState \<Rightarrow> bool \<times> TuiState" where
  "tui_event ev st =
     (if ev = Character (CHR ''q'') \<or> ev = Escape then (True, st\<lparr>tui_exited := True\<rparr>)
      else case find (\<lambda>i. ev = Character (char_of (49 + i :: nat))) [0..<6] of
        Some i \<Rightarrow> (True, st\<lparr>tui_tab := int i\<rparr>)
      | None \<Rightarrow> (False, st))"

text \<open>
  What the library's loop does to the application: it calls the renderer, it calls the handler, and the tab
  component, which gets the events that were not handled, changes the tab. The result are the elements the renderer
  returned, which the library draws, and the state.
\<close>

datatype TuiCall = Render TuiInput | Input TuiEvent | Select int

fun tui_calls :: "Orders \<Rightarrow> Config \<Rightarrow> TuiCall list \<Rightarrow> TuiState \<Rightarrow> (Element list \<times> TuiState) option" where
  "tui_calls od cfg [] st = Some ([], st)"
| "tui_calls od cfg (Render i # ss) st = do {
     (e, st) \<leftarrow> tui_render od cfg i st;
     (es, st) \<leftarrow> tui_calls od cfg ss st;
     Some (e # es, st)
   }"
| "tui_calls od cfg (Input ev # ss) st = tui_calls od cfg ss (snd (tui_event ev st))"
| "tui_calls od cfg (Select t # ss) st = tui_calls od cfg ss (st\<lparr>tui_tab := t\<rparr>)"

definition tui_start :: "Aggregator Collector \<Rightarrow> TuiState" where
  "tui_start c = \<lparr>tui_collector = c, tui_agg = Aggregator_init, tui_sym = Symbolizer_init, tui_tab = 0, tui_exited = False\<rparr>"

text \<open>The refresh thread: while the flag it reads is set it sleeps and posts the refresh event.\<close>

fun refresh_posts :: "bool list \<Rightarrow> TuiEvent list" where
  "refresh_posts [] = []"
| "refresh_posts (refresh_running # rs) = (if refresh_running then Custom # refresh_posts rs else [])"

text \<open>
  A run: \<open>ss\<close> are the calls made so far, \<open>returned\<close> tells whether the library's loop has returned after them. Then the
  flag of the refresh thread is cleared, the thread joined and the collector stopped.
\<close>

definition tui_run ::
  "'k World \<Rightarrow> TuiCall list \<Rightarrow> bool \<Rightarrow> Config \<Rightarrow> (Outcome \<times> Element list \<times> TuiState option) progress" where
  "tui_run w ss returned cfg =
     (case start_live w cfg aggregate_callback of
        (ks, Inl e) \<Rightarrow> Exited (failed ks e, [], None)
      | (ks, Inr (loader, c)) \<Rightarrow>
          (case tui_calls (w_orders w) cfg ss (tui_start c) of
             None \<Rightarrow> Aborted
           | Some (frames, st) \<Rightarrow>
               if returned then
                 Exited (\<lparr>out_code = 0, out_stdout = [], out_log = ks, out_file = None\<rparr>, frames,
                   Some (st\<lparr>tui_collector := collector_stop (tui_collector st)\<rparr>))
               else Running))"

section \<open>What is on the screen\<close>

text \<open>The texts of an element, from left to right and top to bottom.\<close>

primrec words :: "Element \<Rightarrow> string list" where
  "words (Text s) = [s]"
| "words Separator = []"
| "words Filler = []"
| "words (HBox es) = concat (map words es)"
| "words (VBox es) = concat (map words es)"
| "words (Bold e) = words e"
| "words (Dim e) = words e"
| "words (Colored c e) = words e"
| "words (BgColor c e) = words e"
| "words (Width n e) = words e"
| "words (Flex e) = words e"
| "words (Center e) = words e"

text \<open>
  The reference: the texts that each screen has to show, written down from the records polled so far. The title
  has the number of events and of records lost; a table has its column titles and a row per entry, or a note.
\<close>

definition lost_of :: "bytes list \<Rightarrow> u64" where
  "lost_of recs = of_nat (length recs - length (decoded recs))"

definition number :: "'n :: len word \<Rightarrow> string" where
  "number n = to_string (unat n)"

definition frame_title :: "nat \<Rightarrow> bytes list \<Rightarrow> string list" where
  "frame_title secs recs =
     ['' KernelScope '', '' '', kVersion, number (of_nat (length (decoded recs)) :: u64), '' events'', ''  '', number (lost_of recs),
      '' lost'', ''  '', uptime secs, '' '',
      '' Overview '', '' '', '' Processes '', '' '', '' Threads '', '' '', '' Syscalls '', '' '', '' Stacks '', '' '', '' Diag '', '' '']"

definition frame_status :: "Config \<Rightarrow> string list" where
  "frame_status cfg =
     ['' q'', '':quit'', ''  '', ''1-6'', '':screen'', ''  '', [CHR 0xE2, CHR 0x86, CHR 0x90, CHR 0xE2, CHR 0x86, CHR 0x92], '':navigate''] @
     (if cfg_pid cfg = 0 then [[]] else [''PID:'', number (cfg_pid cfg), '' '']) @
     (if cfg_comm cfg = [] then [[]] else [''COMM:'', cfg_comm cfg, '' ''])"

definition table_words :: "string list \<Rightarrow> string list list \<Rightarrow> string list" where
  "table_words titles rows = titles @ (if rows = [] then [''  (no data yet)''] else concat rows)"

definition process_words :: "ProcessStats list \<Rightarrow> string list" where
  "process_words ps = table_words [''PID'', ''COMM'', ''SYSCALL'', ''OFFCPU'', ''MAX'', ''EVENTS'', ''P95'']
     (map (\<lambda>p. [number (ps_pid p), ps_comm p, format_duration_ns (ps_total_syscall_ns p), format_duration_ns (ps_total_offcpu_ns p),
        format_duration_ns (ps_max_latency_ns p), number (ps_slow_event_count p), format_duration_ns (percentile 95 (ps_latency_hist p))]) ps)"

definition thread_words :: "ThreadStats list \<Rightarrow> string list" where
  "thread_words ths = table_words [''PID'', ''TID'', ''COMM'', ''SYSCALL'', ''OFFCPU'', ''MAX'', ''EVENTS'']
     (map (\<lambda>t. [number (ts_pid t), number (ts_tid t), ts_comm t, format_duration_ns (ts_total_syscall_ns t),
        format_duration_ns (ts_total_offcpu_ns t), format_duration_ns (ts_max_latency_ns t), number (ts_slow_event_count t)]) ths)"

definition syscall_words :: "SyscallStats list \<Rightarrow> string list" where
  "syscall_words scs = table_words [''SYSCALL'', ''COUNT'', ''TOTAL'', ''AVG'', ''P95'', ''MAX'', ''PIDS'']
     (map (\<lambda>s. [syscall_name (ss_syscall_id s), number (ss_count s), format_duration_ns (ss_total_ns s), format_duration_ns (average_ns s),
        format_duration_ns (percentile 95 (ss_latency_hist s)), format_duration_ns (ss_max_ns s), to_string (card (ss_affected_pids s))]) scs)"

text \<open>A stack: its heading and up to eight of its frames.\<close>

definition stack_words :: "nat \<times> StackStats \<Rightarrow> ResolvedFrame list \<Rightarrow> string list" where
  "stack_words p frames = (case p of (i, st) \<Rightarrow>
     [''#'' @ to_string (i + 1), ''  stack='' @ int_string (sint (st_stack_id st)), ''  total='', format_duration_ns (st_total_ns st),
      ''  count='' @ number (st_count st), ''  type='', event_type_name (st_representative_type st)] @
     map (\<lambda>f. ''    '' @ format_frame (frames ! f) f) [0..<min (length frames) 8] @
     (if length frames > 8 then [''    ... +'' @ to_string (length frames - 8) @ '' more''] else []))"

definition screen_shows :: "Orders \<Rightarrow> Config \<Rightarrow> TuiInput \<Rightarrow> int \<Rightarrow> bytes list \<Rightarrow> string list \<Rightarrow> bool" where
  "screen_shows od cfg i tab recs ws \<longleftrightarrow>
     (let agg = aggregate (map classified (decoded recs)); n = unat (cfg_top_n cfg);
          received = number (of_nat (length (decoded recs)) :: u64); lost = number (lost_of recs) in
      if tab = 0 then ws = [''Events: '', received, ''  received: '', received, ''  lost: '', lost, '' Top Processes''] @
        process_words (top_processes (or_psrt od) (or_piter od) 5 TotalLatency agg) @ [ '' Top Syscalls''] @
        syscall_words (top_syscalls (or_ssrt od) (or_siter od) 5 agg)
      else if tab = 1 then ws = ('' Processes '' @ em_dash @ '' sorted by total latency'') #
        process_words (top_processes (or_psrt od) (or_piter od) n TotalLatency agg)
      else if tab = 2 then ws = ('' Threads '' @ em_dash @ '' sorted by total latency'') #
        thread_words (top_threads (or_tsrt od) (or_titer od) n TotalLatency agg)
      else if tab = 3 then ws = ('' Syscalls '' @ em_dash @ '' sorted by total time'') #
        syscall_words (top_syscalls (or_ssrt od) (or_siter od) n agg)
      else if tab = 4 then (let sts = top_stacks (or_ksrt od) (or_kiter od) n agg in
        \<exists>frss. map (map rf_addr) frss = map (\<lambda>st. read_stack (ti_stack_fd i) (ti_stack_lookup i) (ucast (st_stack_id st))) sts \<and>
          ws = ('' Hot Stacks '' @ em_dash @ '' sorted by attributed time'') #
            (if sts = [] then [''  (no stack data '' @ em_dash @ '' try --user-stacks or --kernel-stacks)''] else []) @
            concat (map2 stack_words (enumerate 0 sts) frss))
      else if tab = 5 then ws = ['' Diagnostics'', '' Pipeline'', ''  Total events:'', received, ''  Events received:'', received,
        ''  Events lost:'', lost, '' BPF Maps'', ''  Active syscalls:'', number (ti_active i), ''  Sched state entries:'', number (ti_sched i)]
      else ws = [''Unknown screen''])"

definition frame_shows :: "Orders \<Rightarrow> Config \<Rightarrow> TuiInput \<Rightarrow> int \<Rightarrow> bytes list \<Rightarrow> Element \<Rightarrow> bool" where
  "frame_shows od cfg i tab recs e \<longleftrightarrow>
     (\<exists>ws. words e = frame_title (ti_secs i) recs @ ws @ frame_status cfg \<and> screen_shows od cfg i tab recs ws)"

text \<open>The tab selected and the records polled after a sequence of calls.\<close>

fun tab_after :: "TuiCall list \<Rightarrow> int \<Rightarrow> int" where
  "tab_after [] t = t"
| "tab_after (Render i # ss) t = tab_after ss t"
| "tab_after (Select u # ss) t = tab_after ss u"
| "tab_after (Input ev # ss) t = tab_after ss
     (case ev of Character k \<Rightarrow> (case map_of (zip ''123456'' [0, 1, 2, 3, 4, 5]) k of None \<Rightarrow> t | Some u \<Rightarrow> u) | _ \<Rightarrow> t)"

fun call_recs :: "TuiCall \<Rightarrow> bytes list" where
  "call_recs (Render i) = ti_recs i"
| "call_recs _ = []"

definition polled_recs :: "TuiCall list \<Rightarrow> bytes list" where
  "polled_recs ss = concat (map call_recs ss)"

definition renders :: "TuiCall list \<Rightarrow> nat" where
  "renders ss = length (filter (\<lambda>s. case s of Render i \<Rightarrow> True | _ \<Rightarrow> False) ss)"

definition quits :: "TuiCall \<Rightarrow> bool" where
  "quits s \<longleftrightarrow> s = Input (Character (CHR ''q'')) \<or> s = Input Escape"

section \<open>Rendering shows the reference\<close>

lemma words_latency [simp]: "words (latency_color ns e) = words e"
  by (simp add: latency_color_def)

lemma words_cells [simp]: "words (cell w s) = [s]" "words (duration_cell ns) = [format_duration_ns ns]" "words (heading s) = [s]"
  "words (lost_style c e) = words e"
  by (simp_all add: cell_def duration_cell_def heading_def lost_style_def)

lemma words_table_rows:
  "concat (map words (table_rows cols rows)) = table_words (map fst cols) (map words rows)"
  by (simp add: table_rows_def table_words_def header_row_def comp_def case_prod_beta)

lemma words_process_table: "words (render_process_table ps) = process_words ps"
  by (simp add: render_process_table_def words_table_rows process_words_def tui_process_row_def comp_def number_def)

lemma words_syscall_table: "words (render_syscall_table scs) = syscall_words scs"
  by (simp add: render_syscall_table_def words_table_rows syscall_words_def tui_syscall_row_def comp_def number_def)

lemma words_threads:
  "words (render_threads od agg cfg) = ('' Threads '' @ em_dash @ '' sorted by total latency'') #
     thread_words (top_threads (or_tsrt od) (or_titer od) (unat (cfg_top_n cfg)) TotalLatency agg)"
  by (simp add: render_threads_def words_table_rows thread_words_def tui_thread_row_def comp_def number_def Let_def)

lemma resolve_user_addr: "resolve_user fs pid addr sy = Some (fr, sy') \<Longrightarrow> rf_addr fr = addr"
  unfolding resolve_user_def Let_def case_prod_beta
  by (auto simp: mk_frame_def split: if_splits option.splits Option.bind_splits)

lemma resolve_kernel_addr: "rf_addr (fst (resolve_kernel fs addr sy)) = addr"
  by (simp add: resolve_kernel_def mk_frame_def Let_def)

lemma resolve_stack_addrs: "resolve_stack fs pid addrs is_kernel sy = Some (frames, sy') \<Longrightarrow> map rf_addr frames = addrs"
proof (induction addrs arbitrary: sy frames)
  case (Cons addr addrs)
  then obtain fr sy1 fs' where r: "(if is_kernel then Some (resolve_kernel fs addr sy) else resolve_user fs pid addr sy) = Some (fr, sy1)"
    "resolve_stack fs pid addrs is_kernel sy1 = Some (fs', sy')" "frames = fr # fs'"
    by (auto split: Option.bind_splits if_splits)
  have "rf_addr fr = addr"
    using r(1) resolve_user_addr resolve_kernel_addr [of fs addr sy] by (auto split: if_splits)
  then show ?case using Cons.IH [OF r(2)] r(3) by simp
qed simp

lemma tui_stack_rows_words:
  assumes "tui_stack_rows fs fd lookup i sts sy = Some (rows, sy')"
  shows "\<exists>frss. map (map rf_addr) frss = map (\<lambda>st. read_stack fd lookup (ucast (st_stack_id st))) sts \<and>
    concat (map words rows) = concat (map2 stack_words (enumerate i sts) frss)"
  using assms
proof (induction sts arbitrary: i sy rows)
  case (Cons st sts)
  let ?addrs = "read_stack fd lookup (ucast (st_stack_id st))"
  obtain frames sy1 rest where r: "resolve_stack fs 0 ?addrs (st_is_kernel st) sy = Some (frames, sy1)"
    "tui_stack_rows fs fd lookup (Suc i) sts sy1 = Some (rest, sy')"
    "rows = tui_stack_heading i st # tui_frame_rows frames @ [Separator] @ rest"
    using Cons.prems by (auto simp: Let_def split: Option.bind_splits)
  obtain frss where frss: "map (map rf_addr) frss = map (\<lambda>st. read_stack fd lookup (ucast (st_stack_id st))) sts"
    "concat (map words rest) = concat (map2 stack_words (enumerate (Suc i) sts) frss)"
    using Cons.IH [OF r(2)] by blast
  have "map rf_addr frames = ?addrs" using resolve_stack_addrs [OF r(1)] .
  then show ?case
    by (intro exI [of _ "frames # frss"])
       (simp add: frss r(3) stack_words_def tui_stack_heading_def tui_frame_rows_def number_def comp_def)
qed simp

text \<open>The state of a session in which the records \<open>recs\<close> have been polled.\<close>

definition session :: "bytes list \<Rightarrow> TuiState \<Rightarrow> bool" where
  "session recs st \<longleftrightarrow> running (tui_collector st) \<and> co_callback (tui_collector st) = Some aggregate_callback \<and>
     co_received (tui_collector st) = of_nat (length (decoded recs)) \<and> co_decode_errors (tui_collector st) = lost_of recs \<and>
     tui_agg st = aggregate (map classified (decoded recs))"

lemma lost_of_append: "lost_of (recs @ recs') = lost_of recs + of_nat (length recs' - length (decoded recs'))"
  using length_decoded [of recs] length_decoded [of recs'] by (simp add: lost_of_def decoded_append of_nat_diff)

lemma session_poll:
  assumes "session recs st" "snd (poll new err (tui_collector st, tui_agg st)) = (c, agg)"
  shows "session (recs @ new) (st\<lparr>tui_collector := c, tui_agg := agg\<rparr>)"
proof -
  have "fold handle_event new (tui_collector st, tui_agg st) = (c, agg)"
    using assms by (simp add: poll_running session_def)
  then show ?thesis
    using assms(1)
    by (auto simp: session_def handle_events running_def lost_of_append decoded_append call_Some
        fold_aggregate_callback aggregate_def)
qed

lemma session_totals:
  assumes "session recs st"
  shows "total_events (tui_agg st) = of_nat (length (decoded recs))" "events_received (tui_collector st) = of_nat (length (decoded recs))"
    "events_lost (tui_collector st) = lost_of recs"
  using assms total_events_aggregate by (simp_all add: session_def events_received_def events_lost_def)

lemma words_title:
  assumes "session recs st"
  shows "words (title_bar secs st) @ words (tab_bar t) = frame_title secs recs"
  by (simp add: title_bar_def tab_bar_def tab_names_def session_totals [OF assms] frame_title_def number_def upt_rec Let_def)

lemma words_status: "words (status_bar cfg) = frame_status cfg"
  by (simp add: status_bar_def frame_status_def number_def word_gt_0)

lemma screen_shows_stacks:
  "screen_shows od cfg i 4 recs ws \<longleftrightarrow>
     (let sts = top_stacks (or_ksrt od) (or_kiter od) (unat (cfg_top_n cfg)) (aggregate (map classified (decoded recs))) in
      \<exists>frss. map (map rf_addr) frss = map (\<lambda>st. read_stack (ti_stack_fd i) (ti_stack_lookup i) (ucast (st_stack_id st))) sts \<and>
        ws = ('' Hot Stacks '' @ em_dash @ '' sorted by attributed time'') #
          (if sts = [] then [''  (no stack data '' @ em_dash @ '' try --user-stacks or --kernel-stacks)''] else []) @
          concat (map2 stack_words (enumerate 0 sts) frss))"
  unfolding screen_shows_def Let_def by simp

lemma content_shows:
  assumes "session recs st" "render_content od cfg i st = Some (e, sy)"
  shows "screen_shows od cfg i (tui_tab st) recs (words e)"
proof -
  have agg: "tui_agg st = aggregate (map classified (decoded recs))" using assms(1) by (simp add: session_def)
  note total = session_totals [OF assms(1), unfolded agg]
  note tables = words_process_table words_syscall_table words_threads
  consider "tui_tab st = 0" | "tui_tab st = 1" | "tui_tab st = 2" | "tui_tab st = 3" | "tui_tab st = 4" | "tui_tab st = 5"
    | "tui_tab st \<notin> {0, 1, 2, 3, 4, 5}" by blast
  then show ?thesis
  proof cases
    case 5
    let ?sts = "top_stacks (or_ksrt od) (or_kiter od) (unat (cfg_top_n cfg)) (aggregate (map classified (decoded recs)))"
    obtain rows where rows: "tui_stack_rows (ti_files i) (ti_stack_fd i) (ti_stack_lookup i) 0 ?sts (tui_sym st) = Some (rows, sy)"
      "e = VBox [heading ('' Hot Stacks '' @ em_dash @ '' sorted by attributed time''), Separator,
        VBox ((if ?sts = [] then [Dim (Text (''  (no stack data '' @ em_dash @ '' try --user-stacks or --kernel-stacks)''))] else []) @ rows)]"
      using assms(2) 5 by (auto simp: render_content_def agg render_hot_stacks_def Let_def split: Option.bind_splits)
    obtain frss where "map (map rf_addr) frss = map (\<lambda>st. read_stack (ti_stack_fd i) (ti_stack_lookup i) (ucast (st_stack_id st))) ?sts"
      "concat (map words rows) = concat (map2 stack_words (enumerate 0 ?sts) frss)"
      using tui_stack_rows_words [OF rows(1)] by blast
    then show ?thesis unfolding 5 screen_shows_stacks Let_def by (intro exI [of _ frss]) (simp add: rows(2))
  qed (use assms(2) in \<open>auto simp: render_content_def screen_shows_def agg total render_overview_def render_processes_def
      render_syscalls_def tables render_diagnostics_def make_row_def number_def Let_def\<close>)
qed

section \<open>Sessions\<close>

lemma render_shows:
  assumes "session recs st" "tui_render od cfg i st = Some (e, st')"
  shows "frame_shows od cfg i (tui_tab st) (recs @ ti_recs i) e \<and> session (recs @ ti_recs i) st' \<and>
    tui_tab st' = tui_tab st \<and> tui_exited st' = tui_exited st"
proof -
  obtain c agg where p: "snd (poll (ti_recs i) (ti_err i) (tui_collector st, tui_agg st)) = (c, agg)" by fastforce
  let ?st = "st\<lparr>tui_collector := c, tui_agg := agg\<rparr>"
  obtain content sy where r: "render_content od cfg i ?st = Some (content, sy)" "st' = ?st\<lparr>tui_sym := sy\<rparr>"
    "e = VBox [title_bar (ti_secs i) ?st, Center (tab_bar (tui_tab st)), Separator, Flex content, Separator, status_bar cfg]"
    using assms(2) by (auto simp: tui_render_def p Let_def)
  have s: "session (recs @ ti_recs i) ?st" using session_poll [OF assms(1) p] .
  have "words e = frame_title (ti_secs i) (recs @ ti_recs i) @ words content @ frame_status cfg"
    using words_title [OF s, of "ti_secs i" "tui_tab st"] by (simp add: r(3) words_status flip: append_assoc)
  moreover have "screen_shows od cfg i (tui_tab st) (recs @ ti_recs i) (words content)"
    using content_shows [OF s r(1)] by simp
  ultimately show ?thesis using s by (auto simp: frame_shows_def r(2) session_def)
qed

lemma tui_event_fields:
  "tui_tab (snd (tui_event ev st)) = tab_after [Input ev] (tui_tab st)"
  "tui_exited (snd (tui_event ev st)) = (tui_exited st \<or> quits (Input ev))"
  "session recs (snd (tui_event ev st)) = session recs st"
proof -
  have digits: "map (\<lambda>i. char_of (49 + i :: nat)) [0..<6] = ''123456''" by code_simp
  show "tui_tab (snd (tui_event ev st)) = tab_after [Input ev] (tui_tab st)"
    using digits by (cases ev) (auto simp: tui_event_def upt_rec)
  show "tui_exited (snd (tui_event ev st)) = (tui_exited st \<or> quits (Input ev))" "session recs (snd (tui_event ev st)) = session recs st"
    by (auto simp: tui_event_def quits_def session_def split: option.split)
qed

lemma calls_show:
  assumes "session recs st" "tui_calls od cfg ss st = Some (frames, st')"
  shows "length frames = renders ss \<and> session (recs @ polled_recs ss) st' \<and> tui_tab st' = tab_after ss (tui_tab st) \<and>
    tui_exited st' = (tui_exited st \<or> list_ex quits ss) \<and>
    (\<forall>k i. k < length ss \<longrightarrow> ss ! k = Render i \<longrightarrow>
      frame_shows od cfg i (tab_after (take k ss) (tui_tab st)) (recs @ polled_recs (take (Suc k) ss)) (frames ! renders (take k ss)))"
  using assms
proof (induction ss arbitrary: recs st frames)
  case Nil
  then show ?case by (simp add: renders_def polled_recs_def)
next
  case (Cons s ss)
  show ?case
  proof (cases s)
    case (Render i)
    then obtain e st1 es where r: "tui_render od cfg i st = Some (e, st1)" "tui_calls od cfg ss st1 = Some (es, st')" "frames = e # es"
      using Cons.prems(2) by (auto split: Option.bind_splits)
    note e = render_shows [OF Cons.prems(1) r(1)]
    note IH = Cons.IH [OF _ r(2), of "recs @ ti_recs i"]
    have "frame_shows od cfg j (tab_after (take k (s # ss)) (tui_tab st)) (recs @ polled_recs (take (Suc k) (s # ss)))
        (frames ! renders (take k (s # ss)))" if "k < length (s # ss)" "(s # ss) ! k = Render j" for k j
      using that e IH by (cases k) (simp_all add: Render r(3) renders_def polled_recs_def)
    then show ?thesis using e IH by (simp add: Render r(3) renders_def polled_recs_def quits_def)
  next
    case (Input ev)
    let ?st = "snd (tui_event ev st)"
    have r: "tui_calls od cfg ss ?st = Some (frames, st')" using Cons.prems(2) Input by simp
    note e = tui_event_fields [where ev = ev and st = st]
    note IH = Cons.IH [OF _ r, of recs]
    have tab: "tab_after (Input ev # us) (tui_tab st) = tab_after us (tui_tab ?st)" for us by (simp add: e(1))
    have "frame_shows od cfg j (tab_after (take k (s # ss)) (tui_tab st)) (recs @ polled_recs (take (Suc k) (s # ss)))
        (frames ! renders (take k (s # ss)))" if "k < length (s # ss)" "(s # ss) ! k = Render j" for k j
      using that e(2,3) IH Cons.prems(1) Input by (cases k) (simp_all add: renders_def polled_recs_def tab del: tab_after.simps)
    then show ?thesis using e(2,3) IH Cons.prems(1) by (simp add: Input renders_def polled_recs_def tab del: tab_after.simps)
  next
    case (Select u)
    have r: "tui_calls od cfg ss (st\<lparr>tui_tab := u\<rparr>) = Some (frames, st')" using Cons.prems(2) Select by simp
    have "session recs (st\<lparr>tui_tab := u\<rparr>)" using Cons.prems(1) by (simp add: session_def)
    note IH = Cons.IH [OF this r]
    have "frame_shows od cfg j (tab_after (take k (s # ss)) (tui_tab st)) (recs @ polled_recs (take (Suc k) (s # ss)))
        (frames ! renders (take k (s # ss)))" if "k < length (s # ss)" "(s # ss) ! k = Render j" for k j
      using that IH Select by (cases k) (simp_all add: renders_def polled_recs_def)
    then show ?thesis using IH by (simp add: Select renders_def polled_recs_def quits_def)
  qed
qed

text \<open>A cleared flag ends the refresh thread, and its events are handed on and change nothing.\<close>

lemma refresh_posts_custom: "set (refresh_posts rs) \<subseteq> {Custom}" "tui_event Custom st = (False, st)"
  by (induction rs) (auto simp: tui_event_def upt_rec)

lemma refresh_posts_ends: "False \<in> set (take (Suc n) rs) \<Longrightarrow> length (refresh_posts rs) \<le> n"
proof (induction rs arbitrary: n)
  case (Cons r rs)
  then show ?case by (cases n; cases r) auto
qed simp

text \<open>
  C37: a session of the terminal UI, whatever calls the library makes: every frame that is drawn shows, on the tab selected
  by the last digit from 1 to 6 or by the tab component, the texts of that screen for the aggregation of every event
  polled since the session began, classified, this frame's poll included, with the numbers of events and of lost
  records; neither the window nor the duration option has an effect. The program asks for its exit exactly if a
  quit key was handed to it. When the library's loop returns, for whatever reason, the exit code is 0 and the
  collector has been stopped.
\<close>

theorem tui_session:
  assumes "start_live w cfg aggregate_callback = (ks, Inr (loader, c))"
    and "tui_calls (w_orders w) cfg ss (tui_start c) = Some (frames, st)"
  shows "length frames = renders ss \<and>
    (\<forall>k i. k < length ss \<longrightarrow> ss ! k = Render i \<longrightarrow>
      frame_shows (w_orders w) cfg i (tab_after (take k ss) 0) (polled_recs (take (Suc k) ss)) (frames ! renders (take k ss))) \<and>
    (tui_exited st \<longleftrightarrow> list_ex quits ss) \<and>
    tui_run w ss returned cfg =
      (if returned
       then Exited (\<lparr>out_code = 0, out_stdout = [], out_log = ks, out_file = None\<rparr>, frames,
         Some (st\<lparr>tui_collector := (tui_collector st)\<lparr>co_running := False\<rparr>\<rparr>))
       else Running)"
proof -
  have "session [] (tui_start c)"
    using start_live_collector [OF assms(1)] by (simp add: session_def tui_start_def lost_of_def aggregate_def)
  moreover have "tui_tab (tui_start c) = 0" "\<not> tui_exited (tui_start c)" by (simp_all add: tui_start_def)
  ultimately show ?thesis
    using calls_show [OF _ assms(2), of "[]"] by (simp add: tui_run_def assms collector_stop_def)
qed

text \<open>One frame of the process screen, with one event polled, and an exit.\<close>

definition one_read :: TuiInput where
  "one_read = \<lparr>ti_recs = [event_bytes [1, 2, 3, 4] [5, 6, 7, 8] (slow_read 7 99)], ti_err = 0,
     ti_files = \<lparr>fs_maps = (\<lambda>_. None), fs_elf = (\<lambda>_. None), fs_kallsyms = None, fs_sort = insertion_sort, fs_ksort = insertion_sort\<rparr>,
     ti_stack_fd = 4, ti_stack_lookup = (\<lambda>_. None), ti_active = 0, ti_sched = 0, ti_secs = 65\<rparr>"

theorem tui_session_witness:
  "\<exists>ks loader c frame st. start_live (willing_world []) Config_init aggregate_callback = (ks, Inr (loader, c)) \<and>
     tui_calls listed_orders Config_init [Input (Character (CHR ''2'')), Render one_read, Input Escape] (tui_start c) = Some ([frame], st) \<and>
     words frame = frame_title 65 (ti_recs one_read) @ ('' Processes '' @ em_dash @ '' sorted by total latency'') #
       process_words (top_processes insertion_sort id 20 TotalLatency (aggregate [classified (slow_read 7 99)])) @ frame_status Config_init \<and>
     tui_exited st \<and>
     tui_run (willing_world []) [Input (Character (CHR ''2'')), Render one_read, Input Escape] True Config_init \<noteq> Running"
proof -
  let ?ss = "[Input (Character (CHR ''2'')), Render one_read, Input Escape]"
  obtain ks sk c where live: "start_live (willing_world []) Config_init aggregate_callback = (ks, Inr (Some sk, c))"
    using start_live_willing by blast
  have od: "w_orders (willing_world []) = listed_orders" by (simp add: willing_world_def)
  have tab: "tui_tab (snd (tui_event (Character (CHR ''2'')) (tui_start c))) = 1"
    by (simp add: tui_event_fields)
  obtain frame st where st: "tui_calls listed_orders Config_init ?ss (tui_start c) = Some ([frame], st)"
    using tab by (auto simp: tui_render_def render_content_def Let_def case_prod_beta)
  note session = tui_session [OF live, unfolded od, OF st, of True]
  have screen: "frame_shows listed_orders Config_init one_read (tab_after (take 1 ?ss) 0) (polled_recs (take (Suc 1) ?ss)) ([frame] ! renders (take 1 ?ss))"
    using session by (elim conjE) (drule spec [of _ 1], simp)
  have "tab_after (take 1 ?ss) 0 = 1" "polled_recs (take (Suc 1) ?ss) = ti_recs one_read" "renders (take 1 ?ss) = 0"
    by (simp_all add: polled_recs_def renders_def)
  note screen = screen [unfolded this]
  have wf: "event_wf (slow_read 7 99)" by simp
  then have "length (event_bytes [1, 2, 3, 4] [5, 6, 7, 8] (slow_read 7 99)) = sizeof_event" by (simp add: event_wf_def)
  then have "decode_event (event_bytes [1, 2, 3, 4] [5, 6, 7, 8] (slow_read 7 99)) = Some (slow_read 7 99)"
    using event_at_bytes [OF _ _ wf, of "[1, 2, 3, 4]" "[5, 6, 7, 8]" "[]"] by (simp add: decode_event_def)
  then have "decoded (ti_recs one_read) = [slow_read 7 99]" by (simp add: one_read_def)
  with screen have "words frame = frame_title 65 (ti_recs one_read) @ ('' Processes '' @ em_dash @ '' sorted by total latency'') #
       process_words (top_processes insertion_sort id 20 TotalLatency (aggregate [classified (slow_read 7 99)])) @ frame_status Config_init"
    by (simp add: frame_shows_def screen_shows_def listed_orders_def Let_def) (simp add: one_read_def Config_init_def)
  then show ?thesis using session live st by (intro exI conjI) (assumption | simp add: quits_def)+
qed

end
