(* ===== verification/Cli.thy ===== *)
theory Cli
  imports Bpf_Loader Doctor
begin

text \<open>
  The command line (\<^verbatim>\<open>src/cli/parse_args.cpp\<close>): the table of subcommands, options and flags that is handed to
  the CLI11 library, each option bound to a field of the configuration. The library itself is the argument
  \<open>cli\<close>: from the table and the arguments it gives an exit code and what it prints on standard output and standard
  error (after a parse error or a request for help), or the subcommand and the values it assigned to the
  bound variables, in their order.
\<close>

section \<open>The table\<close>

text \<open>The variables that options are bound to.\<close>

datatype variable =
    VPid | VComm | VDuration | VMinLatency | VMinOffcpu | VWindow | VTopN | VSampling | VUserStacks | VKernelStacks
  | VJson | VVerbose | VQuiet | VConfigFile | VRecordFile | VReplayFile | VExportFile | VExportFormat

record CliOption =
  opt_spec :: string
  opt_variable :: variable
  opt_help :: string
  opt_flag :: bool
  opt_required :: bool

record Subcommand =
  sub_name :: string
  sub_help :: string
  sub_options :: "CliOption list"
  sub_command :: Command

record App =
  app_description :: string
  app_name :: string
  app_require_subcommand :: nat
  app_subcommands :: "Subcommand list"

definition add_option :: "string \<Rightarrow> variable \<Rightarrow> string \<Rightarrow> CliOption" where
  "add_option spec v help = \<lparr>opt_spec = spec, opt_variable = v, opt_help = help, opt_flag = False, opt_required = False\<rparr>"

definition add_flag :: "string \<Rightarrow> variable \<Rightarrow> string \<Rightarrow> CliOption" where
  "add_flag spec v help = \<lparr>opt_spec = spec, opt_variable = v, opt_help = help, opt_flag = True, opt_required = False\<rparr>"

definition required :: "CliOption \<Rightarrow> CliOption" where
  "required opt = opt\<lparr>opt_required := True\<rparr>"

text \<open>The sign for micro is UTF-8.\<close>

definition micro_help :: "string \<Rightarrow> string" where
  "micro_help s = s @ [CHR ''('', CHR 0xC2, CHR 0xB5, CHR ''s'', CHR '')'']"

definition add_common :: "CliOption list" where
  "add_common = [
     add_option ''--pid'' VPid ''Filter by PID'',
     add_option ''--comm'' VComm ''Filter by process name'',
     add_option ''--duration'' VDuration ''Run duration in seconds (0=infinite)'',
     add_option ''--min-latency-us'' VMinLatency (micro_help ''Minimum syscall latency threshold ''),
     add_option ''--min-offcpu-us'' VMinOffcpu (micro_help ''Minimum off-CPU threshold ''),
     add_option ''--window'' VWindow ''Aggregation window in seconds'',
     add_option ''--top'' VTopN ''Number of top entries to show'',
     add_option ''--stack-sampling'' VSampling ''Stack sampling percentage (0-100)'',
     add_flag ''--user-stacks,!--no-user-stacks'' VUserStacks ''Capture user-space stacks'',
     add_flag ''--kernel-stacks,!--no-kernel-stacks'' VKernelStacks ''Capture kernel stacks'',
     add_flag ''--json'' VJson ''JSON output'',
     add_flag ''--verbose,-v'' VVerbose ''Verbose output'',
     add_flag ''--quiet,-q'' VQuiet ''Quiet output'',
     add_option ''--config,-c'' VConfigFile ''Config file path'']"

definition kName :: string where "kName = ''KernelScope''"
definition kBinaryName :: string where "kBinaryName = ''kscope''"

definition subcommand :: "string \<Rightarrow> string \<Rightarrow> CliOption list \<Rightarrow> Command \<Rightarrow> Subcommand" where
  "subcommand name help opts cmd = \<lparr>sub_name = name, sub_help = help, sub_options = opts, sub_command = cmd\<rparr>"

definition kscope_app :: App where
  "kscope_app = \<lparr>
     app_description = kName @ '' v'' @ kVersion @ '' '' @ em_dash @ '' eBPF latency profiler'',
     app_name = kBinaryName,
     app_require_subcommand = 1,
     app_subcommands = [
       subcommand ''top'' ''Show top latency processes/threads'' add_common Top,
       subcommand ''top-offcpu'' ''Show top off-CPU processes'' add_common TopOffcpu,
       subcommand ''top-syscalls'' ''Show top syscalls by latency'' add_common TopSyscalls,
       subcommand ''trace'' ''Trace events for a process'' add_common Trace,
       subcommand ''hot-stacks'' ''Show hottest stack traces'' add_common HotStacks,
       subcommand ''record'' ''Record events to a .ksr file''
         (add_common @ [required (add_option ''--output,-o'' VRecordFile ''Output file path'')]) Record,
       subcommand ''replay'' ''Replay a recorded .ksr file''
         [required (add_option ''file'' VReplayFile ''KSR file to replay''),
          add_option ''--top'' VTopN ''Number of top entries'',
          add_flag ''--json'' VJson ''JSON output'',
          add_flag ''--verbose,-v'' VVerbose ''Verbose output''] Replay,
       subcommand ''export'' ''Export current data''
         (add_common @
          [add_option ''--output,-o'' VExportFile ''Output file (stdout if omitted)'',
           add_option ''--format,-f'' VExportFormat ''Export format: json, otel, prometheus (default: json)'']) Export,
       subcommand ''doctor'' ''Check system compatibility''
         [add_flag ''--verbose,-v'' VVerbose ''Verbose diagnostics''] Doctor]\<rparr>"

section \<open>Assignment and parsing\<close>

text \<open>A value has the type of the variable; the variables are fields of the configuration.\<close>

datatype cli_value = U32 u32 | U64 u64 | Str string | Flag bool

fun assign :: "variable \<Rightarrow> cli_value \<Rightarrow> Config \<Rightarrow> Config" where
  "assign VPid (U32 n) cfg = cfg\<lparr>cfg_pid := n\<rparr>"
| "assign VComm (Str s) cfg = cfg\<lparr>cfg_comm := s\<rparr>"
| "assign VDuration (U32 n) cfg = cfg\<lparr>cfg_duration_sec := n\<rparr>"
| "assign VMinLatency (U64 n) cfg = cfg\<lparr>cfg_min_latency_us := n\<rparr>"
| "assign VMinOffcpu (U64 n) cfg = cfg\<lparr>cfg_min_offcpu_us := n\<rparr>"
| "assign VWindow (U32 n) cfg = cfg\<lparr>cfg_window_sec := n\<rparr>"
| "assign VTopN (U32 n) cfg = cfg\<lparr>cfg_top_n := n\<rparr>"
| "assign VSampling (U32 n) cfg = cfg\<lparr>cfg_stack_sampling_pct := n\<rparr>"
| "assign VUserStacks (Flag b) cfg = cfg\<lparr>cfg_user_stacks := b\<rparr>"
| "assign VKernelStacks (Flag b) cfg = cfg\<lparr>cfg_kernel_stacks := b\<rparr>"
| "assign VJson (Flag b) cfg = cfg\<lparr>cfg_json_output := b\<rparr>"
| "assign VVerbose (Flag b) cfg = cfg\<lparr>cfg_verbose := b\<rparr>"
| "assign VQuiet (Flag b) cfg = cfg\<lparr>cfg_quiet := b\<rparr>"
| "assign VConfigFile (Str s) cfg = cfg\<lparr>cfg_config_file := s\<rparr>"
| "assign VRecordFile (Str s) cfg = cfg\<lparr>cfg_record_file := s\<rparr>"
| "assign VReplayFile (Str s) cfg = cfg\<lparr>cfg_replay_file := s\<rparr>"
| "assign VExportFile (Str s) cfg = cfg\<lparr>cfg_export_file := s\<rparr>"
| "assign VExportFormat (Str s) cfg = cfg\<lparr>cfg_export_format := s\<rparr>"
| "assign _ _ cfg = cfg"

type_synonym rejection = "int \<times> string \<times> string"

type_synonym cli11 = "App \<Rightarrow> string list \<Rightarrow> rejection + string \<times> (string \<times> cli_value) list"

definition bound_variable :: "Subcommand \<Rightarrow> string \<Rightarrow> variable option" where
  "bound_variable sub spec = map_option opt_variable (find (\<lambda>opt. opt_spec opt = spec) (sub_options sub))"

definition assign_values :: "Subcommand \<Rightarrow> (string \<times> cli_value) list \<Rightarrow> Config \<Rightarrow> Config" where
  "assign_values sub vals cfg =
     fold (\<lambda>(spec, val) cfg. case bound_variable sub spec of None \<Rightarrow> cfg | Some v \<Rightarrow> assign v val cfg) vals cfg"

text \<open>The callback of the subcommand runs when its options have been processed.\<close>

definition parse_args :: "cli11 \<Rightarrow> string list \<Rightarrow> rejection + Config" where
  "parse_args cli argv =
     (case cli kscope_app argv of
        Inl rejected \<Rightarrow> Inl rejected
      | Inr (name, vals) \<Rightarrow>
          (case find (\<lambda>sub. sub_name sub = name) (app_subcommands kscope_app) of
             None \<Rightarrow> Inr Config_init
           | Some sub \<Rightarrow> Inr ((assign_values sub vals Config_init)\<lparr>cfg_command := sub_command sub\<rparr>)))"

section \<open>What a command line means\<close>

text \<open>The current value of a variable.\<close>

fun current :: "variable \<Rightarrow> Config \<Rightarrow> cli_value" where
  "current VPid cfg = U32 (cfg_pid cfg)"
| "current VComm cfg = Str (cfg_comm cfg)"
| "current VDuration cfg = U32 (cfg_duration_sec cfg)"
| "current VMinLatency cfg = U64 (cfg_min_latency_us cfg)"
| "current VMinOffcpu cfg = U64 (cfg_min_offcpu_us cfg)"
| "current VWindow cfg = U32 (cfg_window_sec cfg)"
| "current VTopN cfg = U32 (cfg_top_n cfg)"
| "current VSampling cfg = U32 (cfg_stack_sampling_pct cfg)"
| "current VUserStacks cfg = Flag (cfg_user_stacks cfg)"
| "current VKernelStacks cfg = Flag (cfg_kernel_stacks cfg)"
| "current VJson cfg = Flag (cfg_json_output cfg)"
| "current VVerbose cfg = Flag (cfg_verbose cfg)"
| "current VQuiet cfg = Flag (cfg_quiet cfg)"
| "current VConfigFile cfg = Str (cfg_config_file cfg)"
| "current VRecordFile cfg = Str (cfg_record_file cfg)"
| "current VReplayFile cfg = Str (cfg_replay_file cfg)"
| "current VExportFile cfg = Str (cfg_export_file cfg)"
| "current VExportFormat cfg = Str (cfg_export_format cfg)"

definition fits :: "variable \<Rightarrow> cli_value \<Rightarrow> bool" where
  "fits v val \<longleftrightarrow> (case (current v Config_init, val) of
     (U32 _, U32 _) \<Rightarrow> True | (U64 _, U64 _) \<Rightarrow> True | (Str _, Str _) \<Rightarrow> True | (Flag _, Flag _) \<Rightarrow> True | _ \<Rightarrow> False)"

text \<open>
  The contract of the library: when it returns without an error, the subcommand is one of the table, every
  value belongs to an option of that subcommand and has the type of its variable, and every required option
  has been given.
\<close>

definition cli_sound :: "cli11 \<Rightarrow> bool" where
  "cli_sound cli \<longleftrightarrow> (\<forall>app argv name vals. cli app argv = Inr (name, vals) \<longrightarrow>
     (\<exists>sub \<in> set (app_subcommands app). sub_name sub = name \<and>
       (\<forall>(spec, val) \<in> set vals. \<exists>opt \<in> set (sub_options sub). opt_spec opt = spec \<and> fits (opt_variable opt) val) \<and>
       (\<forall>opt \<in> set (sub_options sub). opt_required opt \<longrightarrow> opt_spec opt \<in> fst ` set vals)))"

lemma cli_soundD:
  "cli_sound cli \<Longrightarrow> cli app argv = Inr (name, vals) \<Longrightarrow>
     \<exists>sub \<in> set (app_subcommands app). sub_name sub = name \<and>
       (\<forall>(spec, val) \<in> set vals. \<exists>opt \<in> set (sub_options sub). opt_spec opt = spec \<and> fits (opt_variable opt) val) \<and>
       (\<forall>opt \<in> set (sub_options sub). opt_required opt \<longrightarrow> opt_spec opt \<in> fst ` set vals)"
  unfolding cli_sound_def by (elim allE impE)

lemma assign_current:
  "fits v val \<Longrightarrow> current v (assign v val cfg) = val"
  by (cases v; cases val) (simp_all add: fits_def)

lemma assign_other: "v \<noteq> u \<Longrightarrow> current u (assign v val cfg) = current u cfg"
  by (cases v; cases val; cases u) simp_all

lemma assign_unbound [simp]:
  "cfg_command (assign v val cfg) = cfg_command cfg" "cfg_syscall_filter (assign v val cfg) = cfg_syscall_filter cfg"
  by (cases v; cases val; simp)+

lemma current_command [simp]: "current v (cfg\<lparr>cfg_command := c\<rparr>) = current v cfg"
  by (cases v) simp_all

text \<open>The values given for a variable, in their order.\<close>

definition given :: "Subcommand \<Rightarrow> (string \<times> cli_value) list \<Rightarrow> variable \<Rightarrow> cli_value list" where
  "given sub vals v = map snd (filter (\<lambda>(spec, val). bound_variable sub spec = Some v) vals)"

lemma assign_values_current:
  assumes "\<forall>(spec, val) \<in> set vals. \<exists>u. bound_variable sub spec = Some u \<and> fits u val"
  shows "current v (assign_values sub vals cfg) = last (current v cfg # given sub vals v) \<and>
    cfg_syscall_filter (assign_values sub vals cfg) = cfg_syscall_filter cfg"
  using assms
proof (induction vals arbitrary: cfg)
  case Nil
  then show ?case by (simp add: assign_values_def given_def)
next
  case (Cons p vals)
  obtain spec val u where p: "p = (spec, val)" "bound_variable sub spec = Some u" "fits u val"
    using Cons.prems by (cases p) auto
  have "assign_values sub (p # vals) cfg = assign_values sub vals (assign u val cfg)"
    by (simp add: assign_values_def p)
  moreover have "given sub (p # vals) v = (if u = v then val # given sub vals v else given sub vals v)"
    by (simp add: given_def p)
  ultimately show ?case
    using Cons.IH [of "assign u val cfg"] Cons.prems p(3)
    by (auto simp: assign_current assign_other)
qed

text \<open>No two subcommands and no two options of a subcommand share a name, so the library's names are exact.\<close>

lemma subcommand_names: "distinct (map sub_name (app_subcommands kscope_app))"
  by (simp add: kscope_app_def subcommand_def)

lemma option_specs: "\<forall>sub \<in> set (app_subcommands kscope_app). distinct (map opt_spec (sub_options sub))"
  by (simp add: kscope_app_def subcommand_def add_common_def add_option_def add_flag_def required_def)

lemma find_distinct: "distinct (map f xs) \<Longrightarrow> x \<in> set xs \<Longrightarrow> find (\<lambda>y. f y = f x) xs = Some x"
  by (induction xs) auto

lemma bound_variable_option:
  assumes "sub \<in> set (app_subcommands kscope_app)" "opt \<in> set (sub_options sub)"
  shows "bound_variable sub (opt_spec opt) = Some (opt_variable opt)"
  using assms option_specs find_distinct [of opt_spec "sub_options sub" opt] by (simp add: bound_variable_def)

lemma given_required:
  assumes "sub \<in> set (app_subcommands kscope_app)" "opt \<in> set (sub_options sub)" "opt_spec opt \<in> fst ` set vals"
  shows "given sub vals (opt_variable opt) \<noteq> []"
  using bound_variable_option [OF assms(1,2)] assms(3) by (force simp: given_def filter_empty_conv)

text \<open>The file arguments that \<^verbatim>\<open>record\<close> and \<^verbatim>\<open>replay\<close> require.\<close>

definition requires :: "variable \<Rightarrow> Subcommand \<Rightarrow> bool" where
  "requires v sub \<longleftrightarrow> list_ex (\<lambda>opt. opt_required opt \<and> opt_variable opt = v) (sub_options sub)"

lemma table_checked:
  "list_all (\<lambda>sub. (sub_command sub = Record \<longrightarrow> requires VRecordFile sub) \<and>
     (sub_command sub = Replay \<longrightarrow> requires VReplayFile sub) \<and> sub_command sub \<noteq> Help \<and>
     (sub_command sub = Replay \<or> sub_command sub = Doctor \<longrightarrow> list_all (\<lambda>opt. opt_variable opt \<noteq> VQuiet) (sub_options sub)))
   (app_subcommands kscope_app)"
  by code_simp

lemma file_options:
  assumes "sub \<in> set (app_subcommands kscope_app)"
  shows "sub_command sub = Record \<Longrightarrow> requires VRecordFile sub"
    and "sub_command sub = Replay \<Longrightarrow> requires VReplayFile sub"
    and "sub_command sub \<noteq> Help"
    and "sub_command sub = Replay \<or> sub_command sub = Doctor \<Longrightarrow> opt \<in> set (sub_options sub) \<Longrightarrow> opt_variable opt \<noteq> VQuiet"
  using table_checked assms unfolding list_all_iff by blast+

lemma given_requires:
  assumes "sub \<in> set (app_subcommands kscope_app)" "requires v sub"
    and "\<forall>opt \<in> set (sub_options sub). opt_required opt \<longrightarrow> opt_spec opt \<in> fst ` set vals"
  shows "given sub vals v \<noteq> []"
  using assms(2,3) given_required [OF assms(1)] unfolding requires_def list_ex_iff by metis

text \<open>The configuration that values given to a subcommand describe.\<close>

definition describes :: "Subcommand \<Rightarrow> (string \<times> cli_value) list \<Rightarrow> Config \<Rightarrow> bool" where
  "describes sub vals cfg \<longleftrightarrow> sub \<in> set (app_subcommands kscope_app) \<and> cfg_command cfg = sub_command sub \<and>
     (\<forall>v. current v cfg = last (current v Config_init # given sub vals v)) \<and> cfg_syscall_filter cfg = None \<and>
     (\<forall>(spec, val) \<in> set vals. \<exists>opt \<in> set (sub_options sub). opt_spec opt = spec \<and> fits (opt_variable opt) val) \<and>
     (\<forall>opt \<in> set (sub_options sub). opt_required opt \<longrightarrow> opt_spec opt \<in> fst ` set vals)"

lemma parse_args_accepted:
  assumes "cli_sound cli" "cli kscope_app argv = Inr (name, vals)"
  shows "\<exists>cfg sub. parse_args cli argv = Inr cfg \<and> sub_name sub = name \<and> describes sub vals cfg"
proof -
  obtain sub where sub: "sub \<in> set (app_subcommands kscope_app)" "sub_name sub = name"
    "\<forall>(spec, val) \<in> set vals. \<exists>opt \<in> set (sub_options sub). opt_spec opt = spec \<and> fits (opt_variable opt) val"
    "\<forall>opt \<in> set (sub_options sub). opt_required opt \<longrightarrow> opt_spec opt \<in> fst ` set vals"
    using cli_soundD [OF assms] by blast
  let ?cfg = "(assign_values sub vals Config_init)\<lparr>cfg_command := sub_command sub\<rparr>"
  have parsed: "parse_args cli argv = Inr ?cfg"
    unfolding parse_args_def assms(2) sum.case prod.case sub(2) [symmetric] find_distinct [OF subcommand_names sub(1)]
    by simp
  have "\<forall>(spec, val) \<in> set vals. \<exists>u. bound_variable sub spec = Some u \<and> fits u val"
    using sub(3) bound_variable_option [OF sub(1)] by fastforce
  note current = assign_values_current [OF this, of _ Config_init]
  have "current v ?cfg = last (current v Config_init # given sub vals v)" for v
    unfolding current_command using current by blast
  moreover have "cfg_syscall_filter ?cfg = None" using current by (simp add: Config_init_def)
  ultimately have "describes sub vals ?cfg"
    unfolding describes_def using sub(1,3,4) by (intro conjI allI) simp_all
  with parsed sub(2) show ?thesis by blast
qed

text \<open>The replay and doctor commands have no flag to make them quiet.\<close>

lemma parse_args_quiet:
  assumes "cli_sound cli" "parse_args cli argv = Inr cfg" "cfg_quiet cfg"
  shows "cfg_command cfg \<noteq> Replay \<and> cfg_command cfg \<noteq> Doctor"
proof -
  obtain name vals where "cli kscope_app argv = Inr (name, vals)"
    using assms(2) by (auto simp: parse_args_def split: sum.splits)
  from parse_args_accepted [OF assms(1) this] obtain sub where d: "describes sub vals cfg"
    using assms(2) by auto
  then have sub: "sub \<in> set (app_subcommands kscope_app)" "cfg_command cfg = sub_command sub"
    "current VQuiet cfg = last (current VQuiet Config_init # given sub vals VQuiet)"
    "\<forall>(spec, val) \<in> set vals. \<exists>opt \<in> set (sub_options sub). opt_spec opt = spec \<and> fits (opt_variable opt) val"
    unfolding describes_def by blast+
  have "given sub vals VQuiet \<noteq> []" using sub(3) assms(3) by (auto simp: Config_init_def)
  then obtain spec val where "(spec, val) \<in> set vals" "bound_variable sub spec = Some VQuiet"
    by (auto simp: given_def filter_empty_conv)
  then obtain opt where "opt \<in> set (sub_options sub)" "opt_variable opt = VQuiet"
    using sub(4) bound_variable_option [OF sub(1)] by fastforce
  then show ?thesis using file_options(4) [OF sub(1)] sub(2) by metis
qed

text \<open>The values given for one option, in their order.\<close>

definition values_of :: "string \<Rightarrow> (string \<times> cli_value) list \<Rightarrow> cli_value list" where
  "values_of spec vals = map snd (filter (\<lambda>(s, val). s = spec) vals)"

lemma given_values_of:
  assumes "describes sub vals cfg" "\<forall>opt \<in> set (sub_options sub). opt_variable opt = v \<longleftrightarrow> opt_spec opt = spec"
  shows "given sub vals v = values_of spec vals"
proof -
  have sub: "sub \<in> set (app_subcommands kscope_app)"
    "\<forall>(spec, val) \<in> set vals. \<exists>opt \<in> set (sub_options sub). opt_spec opt = spec \<and> fits (opt_variable opt) val"
    using assms(1) unfolding describes_def by blast+
  have "bound_variable sub s = Some v \<longleftrightarrow> s = spec" if s: "(s, val) \<in> set vals" for s val
  proof -
    obtain opt where opt: "opt \<in> set (sub_options sub)" "opt_spec opt = s" using sub(2) s by blast
    then have "bound_variable sub s = Some (opt_variable opt)" using bound_variable_option [OF sub(1)] by blast
    then show ?thesis using assms(2) opt by auto
  qed
  then have "filter (\<lambda>(s, val). bound_variable sub s = Some v) vals = filter (\<lambda>(s, val). s = spec) vals"
    by (intro filter_cong) auto
  then show ?thesis by (simp add: given_def values_of_def)
qed

lemma given_unbound:
  assumes "describes sub vals cfg" "\<forall>opt \<in> set (sub_options sub). opt_variable opt \<noteq> v"
  shows "given sub vals v = []"
proof -
  have "given sub vals v = values_of spec vals" if "spec \<notin> opt_spec ` set (sub_options sub)" for spec
    using given_values_of [OF assms(1), of v spec] assms(2) that by blast
  moreover have "values_of spec vals = []" if "spec \<notin> opt_spec ` set (sub_options sub)" for spec
    using assms(1) that unfolding describes_def values_of_def by (fastforce simp: filter_empty_conv)
  moreover have "\<exists>spec. spec \<notin> opt_spec ` set (sub_options sub)"
    using ex_new_if_finite [of "opt_spec ` set (sub_options sub)"] by (simp add: infinite_UNIV_listI)
  ultimately show ?thesis by metis
qed

lemma given_shared:
  assumes "describes sub vals cfg" "\<forall>opt \<in> set (sub_options sub). opt_variable opt = v \<longleftrightarrow> opt_spec opt = spec \<and> here"
  shows "given sub vals v = (if here then values_of spec vals else [])"
  using given_values_of [OF assms(1), of v spec] given_unbound [OF assms(1), of v] assms(2) by auto

text \<open>The name under which each variable can be given, wherever it can; two options share a name.\<close>

definition variable_specs :: "(variable \<times> string) list" where
  "variable_specs =
     [(VPid, ''--pid''), (VComm, ''--comm''), (VDuration, ''--duration''), (VMinLatency, ''--min-latency-us''),
      (VMinOffcpu, ''--min-offcpu-us''), (VWindow, ''--window''), (VTopN, ''--top''), (VSampling, ''--stack-sampling''),
      (VUserStacks, ''--user-stacks,!--no-user-stacks''), (VKernelStacks, ''--kernel-stacks,!--no-kernel-stacks''),
      (VJson, ''--json''), (VVerbose, ''--verbose,-v''), (VQuiet, ''--quiet,-q''), (VConfigFile, ''--config,-c''),
      (VReplayFile, ''file''), (VExportFormat, ''--format,-f'')]"

definition command_names :: "(string \<times> Command) list" where
  "command_names =
     [(''top'', Top), (''top-offcpu'', TopOffcpu), (''top-syscalls'', TopSyscalls), (''trace'', Trace), (''hot-stacks'', HotStacks),
      (''record'', Record), (''replay'', Replay), (''export'', Export), (''doctor'', Doctor)]"

lemma table_specs:
  "list_all (\<lambda>sub.
     list_all (\<lambda>opt. list_all (\<lambda>(v, spec). opt_variable opt = v \<longleftrightarrow> opt_spec opt = spec) variable_specs) (sub_options sub) \<and>
     list_all (\<lambda>opt. opt_variable opt = VRecordFile \<longleftrightarrow> opt_spec opt = ''--output,-o'' \<and> sub_name sub = ''record'') (sub_options sub) \<and>
     list_all (\<lambda>opt. opt_variable opt = VExportFile \<longleftrightarrow> opt_spec opt = ''--output,-o'' \<and> sub_name sub = ''export'') (sub_options sub) \<and>
     map_of command_names (sub_name sub) = Some (sub_command sub) \<and>
     (sub_name sub = ''record'' \<longrightarrow> requires VRecordFile sub) \<and> (sub_name sub = ''replay'' \<longrightarrow> requires VReplayFile sub))
   (app_subcommands kscope_app)"
  by code_simp

text \<open>
  C26: a command line that the library accepts gives the configuration it describes. The command is the one of
  the subcommand's name; every field is the last value given for the option named here, or else the default
  stated here; the path given with \<^verbatim>\<open>--output\<close> is the recording for \<^verbatim>\<open>record\<close> and the exported document for \<^verbatim>\<open>export\<close>. The
  commands that need a file have been given one. No command line sets the syscall filter. One that the
  library rejects ends with the library's exit code and output.
\<close>

theorem parse_args_exact:
  assumes "cli_sound cli"
  shows "case cli kscope_app argv of
      Inl rejected \<Rightarrow> parse_args cli argv = Inl rejected
    | Inr (name, vals) \<Rightarrow> (\<exists>cfg. parse_args cli argv = Inr cfg \<and>
        map_of [(''top'', Top), (''top-offcpu'', TopOffcpu), (''top-syscalls'', TopSyscalls), (''trace'', Trace),
          (''hot-stacks'', HotStacks), (''record'', Record), (''replay'', Replay), (''export'', Export), (''doctor'', Doctor)] name =
          Some (cfg_command cfg) \<and>
        U32 (cfg_pid cfg) = last (U32 0 # values_of ''--pid'' vals) \<and>
        Str (cfg_comm cfg) = last (Str [] # values_of ''--comm'' vals) \<and>
        U32 (cfg_duration_sec cfg) = last (U32 0 # values_of ''--duration'' vals) \<and>
        U64 (cfg_min_latency_us cfg) = last (U64 100 # values_of ''--min-latency-us'' vals) \<and>
        U64 (cfg_min_offcpu_us cfg) = last (U64 1000 # values_of ''--min-offcpu-us'' vals) \<and>
        U32 (cfg_window_sec cfg) = last (U32 5 # values_of ''--window'' vals) \<and>
        U32 (cfg_top_n cfg) = last (U32 20 # values_of ''--top'' vals) \<and>
        U32 (cfg_stack_sampling_pct cfg) = last (U32 100 # values_of ''--stack-sampling'' vals) \<and>
        Flag (cfg_user_stacks cfg) = last (Flag True # values_of ''--user-stacks,!--no-user-stacks'' vals) \<and>
        Flag (cfg_kernel_stacks cfg) = last (Flag False # values_of ''--kernel-stacks,!--no-kernel-stacks'' vals) \<and>
        Flag (cfg_json_output cfg) = last (Flag False # values_of ''--json'' vals) \<and>
        Flag (cfg_verbose cfg) = last (Flag False # values_of ''--verbose,-v'' vals) \<and>
        Flag (cfg_quiet cfg) = last (Flag False # values_of ''--quiet,-q'' vals) \<and>
        Str (cfg_config_file cfg) = last (Str [] # values_of ''--config,-c'' vals) \<and>
        Str (cfg_replay_file cfg) = last (Str [] # values_of ''file'' vals) \<and>
        Str (cfg_export_format cfg) = last (Str ''json'' # values_of ''--format,-f'' vals) \<and>
        Str (cfg_record_file cfg) = last (Str [] # (if name = ''record'' then values_of ''--output,-o'' vals else [])) \<and>
        Str (cfg_export_file cfg) = last (Str [] # (if name = ''export'' then values_of ''--output,-o'' vals else [])) \<and>
        (name = ''record'' \<longrightarrow> values_of ''--output,-o'' vals \<noteq> []) \<and>
        (name = ''replay'' \<longrightarrow> values_of ''file'' vals \<noteq> []) \<and>
        cfg_syscall_filter cfg = None)"
proof (cases "cli kscope_app argv")
  case (Inl rejected)
  then show ?thesis by (simp add: parse_args_def)
next
  case (Inr p)
  obtain name vals where p: "p = (name, vals)" by fastforce
  from parse_args_accepted [OF assms Inr [unfolded p]] obtain cfg sub where
    r: "parse_args cli argv = Inr cfg" "sub_name sub = name" and d: "describes sub vals cfg" by blast
  have sub: "sub \<in> set (app_subcommands kscope_app)" "cfg_command cfg = sub_command sub"
    "\<forall>v. current v cfg = last (current v Config_init # given sub vals v)" "cfg_syscall_filter cfg = None"
    "\<forall>opt \<in> set (sub_options sub). opt_required opt \<longrightarrow> opt_spec opt \<in> fst ` set vals"
    using d unfolding describes_def by blast+
  note table = bspec [OF table_specs [unfolded list_all_iff] sub(1)]
  have plain: "given sub vals v = values_of spec vals" if "(v, spec) \<in> set variable_specs" for v spec
    using table that by (intro given_values_of [OF d]) fast
  have out: "given sub vals VRecordFile = (if name = ''record'' then values_of ''--output,-o'' vals else [])"
    "given sub vals VExportFile = (if name = ''export'' then values_of ''--output,-o'' vals else [])"
    by (rule given_shared [OF d], use table r(2) in blast)+
  have req: "name = ''record'' \<Longrightarrow> given sub vals VRecordFile \<noteq> []" "name = ''replay'' \<Longrightarrow> given sub vals VReplayFile \<noteq> []"
    using table r(2) given_requires [OF sub(1) _ sub(5)] by blast+
  have cmd: "map_of command_names name = Some (cfg_command cfg)" using table r(2) sub(2) by simp
  have field: "current v cfg = last (current v Config_init # values_of spec vals)" if "(v, spec) \<in> set variable_specs" for v spec
    using sub(3) plain [OF that] by simp
  note fields = field [of VPid] field [of VComm] field [of VDuration] field [of VMinLatency] field [of VMinOffcpu]
    field [of VWindow] field [of VTopN] field [of VSampling] field [of VUserStacks] field [of VKernelStacks]
    field [of VJson] field [of VVerbose] field [of VQuiet] field [of VConfigFile] field [of VReplayFile] field [of VExportFormat]
  note fields = fields [unfolded variable_specs_def current.simps Config_init_def, simplified]
  have files: "Str (cfg_record_file cfg) = last (Str [] # given sub vals VRecordFile)"
    "Str (cfg_export_file cfg) = last (Str [] # given sub vals VExportFile)"
    using sub(3) [rule_format, of VRecordFile] sub(3) [rule_format, of VExportFile] by (simp_all add: Config_init_def)
  show ?thesis
    unfolding Inr p sum.case prod.case
    using fields files [unfolded out] req(1) [unfolded out] req(2) [unfolded plain [of VReplayFile "''file''", simplified variable_specs_def, simplified]]
      cmd [unfolded command_names_def] r(1) sub(4)
    by (intro exI [of _ cfg]) simp
qed

text \<open>A library that knows one command line.\<close>

definition one_line_cli :: "string list \<Rightarrow> string \<Rightarrow> (string \<times> cli_value) list \<Rightarrow> cli11" where
  "one_line_cli line name vals app argv = (if app = kscope_app \<and> argv = line then Inr (name, vals) else Inl (106, [], ''A subcommand is required'' @ newline))"

lemma cli_sound_one_line:
  assumes "sub \<in> set (app_subcommands kscope_app)" "sub_name sub = name"
    and "\<forall>(spec, val) \<in> set vals. \<exists>opt \<in> set (sub_options sub). opt_spec opt = spec \<and> fits (opt_variable opt) val"
    and "\<forall>opt \<in> set (sub_options sub). opt_required opt \<longrightarrow> opt_spec opt \<in> fst ` set vals"
  shows "cli_sound (one_line_cli line name vals)"
  unfolding cli_sound_def one_line_cli_def using assms by (auto intro!: bexI [of _ sub])

definition sample_argv :: "string list" where
  "sample_argv = [''kscope'', ''record'', ''-o'', ''s.ksr'', ''--pid'', ''7'']"

definition sample_cli :: cli11 where
  "sample_cli = one_line_cli sample_argv ''record'' [(''--output,-o'', Str ''s.ksr''), (''--pid'', U32 7)]"

lemma record_subcommand:
  "\<exists>sub \<in> set (app_subcommands kscope_app). sub_name sub = ''record'' \<and> sub_command sub = Record \<and>
     sub_options sub = add_common @ [required (add_option ''--output,-o'' VRecordFile ''Output file path'')]"
  unfolding kscope_app_def subcommand_def by simp

lemma cli_sound_sample: "cli_sound sample_cli"
proof -
  obtain sub where sub: "sub \<in> set (app_subcommands kscope_app)" "sub_name sub = ''record''"
    "sub_options sub = add_common @ [required (add_option ''--output,-o'' VRecordFile ''Output file path'')]"
    using record_subcommand by blast
  show ?thesis
    unfolding sample_cli_def
    by (rule cli_sound_one_line [OF sub(1,2)])
       (simp_all add: sub(3) add_common_def add_option_def add_flag_def required_def fits_def)
qed

theorem parse_args_exact_witness:
  "\<exists>cfg. cli_sound sample_cli \<and> parse_args sample_cli sample_argv = Inr cfg \<and> cfg_command cfg = Record \<and>
     cfg_record_file cfg = ''s.ksr'' \<and> cfg_export_file cfg = [] \<and> cfg_pid cfg = 7 \<and> cfg_user_stacks cfg \<and> cfg_window_sec cfg = 5"
proof -
  have cli: "sample_cli kscope_app sample_argv = Inr (''record'', [(''--output,-o'', Str ''s.ksr''), (''--pid'', U32 7)])"
    by (simp add: sample_cli_def one_line_cli_def)
  show ?thesis
    using parse_args_exact [OF cli_sound_sample, of sample_argv] cli_sound_sample unfolding cli
    by (auto simp: values_of_def)
qed

end
