(* ===== verification/Program.thy ===== *)
theory Program
  imports Cli Commands_Properties "HOL-Library.Sublist"
begin

text \<open>
  The program as a whole (\<^verbatim>\<open>src/main.cpp\<close>): the shutdown flag and its signal handlers
  (\<^verbatim>\<open>src/util/signal.hpp\<close>), the log level chosen from the configuration, and the dispatch to the command. A
  run is a function of the command line, the world, the signals that arrive before each turn of the polling
  loop, and the time of each log message.
\<close>

section \<open>Signals\<close>

text \<open>The state is the flag \<^verbatim>\<open>g_shutdown\<close>.\<close>

definition shutdown_requested :: "bool \<Rightarrow> bool" where
  "shutdown_requested g_shutdown = g_shutdown"

definition request_shutdown :: "bool \<Rightarrow> bool" where
  "request_shutdown g_shutdown = True"

definition signal_handler :: "int \<Rightarrow> bool \<Rightarrow> bool" where
  "signal_handler sig g_shutdown = request_shutdown g_shutdown"

definition SIGINT :: int where "SIGINT = 2"
definition SIGTERM :: int where "SIGTERM = 15"

type_synonym handlers = "int \<Rightarrow> (int \<Rightarrow> bool \<Rightarrow> bool) option"

definition install :: handlers where
  "install = Map.empty(SIGINT \<mapsto> signal_handler, SIGTERM \<mapsto> signal_handler)"

text \<open>Only signals with a handler are considered.\<close>

definition deliver :: "handlers \<Rightarrow> int \<Rightarrow> bool \<Rightarrow> bool" where
  "deliver hs sig g_shutdown = (case hs sig of None \<Rightarrow> g_shutdown | Some h \<Rightarrow> h sig g_shutdown)"

text \<open>The turns as the loop sees them: the flag it tests is set by the signals that arrived before.\<close>

fun observe :: "handlers \<Rightarrow> bool \<Rightarrow> int list list \<Rightarrow> Iteration list \<Rightarrow> Iteration list" where
  "observe hs flag sigs [] = []"
| "observe hs flag [] (i # is) = i\<lparr>it_shutdown := shutdown_requested flag\<rparr> # observe hs flag [] is"
| "observe hs flag (s # sigs) (i # is) =
     (let flag = fold (deliver hs) s flag in i\<lparr>it_shutdown := shutdown_requested flag\<rparr> # observe hs flag sigs is)"

section \<open>Main\<close>

record Exit =
  ex_code :: int
  ex_stdout :: string
  ex_stderr :: string
  ex_file :: "written option"

definition startup_logger :: "Config \<Rightarrow> Logger" where
  "startup_logger cfg =
     (if cfg_quiet cfg then set_level Error_Level Logger_init
      else if cfg_verbose cfg then set_level Debug Logger_init
      else Logger_init)"

fun finish :: "stamp stream \<Rightarrow> Logger \<Rightarrow> Outcome progress \<Rightarrow> Exit progress" where
  "finish ts lg Running = Running"
| "finish ts lg Aborted = Aborted"
| "finish ts lg (Exited out) = Exited \<lparr>ex_code = out_code out, ex_stdout = out_stdout out,
     ex_stderr = log_text ts (out_log out) lg, ex_file = out_file out\<rparr>"

definition main :: "cli11 \<Rightarrow> stamp stream \<Rightarrow> int list list \<Rightarrow> 'k World \<Rightarrow> string list \<Rightarrow> Exit progress" where
  "main cli ts sigs w argv =
     (let hs = install in
      case parse_args cli argv of
        Inl (code, out, err) \<Rightarrow> Exited \<lparr>ex_code = code, ex_stdout = out, ex_stderr = err, ex_file = None\<rparr>
      | Inr cfg \<Rightarrow>
          finish ts (startup_logger cfg) (run_command (w\<lparr>w_turns := observe hs False sigs (w_turns w)\<rparr>) cfg))"

section \<open>Shutdown\<close>

lemma deliver_install [simp]: "deliver install sig flag = (flag \<or> sig = SIGINT \<or> sig = SIGTERM)"
  by (simp add: deliver_def install_def signal_handler_def request_shutdown_def SIGINT_def SIGTERM_def)

lemma deliver_all: "fold (deliver install) s flag = (flag \<or> SIGINT \<in> set s \<or> SIGTERM \<in> set s)"
  by (induction s arbitrary: flag) auto

lemma observe_shutdown:
  assumes "k < length is" "flag \<or> SIGINT \<in> set (concat (take (Suc k) sigs)) \<or> SIGTERM \<in> set (concat (take (Suc k) sigs))"
  shows "it_shutdown (observe install flag sigs is ! k)"
  using assms
proof (induction install flag sigs "is" arbitrary: k rule: observe.induct)
  case (2 flag i "is")
  then show ?case by (cases k) (auto simp: shutdown_requested_def)
next
  case (3 flag s sigs i "is")
  then show ?case by (cases k) (auto simp: shutdown_requested_def deliver_all Let_def)
qed simp

lemma observe_length [simp]: "length (observe hs flag sigs is) = length is"
  by (induction hs flag sigs "is" rule: observe.induct) (simp_all add: Let_def)

lemma observe_take: "observe hs flag sigs (take n is) = take n (observe hs flag sigs is)"
  by (induction hs flag sigs "is" arbitrary: n rule: observe.induct)
     (simp_all add: take_Cons' Let_def split: nat.split)

text \<open>A loop that meets a shutdown request is left there, whatever would have come after it.\<close>

lemma poll_loop_shutdown:
  assumes "k < length is" "it_shutdown (is ! k)"
  shows "poll_loop dur t0 is cs = poll_loop dur t0 (take (Suc k) is) cs" "fst (poll_loop dur t0 is cs)"
  using assms
proof (induction "is" arbitrary: k cs)
  case (Cons i "is")
  { case 1
    then show ?case using Cons.IH(1) by (cases k) (auto simp: Let_def)
  next
    case 2
    then show ?case using Cons.IH(2) by (cases k) (auto simp: Let_def)
  }
qed simp_all

lemma top_loop_shutdown:
  assumes "k < length is" "it_shutdown (is ! k)"
  shows "top_loop draw cfg is st = top_loop draw cfg (take (Suc k) is) st" "top_loop draw cfg is st \<noteq> Some (False, st')"
  using assms
proof (induction "is" arbitrary: k st)
  case (Cons i "is")
  { case 1
    then show ?case using Cons.IH(1) by (cases k) (auto split: option.split)
  next
    case 2
    then show ?case using Cons.IH(2) by (cases k) (auto split: option.split)
  }
qed simp_all

text \<open>The turns are read by the loops only.\<close>

lemma world_turns:
  "w_libbpf (w\<lparr>w_turns := is\<rparr>) = w_libbpf w" "w_pidns (w\<lparr>w_turns := is\<rparr>) = w_pidns w"
  "w_ring_buffer (w\<lparr>w_turns := is\<rparr>) = w_ring_buffer w" "w_t0 (w\<lparr>w_turns := is\<rparr>) = w_t0 w"
  "w_turns (w\<lparr>w_turns := is\<rparr>) = is" "w_fopen_wb (w\<lparr>w_turns := is\<rparr>) = w_fopen_wb w"
  "w_fopen_rb (w\<lparr>w_turns := is\<rparr>) = w_fopen_rb w" "w_ofstream (w\<lparr>w_turns := is\<rparr>) = w_ofstream w"
  "w_strerror (w\<lparr>w_turns := is\<rparr>) = w_strerror w" "w_room (w\<lparr>w_turns := is\<rparr>) = w_room w"
  "w_bufsiz (w\<lparr>w_turns := is\<rparr>) = w_bufsiz w"
  "w_pads (w\<lparr>w_turns := is\<rparr>) = w_pads w" "w_now (w\<lparr>w_turns := is\<rparr>) = w_now w" "w_wall (w\<lparr>w_turns := is\<rparr>) = w_wall w"
  "w_orders (w\<lparr>w_turns := is\<rparr>) = w_orders w" "w_dump (w\<lparr>w_turns := is\<rparr>) = w_dump w" "w_host (w\<lparr>w_turns := is\<rparr>) = w_host w"
  by simp_all

lemma start_live_turns: "start_live (w\<lparr>w_turns := is\<rparr>) cfg cb = start_live w cfg cb"
  unfolding start_live_def world_turns ..

lemma export_result_turns: "export_result (w\<lparr>w_turns := is\<rparr>) cfg ks out = export_result w cfg ks out"
  unfolding export_result_def world_turns ..

lemma printed_ends [simp]: "printed ks out \<noteq> Running"
  by (simp add: printed_def split: option.split)

lemma run_windowed_shutdown:
  assumes "k < length (w_turns w)" "it_shutdown (w_turns w ! k)"
  shows "run_windowed draw d fin w cfg = run_windowed draw d fin (w\<lparr>w_turns := take (Suc k) (w_turns w)\<rparr>) cfg"
    and "run_windowed draw d fin w cfg \<noteq> Running"
proof -
  note top = top_loop_shutdown [OF assms]
  show "run_windowed draw d fin w cfg = run_windowed draw d fin (w\<lparr>w_turns := take (Suc k) (w_turns w)\<rparr>) cfg"
    unfolding run_windowed_def start_live_turns world_turns top(1) [symmetric] ..
  show "run_windowed draw d fin w cfg \<noteq> Running"
    using top(2) by (auto simp: run_windowed_def split: prod.split sum.split option.split)
qed

lemma run_trace_shutdown:
  assumes "k < length (w_turns w)" "it_shutdown (w_turns w ! k)"
  shows "run_trace w cfg = run_trace (w\<lparr>w_turns := take (Suc k) (w_turns w)\<rparr>) cfg" "run_trace w cfg \<noteq> Running"
proof -
  note loop = poll_loop_shutdown [OF assms]
  show "run_trace w cfg = run_trace (w\<lparr>w_turns := take (Suc k) (w_turns w)\<rparr>) cfg"
    unfolding run_trace_def start_live_turns export_result_turns world_turns loop(1) [symmetric] ..
  show "run_trace w cfg \<noteq> Running"
    unfolding run_trace_def Let_def case_prod_beta by (simp add: loop(2) split: sum.split)
qed

lemma run_export_shutdown:
  assumes "k < length (w_turns w)" "it_shutdown (w_turns w ! k)"
  shows "run_export w cfg = run_export (w\<lparr>w_turns := take (Suc k) (w_turns w)\<rparr>) cfg" "run_export w cfg \<noteq> Running"
proof -
  note loop = poll_loop_shutdown [OF assms]
  show "run_export w cfg = run_export (w\<lparr>w_turns := take (Suc k) (w_turns w)\<rparr>) cfg"
    unfolding run_export_def start_live_turns export_result_turns world_turns loop(1) [symmetric] ..
  show "run_export w cfg \<noteq> Running"
    unfolding run_export_def Let_def case_prod_beta by (simp add: loop(2) split: sum.split option.split)
qed

lemma run_record_shutdown:
  assumes "k < length (w_turns w)" "it_shutdown (w_turns w ! k)"
  shows "run_record w cfg = run_record (w\<lparr>w_turns := take (Suc k) (w_turns w)\<rparr>) cfg" "run_record w cfg \<noteq> Running"
proof -
  note loop = poll_loop_shutdown [OF assms]
  show "run_record w cfg = run_record (w\<lparr>w_turns := take (Suc k) (w_turns w)\<rparr>) cfg"
    unfolding run_record_def start_live_turns export_result_turns world_turns loop(1) [symmetric] ..
  show "run_record w cfg \<noteq> Running"
    unfolding run_record_def Let_def case_prod_beta by (simp add: loop(2) split: sum.split)
qed

lemma run_replay_ends:
  "run_replay (w\<lparr>w_turns := is\<rparr>) cfg = run_replay w cfg" "run_replay w cfg \<noteq> Running"
proof -
  show "run_replay (w\<lparr>w_turns := is\<rparr>) cfg = run_replay w cfg" unfolding run_replay_def world_turns ..
  show "run_replay w cfg \<noteq> Running"
    unfolding run_replay_def Let_def case_prod_beta by (simp split: sum.split)
qed

lemma run_command_shutdown:
  assumes "k < length (w_turns w)" "it_shutdown (w_turns w ! k)"
  shows "run_command w cfg = run_command (w\<lparr>w_turns := take (Suc k) (w_turns w)\<rparr>) cfg" "run_command w cfg \<noteq> Running"
proof -
  note ends = run_windowed_shutdown [OF assms] run_trace_shutdown [OF assms] run_export_shutdown [OF assms]
    run_record_shutdown [OF assms] run_replay_ends
  show "run_command w cfg = run_command (w\<lparr>w_turns := take (Suc k) (w_turns w)\<rparr>) cfg"
    unfolding run_command_def
    by (cases "cfg_command cfg")
       (simp_all add: run_top_def run_top_offcpu_def run_top_syscalls_def run_hot_stacks_def doctor_outcome_def
          world_turns ends(1,3,5,7) [symmetric] ends(9))
  show "run_command w cfg \<noteq> Running"
    unfolding run_command_def
    by (cases "cfg_command cfg")
       (simp_all add: run_top_def run_top_offcpu_def run_top_syscalls_def run_hot_stacks_def doctor_outcome_def ends(2,4,6,8,10)
          split: prod.split)
qed

text \<open>
  C24: on SIGINT or SIGTERM the program ends: if such a signal has arrived by the time some turn of the polling
  loop begins, then, whatever the command line, the program is not running any more after that turn; and
  its exit code, its output and the file it leaves are those of a run in which this was the last turn, so
  nothing that happens later matters.
\<close>

theorem main_shutdown:
  assumes "k < length (w_turns w)"
    and "SIGINT \<in> set (concat (take (Suc k) sigs)) \<or> SIGTERM \<in> set (concat (take (Suc k) sigs))"
  shows "main cli ts sigs w argv \<noteq> Running \<and>
    main cli ts sigs w argv = main cli ts sigs (w\<lparr>w_turns := take (Suc k) (w_turns w)\<rparr>) argv"
proof (cases "parse_args cli argv")
  case (Inl rejected)
  then show ?thesis by (simp add: main_def case_prod_beta)
next
  case (Inr cfg)
  let ?w = "w\<lparr>w_turns := observe install False sigs (w_turns w)\<rparr>"
  have "k < length (w_turns ?w)" "it_shutdown (w_turns ?w ! k)"
    using assms observe_shutdown [of k "w_turns w" False sigs] by simp_all
  note run = run_command_shutdown [OF this, of cfg]
  have "finish ts lg r \<noteq> Running" if "r \<noteq> Running" for lg r
    using that by (cases r) simp_all
  then show ?thesis
    using run(2) by (simp add: main_def Inr observe_take) (simp add: run(1))
qed

theorem main_shutdown_witness:
  "main sample_cli (sconst (1, 2, 3, 4)) [[], [SIGINT]] (willing_world [turn_at [] 2, turn_at [] 3]) sample_argv \<noteq> Running \<and>
   main sample_cli (sconst (1, 2, 3, 4)) [[], [SIGINT]] (willing_world [turn_at [] 2, turn_at [] 3, turn_at [] 4]) sample_argv =
   main sample_cli (sconst (1, 2, 3, 4)) [[], [SIGINT]] (willing_world [turn_at [] 2, turn_at [] 3]) sample_argv"
proof -
  let ?is = "[turn_at [] 2, turn_at [] 3, turn_at [] 4]"
  have "(willing_world ?is)\<lparr>w_turns := take (Suc 1) (w_turns (willing_world ?is))\<rparr> = willing_world [turn_at [] 2, turn_at [] 3]"
    by (simp add: willing_world_def)
  moreover have "1 < length (w_turns (willing_world ?is))" by (simp add: willing_world_def)
  moreover have "SIGINT \<in> set (concat (take (Suc 1) [[], [SIGINT]]))" by simp
  ultimately show ?thesis
    using main_shutdown [of 1 "willing_world ?is" "[[], [SIGINT]]" sample_cli "sconst (1, 2, 3, 4)" sample_argv] by metis
qed

section \<open>Messages\<close>

text \<open>
  What a command logs: besides what libbpf prints, only information if it succeeds, and one error message,
  after which libbpf is silent, if it fails.
\<close>

definition one_error :: "'k Libbpf \<Rightarrow> LogCall list \<Rightarrow> bool" where
  "one_error lb ks \<longleftrightarrow> (\<exists>n pre msg post. ks = pre @ LogError msg # post \<and> calm lb n pre \<and> list_all informational post)"

definition orderly :: "'k Libbpf \<Rightarrow> Outcome \<Rightarrow> bool" where
  "orderly lb out \<longleftrightarrow>
     (if out_code out = 0 then \<exists>n. calm lb n (out_log out) else out_code out = 1 \<and> one_error lb (out_log out))"

lemma one_errorI: "calm lb n pre \<Longrightarrow> list_all informational post \<Longrightarrow> one_error lb (pre @ LogError msg # post)"
  by (auto simp: one_error_def)

lemma orderly_failed:
  assumes "calm lb n ks"
  shows "orderly lb (failed ks e)"
    and "list_all informational post \<Longrightarrow> orderly lb ((failed ks e)\<lparr>out_log := out_log (failed ks e) @ post, out_file := f\<rparr>)"
  using one_errorI [OF assms] by (simp_all add: orderly_def failed_def)

lemma orderly_printed: "calm lb n ks \<Longrightarrow> printed ks s = Exited out \<Longrightarrow> orderly lb out"
  by (auto simp: printed_def orderly_def split: option.splits)

lemma start_live_log: "start_live w cfg cb = (ks, r) \<Longrightarrow> \<exists>n. calm (w_libbpf w) n ks"
  using setup_log_calm [of "w_libbpf w" "w_pidns w" cfg None] start_log_calm [of "w_libbpf w"]
  unfolding start_live_def Let_def case_prod_beta by (auto split: sum.splits)

lemma orderly_windowed: "run_windowed draw d fin w cfg = Exited out \<Longrightarrow> orderly (w_libbpf w) out"
proof -
  assume r: "run_windowed draw d fin w cfg = Exited out"
  obtain ks res where live: "start_live w cfg aggregate_callback = (ks, res)" by fastforce
  obtain n where ks: "calm (w_libbpf w) n ks" using start_live_log [OF live] ..
  show "orderly (w_libbpf w) out"
    using r ks orderly_failed(1) [OF ks] orderly_printed [OF ks]
    by (auto simp: run_windowed_def live split: sum.splits option.splits if_splits)
qed

lemma orderly_trace: "run_trace w cfg = Exited out \<Longrightarrow> orderly (w_libbpf w) out"
proof -
  assume r: "run_trace w cfg = Exited out"
  obtain ks res where live: "start_live w cfg trace_callback = (ks, res)" by fastforce
  obtain n where ks: "calm (w_libbpf w) n ks" using start_live_log [OF live] ..
  have "calm (w_libbpf w) n (ks @ [trace_done c])" for c :: "string Collector"
    using ks by (intro calm_append) (simp_all add: trace_done_def informational_def)
  note orderly_printed [OF this]
  then show "orderly (w_libbpf w) out"
    using r orderly_failed(1) [OF ks]
    by (auto simp: run_trace_def live split: sum.splits prod.splits if_splits)
qed

lemma orderly_export: "run_export w cfg = Exited out \<Longrightarrow> orderly (w_libbpf w) out"
proof -
  assume r: "run_export w cfg = Exited out"
  obtain ks res where live: "start_live w cfg aggregate_callback = (ks, res)" by fastforce
  obtain n where ks: "calm (w_libbpf w) n ks" using start_live_log [OF live] ..
  have "calm (w_libbpf w) n (ks @ [LogInfo msg])" for msg
    using ks by (intro calm_append) (simp_all add: informational_def)
  then have "orderly (w_libbpf w) (export_result w cfg ks s)" for s
    using ks by (auto simp: export_result_def orderly_def split: destination.split)
  then show "orderly (w_libbpf w) out"
    using r orderly_failed(1) [OF ks]
    by (auto simp: run_export_def live Let_def split: sum.splits prod.splits if_splits option.splits)
qed

lemma orderly_record: "run_record w cfg = Exited out \<Longrightarrow> orderly (w_libbpf w) out"
proof -
  assume r: "run_record w cfg = Exited out"
  let ?lb = "w_libbpf w" and ?path = "cfg_record_file cfg"
  let ?ks = "setup_log ?lb (w_pidns w) cfg None"
  obtain n where n: "calm ?lb n ?ks" "isl (fst (setup_bpf ?lb (w_pidns w) cfg None)) \<or> n = 3"
    using setup_log_calm by blast
  obtain st loader where st: "setup_bpf ?lb (w_pidns w) cfg None = (st, loader)" by fastforce
  show "orderly ?lb out"
  proof (cases st)
    case (Inl e)
    then show ?thesis using r orderly_failed(1) [OF n(1)] by (auto simp: run_record_def st)
  next
    case (Inr u)
    let ?fd = "if ringbuf_fd ?lb loader < 0 then 3 else 4" and ?start = "start_log ?lb loader"
    have three: "calm ?lb 3 ?ks" "\<And>p v. calm ?lb 3 (?ks @ recorder_open_log p v)" using n Inr st by auto
    then have four: "\<And>p v v'. calm ?lb ?fd (?ks @ recorder_open_log p v @ ?start v')"
      using start_log_calm [OF three(2)] by simp
    have "\<And>p v v' q. calm ?lb ?fd ((?ks @ recorder_open_log p v @ ?start v') @ recorder_close_log q)"
      by (rule calm_append [OF four]) simp
    then have finished: "orderly ?lb \<lparr>out_code = 0, out_stdout = s, out_log = ?ks @ recorder_open_log p v @ ?start v' @ recorder_close_log q,
        out_file = f\<rparr>" for s p v v' q f unfolding orderly_def by (simp only: append_assoc) (simp, blast)
    note fail = orderly_failed(2) [OF three(1)] orderly_failed(2) [OF four]
    show ?thesis
      using r unfolding run_record_def Let_def case_prod_beta st
      by (auto split: sum.splits if_splits simp: Inr fail finished)
  qed
qed

lemma orderly_replay: "run_replay w cfg = Exited out \<Longrightarrow> orderly (w_libbpf w) out"
proof -
  assume r: "run_replay w cfg = Exited out"
  show "orderly (w_libbpf w) out"
    using r unfolding run_replay_def Let_def case_prod_beta
    by (auto split: sum.splits intro!: orderly_failed [OF calm_informational] elim!: orderly_printed [OF calm_informational, rotated])
qed

lemma orderly_command:
  assumes "run_command w cfg = Exited out" "cfg_command cfg \<noteq> Doctor"
  shows "orderly (w_libbpf w) out"
proof -
  have "orderly (w_libbpf w) \<lparr>out_code = 1, out_stdout = [], out_log = [LogError msg], out_file = None\<rparr>" for msg
    using one_errorI [OF calm_informational [of "[]"], of "[]"] by (simp add: orderly_def)
  then show ?thesis
    using assms
    unfolding run_command_def run_top_def run_top_offcpu_def run_top_syscalls_def run_hot_stacks_def
    by (cases "cfg_command cfg")
       (auto dest: orderly_windowed orderly_trace orderly_export orderly_record orderly_replay)
qed

text \<open>
  C25: with \<^verbatim>\<open>--quiet\<close> the program itself says nothing on standard error unless it fails: if a command line with
  this flag is accepted and the program exits, then standard error is what libbpf, which the flag does not
  silence, printed in its calls, in their order and up to the last one made; with exit code 0 there is nothing
  else, and otherwise the exit code is 1 and exactly one error message of the program follows.
\<close>

theorem main_quiet:
  assumes "cli_sound cli" "parse_args cli argv = Inr cfg" "cfg_quiet cfg"
    and "main cli ts sigs w argv = Exited ex"
  shows "\<exists>n. let lib = concat (map (lb_prints (w_libbpf w)) (take n [SkeletonOpen, SkeletonLoad, SkeletonAttach, RingBufferNew])) in
    ex_code ex = 0 \<and> ex_stderr ex = lib \<or>
    ex_code ex = 1 \<and> (\<exists>t msg. ex_stderr ex = lib @ emit t Error_Level msg (set_level Error_Level Logger_init))"
proof -
  let ?lg = "set_level Error_Level Logger_init" and ?lb = "w_libbpf w"
  let ?w = "w\<lparr>w_turns := observe install False sigs (w_turns w)\<rparr>"
  obtain out where out: "run_command ?w cfg = Exited out"
    and ex: "ex = \<lparr>ex_code = out_code out, ex_stdout = out_stdout out, ex_stderr = log_text ts (out_log out) ?lg, ex_file = out_file out\<rparr>"
    using assms(2-4) by (cases "run_command ?w cfg") (auto simp: main_def startup_logger_def)
  have quiet: "log_text ts (ks @ ks') ?lg = library_text ks @ log_text (sdrop (length ks) ts) ks' ?lg"
    if "list_all (\<lambda>k. call_level k = Info \<or> call_level k = Off) ks" for ks ks' ts
    using that by (induction ks arbitrary: ts) (auto simp: log_call_exact set_level_def level_le_simps)
  have said: "log_text ts ks ?lg = library_text ks" if "list_all (\<lambda>k. call_level k = Info \<or> call_level k = Off) ks" for ks ts
    using quiet [OF that, of ts "[]"] by simp
  have "orderly ?lb out" using orderly_command [OF out] parse_args_quiet [OF assms(1-3)] by simp
  then show ?thesis
  proof (cases "out_code out = 0")
    case True
    then obtain n where "calm ?lb n (out_log out)" using \<open>orderly ?lb out\<close> by (auto simp: orderly_def)
    then show ?thesis using True by (intro exI [of _ n]) (simp add: ex calm_def said libbpf_calls_def Let_def)
  next
    case False
    then obtain n pre msg post where l: "out_code out = 1" "out_log out = pre @ LogError msg # post"
      "calm ?lb n pre" "list_all informational post"
      using \<open>orderly ?lb out\<close> by (auto simp: orderly_def one_error_def)
    note pre = l(3) [unfolded calm_def libbpf_calls_def]
    have "ex_stderr ex = library_text pre @ emit (ts !! length pre) Error_Level msg ?lg"
      using pre informational_levels [OF l(4)] l(4)
      by (simp add: ex l(2) quiet said) (simp add: log_error_def get_level_def set_level_def)
    then have "\<exists>t msg. ex_stderr ex = library_text pre @ emit t Error_Level msg ?lg" by blast
    moreover have "ex_code ex = 1" using l(1) by (simp add: ex)
    ultimately show ?thesis using pre unfolding Let_def by (intro exI [of _ n]) simp
  qed
qed

text \<open>A quiet run on a system where the skeleton does not open.\<close>

definition quiet_argv :: "string list" where
  "quiet_argv = [''kscope'', ''trace'', ''-q'']"

definition quiet_cli :: cli11 where
  "quiet_cli = one_line_cli quiet_argv ''trace'' [(''--quiet,-q'', Flag True)]"

lemma cli_sound_quiet: "cli_sound quiet_cli"
proof -
  have "\<exists>sub \<in> set (app_subcommands kscope_app). sub_name sub = ''trace'' \<and> sub_options sub = add_common"
    unfolding kscope_app_def subcommand_def by simp
  then obtain sub where sub: "sub \<in> set (app_subcommands kscope_app)" "sub_name sub = ''trace''" "sub_options sub = add_common"
    by blast
  show ?thesis
    unfolding quiet_cli_def
    by (rule cli_sound_one_line [OF sub(1,2)]) (simp_all add: sub(3) add_common_def add_option_def add_flag_def fits_def)
qed

theorem main_quiet_witness:
  "\<exists>cfg ex t msg. parse_args quiet_cli quiet_argv = Inr cfg \<and> cfg_quiet cfg \<and>
     main quiet_cli (sconst (1, 2, 3, 4)) []
       ((willing_world [])\<lparr>w_libbpf := willing_libbpf\<lparr>lb_open := None, lb_prints := \<lambda>_. ''libbpf: x''\<rparr>\<rparr>) quiet_argv = Exited ex \<and>
     ex_code ex = 1 \<and> suffix (emit t Error_Level msg (set_level Error_Level Logger_init)) (ex_stderr ex)"
proof -
  let ?w = "(willing_world [])\<lparr>w_libbpf := willing_libbpf\<lparr>lb_open := None, lb_prints := \<lambda>_. ''libbpf: x''\<rparr>\<rparr>"
  obtain cfg where cfg: "parse_args quiet_cli quiet_argv = Inr cfg" "cfg_quiet cfg" "cfg_command cfg = Trace"
    by (simp add: parse_args_def quiet_cli_def one_line_cli_def kscope_app_def subcommand_def assign_values_def
        bound_variable_def add_common_def add_option_def add_flag_def)
  have "setup_bpf (w_libbpf ?w) pidns c None = (Inl (make_error BpfLoadFailed ''kscope_bpf__open() failed''), None)" for pidns c
    by (simp add: setup_bpf_def loader_open_def)
  then obtain ex where ex: "main quiet_cli (sconst (1, 2, 3, 4)) [] ?w quiet_argv = Exited ex" "ex_code ex = 1"
    by (simp add: main_def cfg run_command_def run_trace_def start_live_def Let_def failed_def)
  obtain lib t msg where "ex_stderr ex = lib @ emit t Error_Level msg (set_level Error_Level Logger_init)"
    using main_quiet [OF cli_sound_quiet cfg(1,2) ex(1)] ex(2) unfolding Let_def by auto
  then have "suffix (emit t Error_Level msg (set_level Error_Level Logger_init)) (ex_stderr ex)"
    by (simp add: suffix_def)
  then show ?thesis using cfg(1,2) ex by blast
qed

end
