(* ===== verification/Lifetimes.thy ===== *)
theory Lifetimes
  imports Collector Ksr_Record
begin

text \<open>
  Construction, moves and destruction of the objects that own resources: the loader and its skeleton
  (\<^verbatim>\<open>src/bpf/loader.cpp\<close>), the collector and its ring buffer, recorder and replay source and their files. For
  the loader a store maps the objects alive to the skeleton each holds; it is shown that no sequence of
  operations destroys a skeleton twice or leaves two owners of one.
\<close>

section \<open>Collector, recorder, replay source, bridge\<close>

text \<open>The destructor of the collector: whether it frees a ring buffer, and the object before its memory goes.\<close>

definition collector_destructor :: "'s Collector \<Rightarrow> bool \<times> 's Collector" where
  "collector_destructor c = (let c = collector_stop c in (co_rb c, c))"

definition recorder_destructor :: "(nat \<Rightarrow> nat) \<Rightarrow> Recorder \<Rightarrow> bytes option \<times> Recorder" where
  "recorder_destructor room r = recorder_close room r"

definition replay_destructor :: "ReplaySource \<Rightarrow> ReplaySource" where
  "replay_destructor src = replay_close src"

definition bridge_ringbuf_fd :: "'k Libbpf \<Rightarrow> 'k BpfLoader \<Rightarrow> int" where
  "bridge_ringbuf_fd lb loader = ringbuf_fd lb loader"

definition bridge_stack_trace_fd :: "'k Libbpf \<Rightarrow> 'k BpfLoader \<Rightarrow> int" where
  "bridge_stack_trace_fd lb loader = stack_trace_fd lb loader"

lemma destructors_close:
  "rec_file (snd (recorder_destructor room r)) = None" "rp_file (replay_destructor src) = None"
  "\<not> co_running (snd (collector_destructor c))" "fst (collector_destructor c) = co_rb c"
  by (simp_all add: recorder_destructor_def recorder_close_def replay_destructor_def replay_close_def
      collector_destructor_def collector_stop_def)

section \<open>Loaders\<close>

text \<open>
  The store: the objects alive with the skeleton in \<^verbatim>\<open>skel_\<close>, the number of skeletons opened so far (skeleton
  \<open>n\<close> is the \<open>n\<close>-th), the calls of \<^verbatim>\<open>kscope_bpf__destroy\<close>, and the skeletons whose only pointer was overwritten.
\<close>

record Store =
  st_loaders :: "nat \<Rightarrow> nat option option"
  st_opened :: nat
  st_destroyed :: "nat list"
  st_leaked :: "nat list"

definition Store_init :: Store where
  "Store_init = \<lparr>st_loaders = Map.empty, st_opened = 0, st_destroyed = [], st_leaked = []\<rparr>"

definition skel :: "nat \<Rightarrow> Store \<Rightarrow> nat option" where
  "skel x st = (case st_loaders st x of None \<Rightarrow> None | Some p \<Rightarrow> p)"

definition set_skel :: "nat \<Rightarrow> nat option \<Rightarrow> Store \<Rightarrow> Store" where
  "set_skel x p st = st\<lparr>st_loaders := (st_loaders st)(x \<mapsto> p)\<rparr>"

definition store_destroy :: "nat \<Rightarrow> Store \<Rightarrow> Store" where
  "store_destroy x st =
     (case skel x st of
        None \<Rightarrow> st
      | Some h \<Rightarrow> (set_skel x None st)\<lparr>st_destroyed := st_destroyed st @ [h]\<rparr>)"

definition store_open :: "nat \<Rightarrow> bool \<Rightarrow> Store \<Rightarrow> Store" where
  "store_open x ok st =
     (let st1 = st\<lparr>st_leaked := st_leaked st @ (case skel x st of None \<Rightarrow> [] | Some h \<Rightarrow> [h])\<rparr> in
      if ok then (set_skel x (Some (st_opened st)) st1)\<lparr>st_opened := Suc (st_opened st)\<rparr> else set_skel x None st1)"

definition move_construct :: "nat \<Rightarrow> nat \<Rightarrow> Store \<Rightarrow> Store" where
  "move_construct x y st = set_skel y None (set_skel x (skel y st) st)"

definition move_assign :: "nat \<Rightarrow> nat \<Rightarrow> Store \<Rightarrow> Store" where
  "move_assign x y st =
     (if x \<noteq> y then let st1 = store_destroy x st in set_skel y None (set_skel x (skel y st1) st1) else st)"

definition loader_destructor :: "nat \<Rightarrow> Store \<Rightarrow> Store" where
  "loader_destructor x st = (let st1 = store_destroy x st in st1\<lparr>st_loaders := (st_loaders st1)(x := None)\<rparr>)"

text \<open>Any sequence of operations on objects that are alive (and constructions of objects that are not).\<close>

inductive store_reachable :: "Store \<Rightarrow> bool" where
  start: "store_reachable Store_init"
| construct: "store_reachable st \<Longrightarrow> st_loaders st x = None \<Longrightarrow> store_reachable (set_skel x None st)"
| opens: "store_reachable st \<Longrightarrow> st_loaders st x \<noteq> None \<Longrightarrow> store_reachable (store_open x ok st)"
| destroying: "store_reachable st \<Longrightarrow> st_loaders st x \<noteq> None \<Longrightarrow> store_reachable (store_destroy x st)"
| moving: "store_reachable st \<Longrightarrow> st_loaders st x = None \<Longrightarrow> st_loaders st y \<noteq> None \<Longrightarrow>
    store_reachable (move_construct x y st)"
| assigning: "store_reachable st \<Longrightarrow> st_loaders st x \<noteq> None \<Longrightarrow> st_loaders st y \<noteq> None \<Longrightarrow>
    store_reachable (move_assign x y st)"
| destructing: "store_reachable st \<Longrightarrow> st_loaders st x \<noteq> None \<Longrightarrow> store_reachable (loader_destructor x st)"

text \<open>Every skeleton opened is in exactly one place: with one owner, destroyed once, or leaked.\<close>

definition holders :: "nat \<Rightarrow> Store \<Rightarrow> nat set" where
  "holders h st = {x. st_loaders st x = Some (Some h)}"

definition places :: "nat \<Rightarrow> Store \<Rightarrow> nat" where
  "places h st = card (holders h st) + count_list (st_destroyed st) h + count_list (st_leaked st) h"

definition accounted :: "Store \<Rightarrow> bool" where
  "accounted st \<longleftrightarrow> finite (dom (st_loaders st)) \<and> (\<forall>h. places h st = (if h < st_opened st then 1 else 0))"

lemma skel_holders: "x \<in> holders h st \<longleftrightarrow> skel x st = Some h"
  by (auto simp: skel_def holders_def split: option.split)

lemma finite_holders: "finite (dom (st_loaders st)) \<Longrightarrow> finite (holders h st)"
  by (rule finite_subset [of _ "dom (st_loaders st)"]) (auto simp: holders_def)

lemma skel_set_skel: "skel y (set_skel x p st) = (if y = x then p else skel y st)"
  by (simp add: skel_def set_skel_def)

lemma card_set_skel:
  assumes "finite (dom (st_loaders st))"
  shows "card (holders h (set_skel x p st)) + (if skel x st = Some h then 1 else 0) =
    card (holders h st) + (if p = Some h then 1 else 0)"
proof -
  note fin = finite_holders [OF assms, of h] and mem = skel_holders [of x h st]
  have new: "holders h (set_skel x p st) = (if p = Some h then insert x (holders h st) else holders h st - {x})"
  proof (rule set_eqI)
    fix y
    show "y \<in> holders h (set_skel x p st) \<longleftrightarrow> y \<in> (if p = Some h then insert x (holders h st) else holders h st - {x})"
      by (cases "y = x") (simp_all add: skel_holders skel_set_skel)
  qed
  show ?thesis
  proof (cases "x \<in> holders h st")
    case True
    from card_Suc_Diff1 [OF fin this] have "Suc (card (holders h st - {x})) = card (holders h st)" .
    then show ?thesis using True mem by (simp add: new insert_absorb)
  next
    case False
    then have "skel x st \<noteq> Some h" using mem by simp
    then show ?thesis using False fin by (simp add: new)
  qed
qed

lemma set_skel_fields [simp]:
  "st_opened (set_skel x p st) = st_opened st" "st_destroyed (set_skel x p st) = st_destroyed st"
  "st_leaked (set_skel x p st) = st_leaked st" "finite (dom (st_loaders (set_skel x p st))) = finite (dom (st_loaders st))"
  by (simp_all add: set_skel_def)

lemma destroy_accounted:
  assumes "accounted st"
  shows "accounted (store_destroy x st)" "skel x (store_destroy x st) = None"
    "y \<noteq> x \<Longrightarrow> skel y (store_destroy x st) = skel y st"
proof -
  have fin: "finite (dom (st_loaders st))" using assms by (simp add: accounted_def)
  show "skel x (store_destroy x st) = None" "y \<noteq> x \<Longrightarrow> skel y (store_destroy x st) = skel y st"
    by (auto simp: store_destroy_def skel_def set_skel_def split: option.splits)
  have "places k (store_destroy x st) = places k st" for k
    using card_set_skel [OF fin, of k x None]
    by (auto simp: store_destroy_def places_def holders_def split: option.split)
  then show "accounted (store_destroy x st)"
    using assms by (simp add: accounted_def store_destroy_def split: option.split)
qed

lemma accountedI:
  assumes "accounted st" "finite (dom (st_loaders st'))"
    and "\<And>k. places k st' = places k st + (if st_opened st \<le> k \<and> k < st_opened st' then 1 else 0)" "st_opened st \<le> st_opened st'"
  shows "accounted st'"
  using assms by (auto simp: accounted_def)

lemma open_accounted:
  assumes "accounted st"
  shows "accounted (store_open x ok st)"
proof (rule accountedI [OF assms])
  have fin: "finite (dom (st_loaders st))" using assms by (simp add: accounted_def)
  let ?st = "st\<lparr>st_leaked := st_leaked st @ (case skel x st of None \<Rightarrow> [] | Some h \<Rightarrow> [h])\<rparr>"
  have same: "holders k ?st = holders k st" "skel x ?st = skel x st" for k by (simp_all add: holders_def skel_def)
  have opened: "holders k (u\<lparr>st_opened := n\<rparr>) = holders k u" for k u n by (simp add: holders_def)
  show "finite (dom (st_loaders (store_open x ok st)))" using fin by (simp add: store_open_def set_skel_def Let_def)
  show "st_opened st \<le> st_opened (store_open x ok st)" by (simp add: store_open_def Let_def)
  fix k
  have "finite (dom (st_loaders ?st))" using fin by simp
  note new = card_set_skel [OF this, of k x, unfolded same]
  show "places k (store_open x ok st) = places k st + (if st_opened st \<le> k \<and> k < st_opened (store_open x ok st) then 1 else 0)"
    using new [of "Some (st_opened st)"] new [of None]
    by (cases "skel x st") (auto simp: store_open_def places_def opened Let_def)
qed

lemma take_over_accounted:
  assumes "accounted st" "skel x st = None" "x \<noteq> y"
  shows "accounted (set_skel y None (set_skel x (skel y st) st))"
proof (rule accountedI [OF assms(1)])
  have fin: "finite (dom (st_loaders st))" using assms by (simp add: accounted_def)
  then have fin': "finite (dom (st_loaders (set_skel x (skel y st) st)))" by simp
  then show "finite (dom (st_loaders (set_skel y None (set_skel x (skel y st) st))))" by simp
  fix k
  show "places k (set_skel y None (set_skel x (skel y st) st)) = places k st +
      (if st_opened st \<le> k \<and> k < st_opened (set_skel y None (set_skel x (skel y st) st)) then 1 else 0)"
    using card_set_skel [OF fin, of k x "skel y st"] card_set_skel [OF fin', of k y None] assms(2,3)
    by (simp add: places_def skel_set_skel)
qed simp

lemma remove_accounted:
  assumes "accounted st" "skel x st = None"
  shows "accounted (st\<lparr>st_loaders := (st_loaders st)(x := None)\<rparr>)"
proof (rule accountedI [OF assms(1)])
  show "finite (dom (st_loaders (st\<lparr>st_loaders := (st_loaders st)(x := None)\<rparr>)))"
    using assms(1) by (simp add: accounted_def)
  fix k
  have "holders k (st\<lparr>st_loaders := (st_loaders st)(x := None)\<rparr>) = holders k st"
    using assms(2) skel_holders [of x k st] by (auto simp: holders_def)
  then show "places k (st\<lparr>st_loaders := (st_loaders st)(x := None)\<rparr>) = places k st +
      (if st_opened st \<le> k \<and> k < st_opened (st\<lparr>st_loaders := (st_loaders st)(x := None)\<rparr>) then 1 else 0)"
    by (simp add: places_def)
qed simp

lemma construct_accounted:
  assumes "accounted st" "st_loaders st x = None"
  shows "accounted (set_skel x None st)"
proof (rule accountedI [OF assms(1)])
  have fin: "finite (dom (st_loaders st))" using assms by (simp add: accounted_def)
  then show "finite (dom (st_loaders (set_skel x None st)))" by simp
  fix k
  have "skel x st = None" using assms(2) by (simp add: skel_def)
  then show "places k (set_skel x None st) = places k st + (if st_opened st \<le> k \<and> k < st_opened (set_skel x None st) then 1 else 0)"
    using card_set_skel [OF fin, of k x None] by (simp add: places_def)
qed simp

lemma store_accounted: "store_reachable st \<Longrightarrow> accounted st"
proof (induction rule: store_reachable.induct)
  case start
  then show ?case by (simp add: accounted_def places_def Store_init_def holders_def)
next
  case (moving st x y)
  then have "x \<noteq> y" "skel x st = None" by (auto simp: skel_def)
  then show ?case using take_over_accounted moving.IH by (simp add: move_construct_def)
next
  case (assigning st x y)
  note d = destroy_accounted [OF assigning.IH, of x]
  show ?case using take_over_accounted [OF d(1,2), of y] assigning.IH by (simp add: move_assign_def Let_def)
next
  case (destructing st x)
  then show ?case using remove_accounted destroy_accounted by (simp add: loader_destructor_def Let_def)
qed (simp_all add: construct_accounted open_accounted destroy_accounted)

lemma distinct_count_list: "(\<And>h. count_list xs h \<le> 1) \<Longrightarrow> distinct xs"
proof (induction xs)
  case (Cons x xs)
  have "count_list xs h \<le> 1" for h using Cons.prems [of h] by (auto split: if_splits)
  moreover have "count_list xs x = 0" using Cons.prems [of x] by simp
  ultimately show ?case using Cons.IH by (simp add: count_list_0_iff)
qed simp

text \<open>
  C38: whatever is constructed, opened, moved, assigned (also to itself) and destructed, no skeleton is destroyed
  twice, no two loaders hold the same one, none held has been destroyed, and when the last loader is gone every
  skeleton opened was destroyed, except those whose loader was opened again while it held one.
\<close>

theorem skeletons_destroyed_once:
  assumes "store_reachable st"
  shows "distinct (st_destroyed st) \<and>
    (\<forall>x y h. skel x st = Some h \<and> skel y st = Some h \<longrightarrow> x = y) \<and>
    (\<forall>x h. skel x st = Some h \<longrightarrow> h \<notin> set (st_destroyed st)) \<and>
    (dom (st_loaders st) = {} \<longrightarrow> (\<forall>h < st_opened st. h \<in> set (st_destroyed st) \<or> h \<in> set (st_leaked st)))"
proof -
  have acc: "finite (dom (st_loaders st))" "\<And>h. places h st \<le> 1" "\<And>h. h < st_opened st \<Longrightarrow> places h st = 1"
    using store_accounted [OF assms] by (auto simp: accounted_def)
  have "count_list (st_destroyed st) h \<le> 1" for h using acc(2) [of h] by (simp add: places_def)
  then have "distinct (st_destroyed st)" by (rule distinct_count_list)
  moreover have "x = y" if "skel x st = Some h" "skel y st = Some h" for x y h
  proof -
    have "card (holders h st) \<le> 1" using acc(2) [of h] by (simp add: places_def)
    then show ?thesis using that skel_holders finite_holders [OF acc(1)] card_le_Suc0_iff_eq by (metis One_nat_def)
  qed
  moreover have "h \<notin> set (st_destroyed st)" if "skel x st = Some h" for x h
  proof -
    have "0 < card (holders h st)" using that skel_holders finite_holders [OF acc(1)] card_gt_0_iff by blast
    then have "count_list (st_destroyed st) h = 0" using acc(2) [of h] by (simp add: places_def)
    then show ?thesis by (simp add: count_list_0_iff)
  qed
  moreover have "h \<in> set (st_destroyed st) \<or> h \<in> set (st_leaked st)" if "dom (st_loaders st) = {}" "h < st_opened st" for h
  proof -
    have "holders h st = {}" using that(1) by (auto simp: holders_def)
    then have "count_list (st_destroyed st) h + count_list (st_leaked st) h = 1" using acc(3) [OF that(2)] by (simp add: places_def)
    then show ?thesis using count_list_0_iff [of "st_destroyed st" h] count_list_0_iff [of "st_leaked st" h] by auto
  qed
  ultimately show ?thesis by blast
qed

theorem skeletons_destroyed_once_witness:
  "\<exists>st. store_reachable st \<and> st_opened st = 1 \<and> st_leaked st = [] \<and> dom (st_loaders st) = {} \<and> 0 \<in> set (st_destroyed st)"
proof -
  let ?a = "store_open 0 True (set_skel 0 None Store_init)"
  let ?b = "move_assign 1 0 (set_skel 1 None ?a)"
  let ?c = "loader_destructor 0 (loader_destructor 1 ?b)"
  note defs = store_open_def set_skel_def Store_init_def move_assign_def loader_destructor_def store_destroy_def skel_def Let_def
  have a: "store_reachable ?a" by (intro opens construct start) (simp_all add: Store_init_def set_skel_def)
  have "store_reachable (set_skel 1 None ?a)" by (intro construct a) (simp add: defs)
  then have b: "store_reachable ?b" by (rule assigning) (simp_all add: defs)
  have "store_reachable (loader_destructor 1 ?b)" by (intro destructing b) (simp add: defs)
  then have c: "store_reachable ?c" by (rule destructing) (simp add: defs)
  moreover have "dom (st_loaders ?c) = {}" "st_opened ?c = 1" "st_leaked ?c = []"
    by (auto simp: defs split: if_splits)
  ultimately show ?thesis using skeletons_destroyed_once [OF c] by force
qed

end
