(* ===== verification/Constants.thy ===== *)
theory Constants
  imports Cli Bpf_Properties Ksr_Format
begin

text \<open>
  The constants of \<^verbatim>\<open>include/kscope/api.hpp\<close> and the enumerations and flags of \<^verbatim>\<open>bpf/events.h\<close>, which the kernel
  and the user side share by value: the lemmas show that the two sides agree on them, and which of them no part
  of the program uses.
\<close>

section \<open>Enumerations of the kernel side\<close>

datatype event_type =
    EV_NONE | EV_SYSCALL_SLOW | EV_OFFCPU_SLICE | EV_LOCK_WAIT | EV_IO_WAIT | EV_PROC_EXEC | EV_PROC_EXIT
  | EV_LOST_SAMPLES | EV_DIAG

fun event_type_value :: "event_type \<Rightarrow> u32" where
  "event_type_value EV_NONE = 0"
| "event_type_value EV_SYSCALL_SLOW = 1"
| "event_type_value EV_OFFCPU_SLICE = 2"
| "event_type_value EV_LOCK_WAIT = 3"
| "event_type_value EV_IO_WAIT = 4"
| "event_type_value EV_PROC_EXEC = 5"
| "event_type_value EV_PROC_EXIT = 6"
| "event_type_value EV_LOST_SAMPLES = 7"
| "event_type_value EV_DIAG = 8"

datatype latency_class =
    LAT_UNKNOWN | LAT_ON_CPU | LAT_OFF_CPU | LAT_SYSCALL_BLOCKED | LAT_IO_WAIT | LAT_LOCK_WAIT | LAT_UNKNOWN_WAIT

fun latency_class_value :: "latency_class \<Rightarrow> u32" where
  "latency_class_value LAT_UNKNOWN = 0"
| "latency_class_value LAT_ON_CPU = 1"
| "latency_class_value LAT_OFF_CPU = 2"
| "latency_class_value LAT_SYSCALL_BLOCKED = 3"
| "latency_class_value LAT_IO_WAIT = 4"
| "latency_class_value LAT_LOCK_WAIT = 5"
| "latency_class_value LAT_UNKNOWN_WAIT = 6"

text \<open>The decoder casts the value; every enumerator of the kernel side is the one of the same name in user space.\<close>

lemma event_types_agree:
  "map (\<lambda>t. event_type_of_code (event_type_value t))
     [EV_NONE, EV_SYSCALL_SLOW, EV_OFFCPU_SLICE, EV_LOCK_WAIT, EV_IO_WAIT, EV_PROC_EXEC, EV_PROC_EXIT, EV_LOST_SAMPLES, EV_DIAG] =
   [EvNone, EvSyscallSlow, EvOffcpuSlice, EvLockWait, EvIoWait, EvProcExec, EvProcExit, EvLostSamples, EvDiag]"
  by (simp add: event_type_of_code_def)

lemma latency_classes_agree:
  "map (\<lambda>t. latency_class_of_code (latency_class_value t))
     [LAT_UNKNOWN, LAT_ON_CPU, LAT_OFF_CPU, LAT_SYSCALL_BLOCKED, LAT_IO_WAIT, LAT_LOCK_WAIT, LAT_UNKNOWN_WAIT] =
   [LatUnknown, LatOnCpu, LatOffCpu, LatSyscallBlocked, LatIoWait, LatLockWait, LatUnknownWait]"
  by (simp add: latency_class_of_code_def)

section \<open>Flags and sizes\<close>

definition TASK_COMM_LEN :: nat where
  "TASK_COMM_LEN = 16"

definition EVF_FILTERED :: u32 where
  "EVF_FILTERED = push_bit 2 1"

definition EVF_TRUNCATED :: u32 where
  "EVF_TRUNCATED = push_bit 3 1"

definition DEFAULT_RINGBUF_SIZE :: u32 where
  "DEFAULT_RINGBUF_SIZE = 16 * 1024 * 1024"

text \<open>The two last flags are never set: no record of any run carries them.\<close>

lemma unused_flags:
  assumes "reachable ro st" "ev \<in> set (events st)"
  shows "and (ev_flags ev) EVF_FILTERED = 0 \<and> and (ev_flags ev) EVF_TRUNCATED = 0"
proof -
  have "ev_flags ev = stack_flags (ev_user_stack_id ev) (ev_kern_stack_id ev)"
    using inv_reachable [OF assms(1)] assms(2) by (auto simp: bpf_inv_def record_ok_def list_all_iff)
  then show ?thesis
    by (simp add: stack_flags_def EVF_HAS_USER_STACK_def EVF_HAS_KERN_STACK_def EVF_FILTERED_def EVF_TRUNCATED_def)
qed

section \<open>Defaults\<close>

definition kDefaultMinLatencyUs :: u64 where "kDefaultMinLatencyUs = 100"
definition kDefaultMinOffcpuUs :: u64 where "kDefaultMinOffcpuUs = 1000"
definition kDefaultWindowSec :: u32 where "kDefaultWindowSec = 5"
definition kDefaultTopN :: u32 where "kDefaultTopN = 20"
definition kDefaultRingbufSizeMb :: u32 where "kDefaultRingbufSizeMb = 16"
definition kDefaultStackSamplingPct :: u32 where "kDefaultStackSamplingPct = 100"
definition kConfigFileName :: string where "kConfigFileName = ''kscope.toml''"
definition kKsrFooter :: bytes where "kKsrFooter = bytes_of_chars ''KSFOOT'' @ [1]"

text \<open>No part of the program reads the defaults, the file name and the footer (a view of a literal ends before its
  first NUL); the literals used instead of the defaults have the same values, in the
  configuration, in the constants of the BPF object and in the size of the ring buffer.\<close>

lemma defaults_agree:
  "cfg_min_latency_us Config_init = kDefaultMinLatencyUs" "cfg_min_offcpu_us Config_init = kDefaultMinOffcpuUs"
  "cfg_window_sec Config_init = kDefaultWindowSec" "cfg_top_n Config_init = kDefaultTopN"
  "cfg_stack_sampling_pct Config_init = kDefaultStackSamplingPct"
  "DEFAULT_RINGBUF_SIZE = kDefaultRingbufSizeMb * 1024 * 1024" "TASK_COMM_LEN = kCommLen"
  by (simp_all add: Config_init_def kDefaultMinLatencyUs_def kDefaultMinOffcpuUs_def kDefaultWindowSec_def
      kDefaultTopN_def kDefaultStackSamplingPct_def kDefaultRingbufSizeMb_def DEFAULT_RINGBUF_SIZE_def
      TASK_COMM_LEN_def kCommLen_def)

lemma rodata_defaults_agree:
  "ro_min_latency_ns rodata_default = us_to_ns kDefaultMinLatencyUs"
  "ro_min_offcpu_ns rodata_default = us_to_ns kDefaultMinOffcpuUs"
  "ro_stack_sampling_pct rodata_default = kDefaultStackSamplingPct"
  by (simp_all add: rodata_default_def us_to_ns_def kDefaultMinLatencyUs_def kDefaultMinOffcpuUs_def
      kDefaultStackSamplingPct_def)

end
