(* ===== verification/Workloads.thy ===== *)
theory Workloads
  imports Doubles Scan "HOL-Library.Signed_Division"
begin

text \<open>
  The sequential test workloads (\<^verbatim>\<open>examples/cpu_stress/main.c\<close>, \<^verbatim>\<open>examples/io_stress/main.c\<close>) and the
  arguments all workloads read with \<^verbatim>\<open>atoi\<close>. A regular file is its bytes, those of them that were synced and
  the position of the descriptor; what the device accepts is an argument, as for the recorder. The locale at the
  end is what the threaded workloads rely on to end.
\<close>

section \<open>Arguments\<close>

text \<open>\<^verbatim>\<open>atoi\<close>: the value of \<^verbatim>\<open>strtol\<close>, which saturates, reduced to 32 bits.\<close>

definition atoi :: "string \<Rightarrow> int" where
  "atoi s =
     (let (neg, s1) = scan_sign (skip_ws (c_str s));
          v = int (digits_value 10 (takeWhile (is_digit 10) s1));
          l = (if neg then max (- (2 ^ 63)) (- v) else min (2 ^ 63 - 1) v)
      in sint (word_of_int l :: u32))"

definition argument :: "string list \<Rightarrow> nat \<Rightarrow> int \<Rightarrow> int" where
  "argument argv k dflt = (if k < length argv then atoi (argv ! k) else dflt)"

text \<open>The lines every workload prints when it starts and when it is done.\<close>

definition banner :: "string \<Rightarrow> int \<Rightarrow> string \<Rightarrow> int \<Rightarrow> string \<Rightarrow> int \<Rightarrow> string" where
  "banner name a what_a b what_b pid =
     name @ '': '' @ int_string a @ what_a @ int_string b @ what_b @ newline @ ''PID: '' @ int_string pid @ newline"

definition done_line :: "string \<Rightarrow> string" where
  "done_line name = name @ '': done'' @ newline"

section \<open>CPU workload\<close>

record sleep_spec =
  sl_sec :: int
  sl_nsec :: int

definition sleep_time :: "int \<Rightarrow> sleep_spec" where
  "sleep_time sleep_us = \<lparr>sl_sec = sleep_us sdiv 1000000, sl_nsec = (sleep_us smod 1000000) * 1000\<rparr>"

definition busy_work :: "nat \<Rightarrow> rat" where
  "busy_work n = ((\<lambda>x. dbl (dbl (x * dbl (10001 / 10000)) + dbl (1 / 10000))) ^^ n) 1"

text \<open>The calls that one run makes.\<close>

datatype cpu_call = Print string | BusyWork nat | Nanosleep sleep_spec

definition cpu_stress :: "int \<Rightarrow> string list \<Rightarrow> cpu_call list" where
  "cpu_stress pid argv =
     (let iterations = argument argv 1 100; sleep_us = argument argv 2 1000; ts = sleep_time sleep_us in
      [Print (banner ''cpu_stress'' iterations '' iterations, '' sleep_us '' us sleep'' pid)] @
      concat (map (\<lambda>i. [BusyWork 100000, Nanosleep ts]) [0..<nat iterations]) @ [Print (done_line ''cpu_stress'')])"

text \<open>\<^verbatim>\<open>nanosleep\<close> accepts a time whose nanoseconds are between 0 and 999999999 and whose seconds are not negative.\<close>

definition valid_time :: "sleep_spec \<Rightarrow> bool" where
  "valid_time ts \<longleftrightarrow> 0 \<le> sl_sec ts \<and> 0 \<le> sl_nsec ts \<and> sl_nsec ts < 1000000000"

lemma truncated_division:
  fixes us :: int
  shows "0 \<le> us \<Longrightarrow> us sdiv 1000000 = us div 1000000" "0 \<le> us \<Longrightarrow> us smod 1000000 = us mod 1000000"
    and "us < 0 \<Longrightarrow> us sdiv 1000000 = - ((- us) div 1000000)" "us < 0 \<Longrightarrow> us smod 1000000 = - ((- us) mod 1000000)"
  by (auto simp: signed_divide_int_def signed_modulo_int_def sgn_if)

lemma truncated_division_id: "us sdiv 1000000 * 1000000 + us smod 1000000 = (us :: int)"
proof (cases "0 \<le> us")
  case True
  then show ?thesis by (simp only: truncated_division div_mult_mod_eq)
next
  case False
  then have "us sdiv 1000000 * 1000000 + us smod 1000000 = - ((- us) div 1000000 * 1000000 + (- us) mod 1000000)"
    by (simp only: truncated_division not_le mult_minus_left minus_add_distrib)
  then show ?thesis by (simp only: div_mult_mod_eq minus_minus)
qed

lemma sleep_time_exact: "sl_sec (sleep_time us) * 1000000000 + sl_nsec (sleep_time us) = us * 1000"
  using truncated_division_id [of us] by (simp add: sleep_time_def)

lemma sleep_time_valid: "valid_time (sleep_time us) \<longleftrightarrow> 0 \<le> us"
proof (cases "0 \<le> us")
  case True
  then show ?thesis
    using pos_mod_bound [of 1000000 us]
    by (simp add: valid_time_def sleep_time_def truncated_division pos_imp_zdiv_nonneg_iff)
next
  case False
  then have "us sdiv 1000000 \<le> 0" by (simp add: signed_divide_int_def sgn_if)
  then show ?thesis
    using False sleep_time_exact [of us] by (auto simp: valid_time_def sleep_time_def)
qed

section \<open>I/O workload\<close>

record OpenFile =
  of_data :: string
  of_synced :: string
  of_pos :: nat

definition sys_write :: "(nat \<Rightarrow> nat) \<Rightarrow> string \<Rightarrow> OpenFile \<Rightarrow> int \<times> OpenFile" where
  "sys_write room buf f =
     (let k = min (length buf) (room (of_pos f));
          pad = of_data f @ replicate (of_pos f - length (of_data f)) (CHR 0x00)
      in (int k, f\<lparr>of_data := take (of_pos f) pad @ take k buf @ drop (of_pos f + k) pad, of_pos := of_pos f + k\<rparr>))"

definition sys_fsync :: "OpenFile \<Rightarrow> OpenFile" where
  "sys_fsync f = f\<lparr>of_synced := of_data f\<rparr>"

definition sys_read :: "nat \<Rightarrow> OpenFile \<Rightarrow> string \<times> OpenFile" where
  "sys_read n f = (let s = take n (drop (of_pos f) (of_data f)) in (s, f\<lparr>of_pos := of_pos f + length s\<rparr>))"

datatype io_end = Completed | WriteFailed | LseekFailed | ReadFailed | LseekEndFailed

text \<open>Pass \<open>i\<close> of the loop: the buffer and the file afterwards, and how it ended. \<open>seekable\<close> tells whether the two
  \<^verbatim>\<open>lseek\<close> calls succeed. \<^verbatim>\<open>read\<close> overwrites the front of the buffer.\<close>

definition io_pass :: "(nat \<Rightarrow> nat) \<Rightarrow> bool \<times> bool \<Rightarrow> int \<Rightarrow> nat \<Rightarrow> string \<times> OpenFile \<Rightarrow> io_end \<times> string \<times> OpenFile" where
  "io_pass room seekable block_size i bf =
     (case bf of (buf, f) \<Rightarrow>
        let (k, f) = sys_write room (take (nat block_size) buf) f in
        if k \<noteq> block_size then (WriteFailed, buf, f)
        else let f = (if i mod 10 = 0 then sys_fsync f else f) in
        if \<not> fst seekable then (LseekFailed, buf, f)
        else let (s, f) = sys_read (nat block_size) (f\<lparr>of_pos := 0\<rparr>); buf = s @ drop (length s) buf in
          if int (length s) \<noteq> block_size then (ReadFailed, buf, f)
          else if \<not> snd seekable then (LseekEndFailed, buf, f)
          else (Completed, buf, f\<lparr>of_pos := length (of_data f)\<rparr>))"

fun io_loop :: "(nat \<Rightarrow> nat) \<Rightarrow> (nat \<Rightarrow> bool \<times> bool) \<Rightarrow> int \<Rightarrow> nat \<Rightarrow> nat \<Rightarrow> string \<times> OpenFile \<Rightarrow> io_end \<times> nat \<times> OpenFile" where
  "io_loop room seekable block_size i 0 bf = (Completed, i, snd bf)"
| "io_loop room seekable block_size i (Suc n) bf =
     (case io_pass room (seekable i) block_size i bf of (e, bf') \<Rightarrow>
        if e = Completed then io_loop room seekable block_size (Suc i) n bf' else (e, i, snd bf'))"

text \<open>The run: the exit code, the text printed, and the end of the loop once it was reached. A size that is
  negative becomes one above the largest that \<^verbatim>\<open>malloc\<close> grants.\<close>

definition io_stress ::
  "int \<Rightarrow> bool \<Rightarrow> bool \<Rightarrow> (nat \<Rightarrow> nat) \<Rightarrow> (nat \<Rightarrow> bool \<times> bool) \<Rightarrow> string list \<Rightarrow>
   int \<times> string \<times> (io_end \<times> nat \<times> OpenFile) option" where
  "io_stress pid mkstemp_ok malloc_ok room seekable argv =
     (let iterations = argument argv 1 200; block_size = argument argv 2 4096;
          out = banner ''io_stress'' iterations '' iterations, '' block_size '' byte blocks'' pid in
      if \<not> mkstemp_ok then (1, out, None)
      else if \<not> malloc_ok \<or> block_size < 0 then (1, out, None)
      else (0, out @ done_line ''io_stress'', Some (io_loop room seekable block_size 0 (nat iterations)
        (replicate (nat block_size) (CHR ''A''), \<lparr>of_data = [], of_synced = [], of_pos = 0\<rparr>))))"

text \<open>The file after \<open>i\<close> complete passes: all blocks are there, those up to the last pass that synced are safe.\<close>

definition synced_blocks :: "nat \<Rightarrow> nat" where
  "synced_blocks i = (if i = 0 then 0 else 10 * ((i - 1) div 10) + 1)"

definition file_after :: "nat \<Rightarrow> nat \<Rightarrow> OpenFile" where
  "file_after b i = \<lparr>of_data = replicate (i * b) (CHR ''A''), of_synced = replicate (synced_blocks i * b) (CHR ''A''),
     of_pos = i * b\<rparr>"

lemma synced_blocks_Suc: "synced_blocks (Suc i) = (if i mod 10 = 0 then Suc i else synced_blocks i)"
proof (cases "i mod 10 = 0")
  case True
  then show ?thesis using div_mult_mod_eq [of i 10] by (simp add: synced_blocks_def)
next
  case False
  then obtain n where n: "i = Suc n" by (cases i) auto
  then have "Suc n mod 10 \<noteq> 0" using False by simp
  then have "Suc n div 10 = n div 10" by (simp only: div_Suc if_False)
  then show ?thesis using False by (simp only: synced_blocks_def n diff_Suc_1 nat.distinct if_False)
qed

lemma replicate_append_replicate: "replicate n x @ replicate m x = replicate (m + n) x"
  by (simp only: replicate_add [symmetric] add.commute)

lemma write_block:
  "b \<le> room (i * b) \<Longrightarrow> sys_write room (replicate b (CHR ''A'')) (file_after b i) =
     (int b, (file_after b i)\<lparr>of_data := replicate (Suc i * b) (CHR ''A''), of_pos := Suc i * b\<rparr>)"
  by (simp add: sys_write_def file_after_def replicate_append_replicate)

lemma read_block:
  "of_data f = replicate (Suc i * b) (CHR ''A'') \<Longrightarrow>
     sys_read b (f\<lparr>of_pos := 0\<rparr>) = (replicate b (CHR ''A''), f\<lparr>of_pos := b\<rparr>)"
  by (simp add: sys_read_def Let_def)

lemma sync_block:
  "(if i mod 10 = 0 then sys_fsync f else f) = f\<lparr>of_synced := if i mod 10 = 0 then of_data f else of_synced f\<rparr>"
  by (simp add: sys_fsync_def)

lemma io_pass_completes:
  assumes "b \<le> room (i * b)"
  shows "io_pass room (True, True) (int b) i (replicate b (CHR ''A''), file_after b i) =
    (Completed, replicate b (CHR ''A''), file_after b (Suc i))"
proof -
  let ?f = "(file_after b i)\<lparr>of_data := replicate (Suc i * b) (CHR ''A''), of_pos := b,
    of_synced := if i mod 10 = 0 then replicate (Suc i * b) (CHR ''A'') else of_synced (file_after b i)\<rparr>"
  have after: "?f\<lparr>of_pos := Suc i * b\<rparr> = file_after b (Suc i)"
    by (simp only: file_after_def synced_blocks_Suc OpenFile.simps) simp
  have r: "sys_read b (?f\<lparr>of_pos := 0\<rparr>) = (replicate b (CHR ''A''), ?f)"
    using read_block [of ?f i b] by simp
  have "io_pass room (True, True) (int b) i (replicate b (CHR ''A''), file_after b i) =
      (Completed, replicate b (CHR ''A''), ?f\<lparr>of_pos := length (of_data ?f)\<rparr>)"
    unfolding io_pass_def prod.case Let_def nat_int take_replicate min.idem write_block [of b room i, OF assms] sync_block
    using r by (cases "i mod 10 = 0") (simp_all del: mult_Suc)
  moreover have "length (of_data ?f) = Suc i * b" by simp
  ultimately show ?thesis unfolding after [symmetric] by simp
qed

lemma io_loop_completes:
  assumes "\<And>k. k \<le> (i + m) * b \<Longrightarrow> b \<le> room k" "\<And>i. seekable i = (True, True)"
  shows "io_loop room seekable (int b) i m (replicate b (CHR ''A''), file_after b i) = (Completed, i + m, file_after b (i + m))"
  using assms(1)
proof (induction m arbitrary: i)
  case (Suc m)
  have "io_pass room (True, True) (int b) i (replicate b (CHR ''A''), file_after b i) =
      (Completed, replicate b (CHR ''A''), file_after b (Suc i))"
    using Suc.prems [of "i * b"] by (intro io_pass_completes) (simp add: add_mult_distrib)
  moreover have "b \<le> room k" if "k \<le> (Suc i + m) * b" for k using Suc.prems [of k] that by simp
  then have "io_loop room seekable (int b) (Suc i) m (replicate b (CHR ''A''), file_after b (Suc i)) =
      (Completed, Suc i + m, file_after b (Suc i + m))"
    by (rule Suc.IH)
  ultimately show ?case by (simp add: assms(2) [of i])
qed simp

text \<open>On a device with room for all blocks, the workload performs all its passes.\<close>

lemma io_stress_full_device:
  assumes "\<And>k. nat (argument argv 2 4096) \<le> room k" "\<And>i. seekable i = (True, True)" "0 \<le> argument argv 2 4096"
  shows "\<exists>out. io_stress pid True True room seekable argv = (0, out, Some (Completed, nat (argument argv 1 200),
    file_after (nat (argument argv 2 4096)) (nat (argument argv 1 200))))"
proof -
  let ?b = "nat (argument argv 2 4096)" and ?n = "nat (argument argv 1 200)"
  have init: "\<lparr>of_data = [], of_synced = [], of_pos = 0\<rparr> = file_after ?b 0"
    by (simp add: file_after_def synced_blocks_def)
  have "io_loop room seekable (int ?b) 0 ?n (replicate ?b (CHR ''A''), file_after ?b 0) = (Completed, ?n, file_after ?b ?n)"
    using io_loop_completes [of 0 ?n ?b room seekable, OF assms(1,2)] by simp
  moreover have "int ?b = argument argv 2 4096" using assms(3) by simp
  ultimately show ?thesis using assms(3) by (simp add: io_stress_def init Let_def)
qed

section \<open>Systems whose runs end\<close>

text \<open>What the threaded workloads promise: every step keeps an invariant and uses up one of the steps left.\<close>

locale terminating_system =
  fixes step :: "'s \<Rightarrow> 's \<Rightarrow> bool" and init :: 's and inv :: "'s \<Rightarrow> bool" and left :: "'s \<Rightarrow> nat"
  assumes inv_init: "inv init"
    and inv_step: "inv s \<Longrightarrow> step s s' \<Longrightarrow> inv s'"
    and left_step: "inv s \<Longrightarrow> step s s' \<Longrightarrow> left s' < left s"
begin

lemma run_bounded: "(step ^^ n) init s \<Longrightarrow> inv s \<and> n + left s \<le> left init"
proof (induction n arbitrary: s)
  case 0
  then show ?case using inv_init by simp
next
  case (Suc n)
  then obtain s1 where s1: "(step ^^ n) init s1" "step s1 s" by auto
  then show ?case using Suc.IH [OF s1(1)] inv_step [OF _ s1(2)] left_step [OF _ s1(2)] by fastforce
qed

lemma reachable_inv: "step\<^sup>*\<^sup>* init s \<Longrightarrow> inv s"
  using run_bounded by (auto simp: rtranclp_power)

lemma no_infinite_run: "\<not> (f 0 = init \<and> (\<forall>n. step (f n) (f (Suc n))))"
proof
  assume f: "f 0 = init \<and> (\<forall>n. step (f n) (f (Suc n)))"
  then have "(step ^^ n) init (f n)" for n by (induction n) auto
  from run_bounded [OF this [of "Suc (left init)"]] show False by simp
qed

end

end
