(* ===== verification/Futex_Stress.thy ===== *)
theory Futex_Stress
  imports Workloads
begin

text \<open>
  The lock contention workload (\<^verbatim>\<open>examples/futex_stress/main.c\<close>): the main thread creates the workers, joins
  them and reports the counter they have incremented under one mutex. The steps are those of the threads in
  any interleaving; the increment of the shared counter is a load and a store. It is shown that the report is
  right on every interleaving, that no thread gets stuck, and that every run ends.
\<close>

section \<open>Threads\<close>

text \<open>Where a worker is, with its loop variable: at the loop test, at the lock, inside with the lock, after the
  load of the counter (with the value loaded), after the store, and returned.\<close>

datatype worker_pc = AtTest nat | Locking nat | HasLock nat | Loaded nat int | Stored nat | Returned

text \<open>The main thread: creating thread \<open>i\<close>, joining thread \<open>i\<close>, or gone with an exit code (and the values printed).\<close>

datatype main_pc = Creating nat | Joining nat | Exited_Early | Reported int int

record Futex =
  fx_main :: main_pc
  fx_workers :: "worker_pc list"
  fx_mutex :: "nat option"
  fx_counter :: int

definition futex_init :: Futex where
  "futex_init = \<lparr>fx_main = Creating 0, fx_workers = [], fx_mutex = None, fx_counter = 0\<rparr>"

text \<open>The arguments; \<open>None\<close> if an allocation fails, in which case \<^verbatim>\<open>main\<close> returns 1. A number of threads that is
  negative becomes a size above the largest that \<^verbatim>\<open>malloc\<close> grants.\<close>

definition futex_args :: "bool \<Rightarrow> string list \<Rightarrow> (int \<times> int) option" where
  "futex_args malloc_ok argv = (let nthreads = argument argv 1 8; iterations = argument argv 2 10000 in
     if malloc_ok \<and> 0 \<le> nthreads then Some (nthreads, iterations) else None)"

text \<open>The process is over when \<^verbatim>\<open>main\<close> has returned, whatever the workers do.\<close>

fun returned :: "main_pc \<Rightarrow> bool" where
  "returned Exited_Early = True"
| "returned (Reported c e) = True"
| "returned _ = False"

text \<open>Exit code and standard output of a run that is over.\<close>

fun futex_output :: "int \<Rightarrow> int \<Rightarrow> int \<Rightarrow> main_pc \<Rightarrow> (int \<times> string) option" where
  "futex_output pid nthreads iterations Exited_Early =
     Some (1, banner ''futex_stress'' nthreads '' threads, '' iterations '' iterations'' pid)"
| "futex_output pid nthreads iterations (Reported c e) =
     Some (0, banner ''futex_stress'' nthreads '' threads, '' iterations '' iterations'' pid @
       ''futex_stress: counter = '' @ int_string c @ '' (expected '' @ int_string e @ '')'' @ newline @ done_line ''futex_stress'')"
| "futex_output pid nthreads iterations _ = None"

inductive worker_step :: "int \<Rightarrow> nat \<Rightarrow> Futex \<Rightarrow> Futex \<Rightarrow> bool" for iterations t where
  enter: "fx_workers s ! t = AtTest i \<Longrightarrow> int i < iterations \<Longrightarrow>
    worker_step iterations t s (s\<lparr>fx_workers := (fx_workers s)[t := Locking i]\<rparr>)"
| leave: "fx_workers s ! t = AtTest i \<Longrightarrow> \<not> int i < iterations \<Longrightarrow>
    worker_step iterations t s (s\<lparr>fx_workers := (fx_workers s)[t := Returned]\<rparr>)"
| lock: "fx_workers s ! t = Locking i \<Longrightarrow> fx_mutex s = None \<Longrightarrow>
    worker_step iterations t s (s\<lparr>fx_workers := (fx_workers s)[t := HasLock i], fx_mutex := Some t\<rparr>)"
| load: "fx_workers s ! t = HasLock i \<Longrightarrow>
    worker_step iterations t s (s\<lparr>fx_workers := (fx_workers s)[t := Loaded i (fx_counter s)]\<rparr>)"
| store: "fx_workers s ! t = Loaded i v \<Longrightarrow>
    worker_step iterations t s (s\<lparr>fx_workers := (fx_workers s)[t := Stored i], fx_counter := v + 1\<rparr>)"
| unlock: "fx_workers s ! t = Stored i \<Longrightarrow>
    worker_step iterations t s (s\<lparr>fx_workers := (fx_workers s)[t := AtTest (Suc i)], fx_mutex := None\<rparr>)"

text \<open>\<^verbatim>\<open>pthread_create\<close> may fail; \<^verbatim>\<open>pthread_join\<close> waits for its thread.\<close>

inductive main_step :: "int \<Rightarrow> int \<Rightarrow> Futex \<Rightarrow> Futex \<Rightarrow> bool" for nthreads iterations where
  create: "fx_main s = Creating i \<Longrightarrow> int i < nthreads \<Longrightarrow>
    main_step nthreads iterations s (s\<lparr>fx_main := Creating (Suc i), fx_workers := fx_workers s @ [AtTest 0]\<rparr>)"
| create_fails: "fx_main s = Creating i \<Longrightarrow> int i < nthreads \<Longrightarrow>
    main_step nthreads iterations s (s\<lparr>fx_main := Exited_Early\<rparr>)"
| created: "fx_main s = Creating i \<Longrightarrow> \<not> int i < nthreads \<Longrightarrow>
    main_step nthreads iterations s (s\<lparr>fx_main := Joining 0\<rparr>)"
| join: "fx_main s = Joining i \<Longrightarrow> int i < nthreads \<Longrightarrow> fx_workers s ! i = Returned \<Longrightarrow>
    main_step nthreads iterations s (s\<lparr>fx_main := Joining (Suc i)\<rparr>)"
| report: "fx_main s = Joining i \<Longrightarrow> \<not> int i < nthreads \<Longrightarrow>
    main_step nthreads iterations s (s\<lparr>fx_main := Reported (fx_counter s) (nthreads * iterations)\<rparr>)"

inductive futex_step :: "int \<Rightarrow> int \<Rightarrow> Futex \<Rightarrow> Futex \<Rightarrow> bool" for nthreads iterations where
  main_turn: "main_step nthreads iterations s s' \<Longrightarrow> futex_step nthreads iterations s s'"
| worker_turn: "\<not> returned (fx_main s) \<Longrightarrow> t < length (fx_workers s) \<Longrightarrow> worker_step iterations t s s' \<Longrightarrow>
    futex_step nthreads iterations s s'"

inductive_cases futex_stepE: "futex_step nthreads iterations s s'"

abbreviation futex_reachable :: "int \<Rightarrow> int \<Rightarrow> Futex \<Rightarrow> bool" where
  "futex_reachable nthreads iterations \<equiv> (futex_step nthreads iterations)\<^sup>*\<^sup>* futex_init"

section \<open>The invariant\<close>

fun in_section :: "worker_pc \<Rightarrow> bool" where
  "in_section (HasLock i) = True"
| "in_section (Loaded i v) = True"
| "in_section (Stored i) = True"
| "in_section _ = False"

text \<open>The increments a worker has stored, and the bounds of its loop variable.\<close>

fun increments :: "int \<Rightarrow> worker_pc \<Rightarrow> int" where
  "increments iterations (AtTest i) = int i"
| "increments iterations (Locking i) = int i"
| "increments iterations (HasLock i) = int i"
| "increments iterations (Loaded i v) = int i"
| "increments iterations (Stored i) = int i + 1"
| "increments iterations Returned = max 0 iterations"

fun in_bounds :: "int \<Rightarrow> worker_pc \<Rightarrow> bool" where
  "in_bounds iterations (AtTest i) \<longleftrightarrow> int i \<le> max 0 iterations"
| "in_bounds iterations (Locking i) \<longleftrightarrow> int i < iterations"
| "in_bounds iterations (HasLock i) \<longleftrightarrow> int i < iterations"
| "in_bounds iterations (Loaded i v) \<longleftrightarrow> int i < iterations"
| "in_bounds iterations (Stored i) \<longleftrightarrow> int i < iterations"
| "in_bounds iterations Returned \<longleftrightarrow> True"

fun main_ok :: "int \<Rightarrow> int \<Rightarrow> worker_pc list \<Rightarrow> int \<Rightarrow> main_pc \<Rightarrow> bool" where
  "main_ok nthreads iterations ws c (Creating i) \<longleftrightarrow> length ws = i \<and> int i \<le> max 0 nthreads"
| "main_ok nthreads iterations ws c (Joining i) \<longleftrightarrow> length ws = nat nthreads \<and> i \<le> length ws \<and> list_all (\<lambda>w. w = Returned) (take i ws)"
| "main_ok nthreads iterations ws c Exited_Early \<longleftrightarrow> int (length ws) < nthreads"
| "main_ok nthreads iterations ws c (Reported c' e) \<longleftrightarrow> length ws = nat nthreads \<and> list_all (\<lambda>w. w = Returned) ws \<and>
     c' = c \<and> e = nthreads * iterations"

definition futex_inv :: "int \<Rightarrow> int \<Rightarrow> Futex \<Rightarrow> bool" where
  "futex_inv nthreads iterations s \<longleftrightarrow>
     fx_counter s = sum_list (map (increments iterations) (fx_workers s)) \<and>
     list_all (in_bounds iterations) (fx_workers s) \<and>
     (\<forall>t < length (fx_workers s). in_section (fx_workers s ! t) \<longleftrightarrow> fx_mutex s = Some t) \<and>
     (\<forall>t. fx_mutex s = Some t \<longrightarrow> t < length (fx_workers s)) \<and>
     (\<forall>t < length (fx_workers s). \<forall>i v. fx_workers s ! t = Loaded i v \<longrightarrow> v = fx_counter s) \<and>
     main_ok nthreads iterations (fx_workers s) (fx_counter s) (fx_main s)"

lemma futex_inv_init: "futex_inv nthreads iterations futex_init"
  by (simp add: futex_inv_def futex_init_def)

lemma sum_list_map_update:
  "t < length xs \<Longrightarrow> sum_list (map f (xs[t := y])) = sum_list (map f xs) + f y - (f (xs ! t) :: int)"
  by (induction xs arbitrary: t) (auto split: nat.split)

text \<open>A step of a worker that has not returned leaves a returned main thread and the joined threads alone.\<close>

lemma main_ok_update:
  assumes "main_ok nthreads iterations ws c m" "t < length ws" "ws ! t \<noteq> Returned" "\<not> returned m"
  shows "main_ok nthreads iterations (ws[t := w]) c' m"
proof (cases m)
  case (Joining i)
  then have "list_all (\<lambda>w. w = Returned) (take i ws)" using assms(1) by simp
  then have "\<not> t < i" using assms(2,3) by (auto simp: list_all_length)
  then show ?thesis using assms(1) Joining by simp
qed (use assms in auto)

lemma worker_update:
  assumes inv: "futex_inv nthreads iterations s" and t: "t < length (fx_workers s)" "\<not> returned (fx_main s)"
    and old: "fx_workers s ! t = old" "old \<noteq> Returned" and bounds: "in_bounds iterations new"
    and counter: "c = fx_counter s + increments iterations new - increments iterations old"
    and mutex: "in_section new \<longleftrightarrow> m = Some t" "\<And>t'. t' \<noteq> t \<Longrightarrow> m = Some t' \<longleftrightarrow> fx_mutex s = Some t'"
    and loaded: "\<And>i v. new = Loaded i v \<Longrightarrow> v = c" "c \<noteq> fx_counter s \<Longrightarrow> in_section old"
  shows "futex_inv nthreads iterations (s\<lparr>fx_workers := (fx_workers s)[t := new], fx_mutex := m, fx_counter := c\<rparr>)"
proof -
  have crit: "\<And>t'. t' < length (fx_workers s) \<Longrightarrow> in_section (fx_workers s ! t') \<longleftrightarrow> fx_mutex s = Some t'"
    and val: "\<And>t' i v. t' < length (fx_workers s) \<Longrightarrow> fx_workers s ! t' = Loaded i v \<Longrightarrow> v = fx_counter s"
    and main: "main_ok nthreads iterations (fx_workers s) (fx_counter s) (fx_main s)"
    using inv by (auto simp: futex_inv_def)
  have other: "v = c" if "t' < length (fx_workers s)" "t' \<noteq> t" "fx_workers s ! t' = Loaded i v" for t' i v
  proof (rule ccontr)
    assume "v \<noteq> c"
    then have "fx_mutex s = Some t" using val [OF that(1,3)] loaded(2) crit [OF t(1)] old(1) by simp
    moreover have "fx_mutex s = Some t'" using crit [OF that(1)] that(3) by simp
    ultimately show False using that(2) by simp
  qed
  have "main_ok nthreads iterations ((fx_workers s)[t := new]) c (fx_main s)"
    using main_ok_update [OF main t(1) _ t(2)] old by simp
  moreover have "c = sum_list (map (increments iterations) ((fx_workers s)[t := new]))"
    using inv counter old(1) t(1) by (simp add: sum_list_map_update futex_inv_def)
  moreover have "list_all (in_bounds iterations) ((fx_workers s)[t := new])"
    using inv bounds set_update_subset_insert [of "fx_workers s" t new] by (auto simp: futex_inv_def list_all_iff)
  moreover have "in_section ((fx_workers s)[t := new] ! t') \<longleftrightarrow> m = Some t'" if "t' < length (fx_workers s)" for t'
    using crit [OF that] mutex that by (cases "t' = t") simp_all
  moreover have "t' < length (fx_workers s)" if "m = Some t'" for t'
    using that mutex(2) [of t'] t(1) inv by (cases "t' = t") (auto simp: futex_inv_def)
  moreover have "v = c" if "t' < length (fx_workers s)" "(fx_workers s)[t := new] ! t' = Loaded i v" for t' i v
    using that loaded(1) other by (cases "t' = t") auto
  ultimately show ?thesis by (simp add: futex_inv_def)
qed

lemma worker_step_inv:
  assumes "worker_step iterations t s s'" "futex_inv nthreads iterations s" "t < length (fx_workers s)" "\<not> returned (fx_main s)"
  shows "futex_inv nthreads iterations s'"
proof -
  note up = worker_update [OF assms(2-4)]
  have bound: "in_bounds iterations (fx_workers s ! t)"
    and crit: "\<And>t'. t' < length (fx_workers s) \<Longrightarrow> in_section (fx_workers s ! t') \<longleftrightarrow> fx_mutex s = Some t'"
    and val: "\<And>i v. fx_workers s ! t = Loaded i v \<Longrightarrow> v = fx_counter s"
    using assms(2,3) by (auto simp: futex_inv_def list_all_length)
  from assms(1) show ?thesis
  proof cases
    case (enter i)
    then show ?thesis
      using up [of "AtTest i" "Locking i" "fx_counter s" "fx_mutex s"] crit [OF assms(3)] by simp
  next
    case (leave i)
    then show ?thesis
      using up [of "AtTest i" Returned "fx_counter s" "fx_mutex s"] crit [OF assms(3)] bound by simp
  next
    case (lock i)
    then show ?thesis
      using up [of "Locking i" "HasLock i" "fx_counter s" "Some t"] bound by simp
  next
    case (load i)
    have "futex_inv nthreads iterations (s\<lparr>fx_workers := (fx_workers s)[t := Loaded i (fx_counter s)],
        fx_mutex := fx_mutex s, fx_counter := fx_counter s\<rparr>)"
      by (rule up [where old = "HasLock i"]) (use load crit [OF assms(3)] bound in simp_all)
    then show ?thesis using load(1) by simp
  next
    case (store i v)
    have "futex_inv nthreads iterations (s\<lparr>fx_workers := (fx_workers s)[t := Stored i],
        fx_mutex := fx_mutex s, fx_counter := v + 1\<rparr>)"
      by (rule up [where old = "Loaded i v"]) (use store crit [OF assms(3)] bound val in simp_all)
    then show ?thesis using store(1) by simp
  next
    case (unlock i)
    then show ?thesis
      using up [of "Stored i" "AtTest (Suc i)" "fx_counter s" None] crit [OF assms(3)] bound by auto
  qed
qed

lemma main_step_inv:
  assumes "main_step nthreads iterations s s'" "futex_inv nthreads iterations s"
  shows "futex_inv nthreads iterations s'"
  using assms(1)
proof cases
  case (create i)
  then show ?thesis
    using assms(2) by (auto simp: futex_inv_def nth_append less_Suc_eq)
next
  case (create_fails i)
  then show ?thesis using assms(2) by (auto simp: futex_inv_def)
next
  case (created i)
  then show ?thesis using assms(2) by (auto simp: futex_inv_def)
next
  case (join i)
  then show ?thesis
    using assms(2) by (auto simp: futex_inv_def take_Suc_conv_app_nth)
next
  case (report i)
  then show ?thesis using assms(2) by (auto simp: futex_inv_def)
qed

lemma futex_reachable_inv: "futex_reachable nthreads iterations s \<Longrightarrow> futex_inv nthreads iterations s"
  by (induction rule: rtranclp_induct)
     (auto simp: futex_inv_init elim!: futex_stepE dest: main_step_inv worker_step_inv)

section \<open>Progress\<close>

text \<open>The steps left to a worker and to the main thread; each step takes at least one away.\<close>

fun worker_left :: "int \<Rightarrow> worker_pc \<Rightarrow> nat" where
  "worker_left iterations (AtTest i) = 5 * (nat iterations - i) + 1"
| "worker_left iterations (Locking i) = 5 * (nat iterations - i)"
| "worker_left iterations (HasLock i) = 5 * (nat iterations - i) - 1"
| "worker_left iterations (Loaded i v) = 5 * (nat iterations - i) - 2"
| "worker_left iterations (Stored i) = 5 * (nat iterations - i) - 3"
| "worker_left iterations Returned = 0"

fun main_left :: "int \<Rightarrow> int \<Rightarrow> main_pc \<Rightarrow> nat" where
  "main_left nthreads iterations (Creating i) = (nat nthreads - i) * (5 * nat iterations + 2) + nat nthreads + 3"
| "main_left nthreads iterations (Joining i) = nat nthreads - i + 1"
| "main_left nthreads iterations Exited_Early = 0"
| "main_left nthreads iterations (Reported c e) = 0"

definition steps_left :: "int \<Rightarrow> int \<Rightarrow> Futex \<Rightarrow> nat" where
  "steps_left nthreads iterations s =
     main_left nthreads iterations (fx_main s) + sum_list (map (worker_left iterations) (fx_workers s))"

lemma sum_list_map_decrease:
  "t < length xs \<Longrightarrow> f y < f (xs ! t) \<Longrightarrow> sum_list (map f (xs[t := y])) < (sum_list (map f xs) :: nat)"
  by (induction xs arbitrary: t) (auto split: nat.split)

lemma worker_step_left:
  assumes "worker_step iterations t s s'" "futex_inv nthreads iterations s" "t < length (fx_workers s)"
  shows "steps_left nthreads iterations s' < steps_left nthreads iterations s"
proof -
  have "in_bounds iterations (fx_workers s ! t)"
    using assms(2,3) by (simp add: futex_inv_def list_all_length)
  with assms(1,3) show ?thesis
    by cases (auto simp: steps_left_def intro!: sum_list_map_decrease)
qed

lemma main_step_left:
  assumes "main_step nthreads iterations s s'" "futex_inv nthreads iterations s"
  shows "steps_left nthreads iterations s' < steps_left nthreads iterations s"
  using assms(1)
proof cases
  case (create i)
  obtain k where k: "nat nthreads - Suc i = k" by blast
  moreover have "nat nthreads - i = Suc k" using create k by simp
  ultimately show ?thesis using create by (simp add: steps_left_def)
qed (auto simp: steps_left_def)

lemma futex_step_left:
  "futex_step nthreads iterations s s' \<Longrightarrow> futex_inv nthreads iterations s \<Longrightarrow>
   steps_left nthreads iterations s' < steps_left nthreads iterations s"
  by (auto elim!: futex_stepE dest: main_step_left worker_step_left)

text \<open>Only a returned main thread stops the process: the holder of the mutex can always go on, and without a
  holder any worker that has not returned can.\<close>

lemma worker_can_step:
  assumes "t < length (fx_workers s)" "fx_workers s ! t \<noteq> Returned" "\<And>i. fx_workers s ! t = Locking i \<Longrightarrow> fx_mutex s = None"
  shows "\<exists>s'. worker_step iterations t s s'"
proof (cases "fx_workers s ! t")
  case (AtTest i)
  then show ?thesis using enter [OF AtTest] leave [OF AtTest] by (cases "int i < iterations") blast+
next
  case (Locking i)
  then show ?thesis using lock [OF Locking assms(3) [OF Locking]] by blast
next
  case (HasLock i)
  then show ?thesis using load [OF HasLock] by blast
next
  case (Loaded i v)
  then show ?thesis using store [OF Loaded] by blast
next
  case (Stored i)
  then show ?thesis using unlock [OF Stored] by blast
qed (use assms(2) in simp)

lemma futex_progress:
  assumes "futex_inv nthreads iterations s" "\<not> returned (fx_main s)"
  shows "\<exists>s'. futex_step nthreads iterations s s'"
proof (cases "\<exists>t < length (fx_workers s). fx_workers s ! t \<noteq> Returned")
  case True
  then obtain t where t: "t < length (fx_workers s)" "fx_workers s ! t \<noteq> Returned" by blast
  have "\<exists>t s'. t < length (fx_workers s) \<and> worker_step iterations t s s'"
  proof (cases "fx_mutex s")
    case None
    then show ?thesis using worker_can_step [OF t] t(1) by blast
  next
    case (Some t')
    then have "t' < length (fx_workers s)" "in_section (fx_workers s ! t')"
      using assms(1) by (auto simp: futex_inv_def)
    moreover from this(2) have "fx_workers s ! t' \<noteq> Returned" "\<And>i. fx_workers s ! t' \<noteq> Locking i" by auto
    ultimately show ?thesis using worker_can_step [of t' s] by metis
  qed
  then show ?thesis using worker_turn [OF assms(2)] by blast
next
  case False
  show ?thesis
  proof (cases "fx_main s")
    case (Joining i)
    have "fx_workers s ! i = Returned" if "int i < nthreads"
    proof -
      have "i < length (fx_workers s)" using assms(1) Joining that by (simp add: futex_inv_def)
      then show ?thesis using False by blast
    qed
    then show ?thesis
      using main_turn [OF join [OF Joining]] main_turn [OF report [OF Joining]] by (cases "int i < nthreads") blast+
  next
    case (Creating i)
    then show ?thesis
      using main_turn [OF create [OF Creating]] main_turn [OF created [OF Creating]] by (cases "int i < nthreads") blast+
  qed (use assms(2) in auto)
qed

interpretation futex: terminating_system "futex_step nthreads iterations" futex_init
  "futex_inv nthreads iterations" "steps_left nthreads iterations"
  using futex_step_left
  by unfold_locales (auto simp: futex_inv_init elim!: futex_stepE dest: main_step_inv worker_step_inv)

lemma increments_bounds: "in_bounds iterations w \<Longrightarrow> 0 \<le> increments iterations w \<and> increments iterations w \<le> max 0 iterations"
  by (cases w) auto

lemma sum_increments:
  "list_all (in_bounds iterations) ws \<Longrightarrow> 0 \<le> sum_list (map (increments iterations) ws) \<and>
   sum_list (map (increments iterations) ws) \<le> int (length ws) * max 0 iterations"
  by (induction ws) (auto simp: algebra_simps dest!: increments_bounds)

lemma sum_returned:
  "list_all (\<lambda>w. w = Returned) ws \<Longrightarrow> sum_list (map (increments iterations) ws) = int (length ws) * max 0 iterations"
  by (induction ws) (auto simp: algebra_simps)

text \<open>
  C39: the lock contention workload counts right on every interleaving: with arguments that are not negative,
  at most one worker is ever between its lock and its unlock; the counter stays between 0 and the number of
  iterations of all threads, so it fits its type; if the program reports, it reports that number, as
  expected; as long as \<^verbatim>\<open>main\<close> has not returned some thread can take a step; and no run has more than
  \<open>nthreads * (5 * iterations + 3) + 3\<close> steps, so every run ends with \<^verbatim>\<open>main\<close> returning.
\<close>

theorem futex_stress_total:
  assumes "0 \<le> nthreads" "0 \<le> iterations" "(futex_step nthreads iterations ^^ n) futex_init s"
  shows "(\<forall>t t'. t < length (fx_workers s) \<and> t' < length (fx_workers s) \<and>
        in_section (fx_workers s ! t) \<and> in_section (fx_workers s ! t') \<longrightarrow> t = t') \<and>
    0 \<le> fx_counter s \<and> fx_counter s \<le> nthreads * iterations \<and>
    (\<forall>c e. fx_main s = Reported c e \<longrightarrow> c = nthreads * iterations \<and> e = nthreads * iterations) \<and>
    (\<not> returned (fx_main s) \<longrightarrow> (\<exists>s'. futex_step nthreads iterations s s')) \<and>
    int n \<le> nthreads * (5 * iterations + 3) + 3"
proof -
  have inv: "futex_inv nthreads iterations s" and left: "n \<le> steps_left nthreads iterations futex_init"
    using futex.run_bounded [OF assms(3)] by auto
  have "steps_left nthreads iterations futex_init = nat nthreads * (5 * nat iterations + 3) + 3"
    by (simp add: steps_left_def futex_init_def algebra_simps)
  then have "int n \<le> nthreads * (5 * iterations + 3) + 3" using left assms(1,2) by (simp flip: of_nat_le_iff [where 'a = int])
  moreover have len: "int (length (fx_workers s)) \<le> nthreads"
    using inv assms(1) by (cases "fx_main s") (auto simp: futex_inv_def)
  then have "int (length (fx_workers s)) * iterations \<le> nthreads * iterations" using assms(2) by (rule mult_right_mono)
  then have "0 \<le> fx_counter s" "fx_counter s \<le> nthreads * iterations"
    using sum_increments [of iterations "fx_workers s"] inv assms(2) by (auto simp: futex_inv_def)
  moreover have "c = nthreads * iterations \<and> e = nthreads * iterations" if "fx_main s = Reported c e" for c e
    using inv that assms(1,2) sum_returned [of "fx_workers s" iterations] by (auto simp: futex_inv_def)
  moreover have "\<forall>t t'. t < length (fx_workers s) \<and> t' < length (fx_workers s) \<and>
      in_section (fx_workers s ! t) \<and> in_section (fx_workers s ! t') \<longrightarrow> t = t'"
    using inv unfolding futex_inv_def by fastforce
  ultimately show ?thesis using futex_progress [OF inv] by blast
qed

text \<open>A run of one worker with one iteration.\<close>

theorem futex_stress_total_witness:
  "\<exists>s. (futex_step 1 1 ^^ 10) futex_init s \<and> fx_main s = Reported 1 1"
proof -
  let ?st = "\<lambda>m w x c. \<lparr>fx_main = m, fx_workers = [w], fx_mutex = x, fx_counter = c\<rparr>"
  have s1: "futex_step 1 1 futex_init (?st (Creating 1) (AtTest 0) None 0)"
    using main_turn [OF create [of futex_init 0 1 1]] by (simp add: futex_init_def)
  have s2: "futex_step 1 1 (?st (Creating 1) (AtTest 0) None 0) (?st (Joining 0) (AtTest 0) None 0)"
    using main_turn [OF created [of "?st (Creating 1) (AtTest 0) None 0" 1 1 1]] by simp
  have s3: "futex_step 1 1 (?st (Joining 0) (AtTest 0) None 0) (?st (Joining 0) (Locking 0) None 0)"
    using worker_turn [OF _ _ enter [of "?st (Joining 0) (AtTest 0) None 0" 0 0 1]] by simp
  have s4: "futex_step 1 1 (?st (Joining 0) (Locking 0) None 0) (?st (Joining 0) (HasLock 0) (Some 0) 0)"
    using worker_turn [OF _ _ lock [of "?st (Joining 0) (Locking 0) None 0" 0 0 1]] by simp
  have s5: "futex_step 1 1 (?st (Joining 0) (HasLock 0) (Some 0) 0) (?st (Joining 0) (Loaded 0 0) (Some 0) 0)"
    using worker_turn [OF _ _ load [of "?st (Joining 0) (HasLock 0) (Some 0) 0" 0 0 1]] by simp
  have s6: "futex_step 1 1 (?st (Joining 0) (Loaded 0 0) (Some 0) 0) (?st (Joining 0) (Stored 0) (Some 0) 1)"
    using worker_turn [OF _ _ store [of "?st (Joining 0) (Loaded 0 0) (Some 0) 0" 0 0 0 1]] by simp
  have s7: "futex_step 1 1 (?st (Joining 0) (Stored 0) (Some 0) 1) (?st (Joining 0) (AtTest 1) None 1)"
    using worker_turn [OF _ _ unlock [of "?st (Joining 0) (Stored 0) (Some 0) 1" 0 0 1]] by simp
  have s8: "futex_step 1 1 (?st (Joining 0) (AtTest 1) None 1) (?st (Joining 0) (Returned) None 1)"
    using worker_turn [OF _ _ leave [of "?st (Joining 0) (AtTest 1) None 1" 0 1 1]] by simp
  have s9: "futex_step 1 1 (?st (Joining 0) (Returned) None 1) (?st (Joining 1) (Returned) None 1)"
    using main_turn [OF join [of "?st (Joining 0) (Returned) None 1" 0 1 1]] by simp
  obtain c e where s10: "futex_step 1 1 (?st (Joining 1) Returned None 1) (?st (Reported c e) Returned None 1)"
    using main_turn [OF report [of "?st (Joining 1) Returned None 1" 1 1 1]] by simp
  let ?R = "futex_step 1 1"
  note extend = relpowp_Suc_I [where P = ?R and x = futex_init]
  note run = extend [OF extend [OF extend [OF extend [OF extend [OF
    extend [OF extend [OF extend [OF extend [OF extend [OF relpowp_0_I [where P = ?R and x = futex_init] s1] s2] s3] s4] s5] s6] s7] s8] s9] s10]
  have "Suc (Suc (Suc (Suc (Suc (Suc (Suc (Suc (Suc (Suc 0))))))))) = 10" by simp
  note run [unfolded this]
  moreover from futex_stress_total [OF _ _ this] have "c = 1" "e = 1" by simp_all
  ultimately show ?thesis by auto
qed

end
