(* ===== verification/Net_Stress.thy ===== *)
theory Net_Stress
  imports Workloads
begin

text \<open>
  The network workload (\<^verbatim>\<open>examples/net_stress/main.c\<close>): an echo server thread and a client in the main thread.
  The steps are those of the two threads in any interleaving, with the allocations and the system calls on
  sockets allowed to fail, whether or not the code looks at the result; a thread that could not be created
  behaves as one that fails at once. A connection is named by the number of the client's iteration and carries
  counts of bytes; a send that does not fail hands over all of them. It is shown that without failures every
  run with a positive message size ends with all messages echoed, that one with size 0 hangs, and that a
  failure of the server before it is ready leaves the program waiting for ever.
\<close>

section \<open>Threads\<close>

datatype server_pc =
    SSocket | SBind | SListen | SPublish | SLoop nat | SReceive nat nat | SSend nat nat nat | SClose nat nat | SReturned

text \<open>\<open>SReceive j c\<close>: iteration \<open>j\<close> has accepted connection \<open>c\<close>; \<open>SSend\<close> also has the number of bytes received.\<close>

datatype client_pc = MWait | MLoop nat | MConnect nat | MSend nat | MReceive nat | MJoin | MReturned | MKilled

text \<open>\<open>MKilled\<close>: a signal has ended the process, after an access through a null pointer or a write to a broken pipe.\<close>

record Net =
  nt_server :: server_pc
  nt_main :: client_pc
  nt_ready :: bool
  nt_listening :: bool
  nt_pending :: "nat list"
  nt_up :: "nat \<Rightarrow> nat"
  nt_down :: "nat \<Rightarrow> nat"
  nt_client_closed :: "nat \<Rightarrow> bool"
  nt_server_closed :: "nat \<Rightarrow> bool"
  nt_failed :: bool

text \<open>\<open>nt_failed\<close> records that some call has failed; no step depends on it.\<close>

definition net_args :: "string list \<Rightarrow> int \<times> int" where
  "net_args argv = (argument argv 1 100, argument argv 2 256)"

text \<open>Exit code and standard output of a run that is over.\<close>

definition net_output :: "int \<Rightarrow> int \<Rightarrow> int \<Rightarrow> client_pc \<Rightarrow> (int \<times> string) option" where
  "net_output pid iterations msg_size m =
     (if m = MReturned
      then Some (0, banner ''net_stress'' iterations '' iterations, '' msg_size '' byte messages'' pid @ done_line ''net_stress'')
      else None)"

definition net_init :: Net where
  "net_init = \<lparr>nt_server = SSocket, nt_main = MWait, nt_ready = False, nt_listening = False, nt_pending = [],
     nt_up = (\<lambda>_. 0), nt_down = (\<lambda>_. 0), nt_client_closed = (\<lambda>_. False), nt_server_closed = (\<lambda>_. False),
     nt_failed = False\<rparr>"

text \<open>
  The server thread. \<^verbatim>\<open>accept\<close> waits for a connection; \<^verbatim>\<open>recv\<close> with \<^verbatim>\<open>MSG_WAITALL\<close> waits for all bytes or for the
  peer to close, and with a length of 0 for the first byte or the peer to close. Whatever it has received it
  sends back. \<^verbatim>\<open>recv\<close> also fails when the buffer could not be allocated.
\<close>

inductive server_step :: "int \<Rightarrow> int \<Rightarrow> Net \<Rightarrow> Net \<Rightarrow> bool" for iterations msg_size where
  socket: "nt_server s = SSocket \<Longrightarrow> server_step iterations msg_size s (s\<lparr>nt_server := SBind\<rparr>)"
| bind: "nt_server s = SBind \<Longrightarrow> server_step iterations msg_size s (s\<lparr>nt_server := SListen\<rparr>)"
| listen: "nt_server s = SListen \<Longrightarrow>
    server_step iterations msg_size s (s\<lparr>nt_server := SPublish, nt_listening := True\<rparr>)"
| start_fails: "nt_server s \<in> {SSocket, SBind, SListen} \<Longrightarrow>
    server_step iterations msg_size s (s\<lparr>nt_server := SReturned, nt_failed := True\<rparr>)"
| publish: "nt_server s = SPublish \<Longrightarrow>
    server_step iterations msg_size s (s\<lparr>nt_server := SLoop 0, nt_ready := True\<rparr>)"
| accept: "nt_server s = SLoop j \<Longrightarrow> int j < iterations \<Longrightarrow> nt_pending s = c # cs \<Longrightarrow>
    server_step iterations msg_size s (s\<lparr>nt_server := SReceive j c, nt_pending := cs\<rparr>)"
| accept_fails: "nt_server s = SLoop j \<Longrightarrow> int j < iterations \<Longrightarrow>
    server_step iterations msg_size s (s\<lparr>nt_server := SReturned, nt_listening := False, nt_failed := True\<rparr>)"
| receive: "nt_server s = SReceive j c \<Longrightarrow>
    0 < msg_size \<and> nat msg_size \<le> nt_up s c \<or> msg_size = 0 \<and> 0 < nt_up s c \<or> nt_client_closed s c \<Longrightarrow>
    n = min (nat msg_size) (nt_up s c) \<Longrightarrow>
    server_step iterations msg_size s (s\<lparr>nt_server := if 0 < n then SSend j c n else SClose j c\<rparr>)"
| receive_fails: "nt_server s = SReceive j c \<Longrightarrow>
    server_step iterations msg_size s (s\<lparr>nt_server := SClose j c, nt_failed := True\<rparr>)"
| send_back: "nt_server s = SSend j c n \<Longrightarrow>
    server_step iterations msg_size s (s\<lparr>nt_server := SClose j c, nt_down := (nt_down s)(c := n)\<rparr>)"
| send_back_fails: "nt_server s = SSend j c n \<Longrightarrow>
    server_step iterations msg_size s (s\<lparr>nt_server := SClose j c, nt_failed := True\<rparr>)"
| send_back_killed: "nt_server s = SSend j c n \<Longrightarrow> nt_main s \<notin> {MReturned, MKilled} \<Longrightarrow>
    server_step iterations msg_size s (s\<lparr>nt_main := MKilled, nt_failed := True\<rparr>)"
| close_client: "nt_server s = SClose j c \<Longrightarrow>
    server_step iterations msg_size s (s\<lparr>nt_server := SLoop (Suc j), nt_server_closed := (nt_server_closed s)(c := True)\<rparr>)"
| close_socket: "nt_server s = SLoop j \<Longrightarrow> \<not> int j < iterations \<Longrightarrow>
    server_step iterations msg_size s (s\<lparr>nt_server := SReturned, nt_listening := False\<rparr>)"

text \<open>
  The main thread. It waits for \<^verbatim>\<open>server_ready\<close> and fills its buffer, through a null pointer if there was no memory
  for it, which is certain for a negative size since \<^verbatim>\<open>malloc\<close> takes it for a huge one. A connection attempt
  succeeds while the server listens and may fail; \<^verbatim>\<open>recv\<close> returns as for the server, and also when the server is
  gone. The results of \<^verbatim>\<open>send\<close> and \<^verbatim>\<open>recv\<close> are not looked at.
\<close>

inductive client_step :: "int \<Rightarrow> int \<Rightarrow> Net \<Rightarrow> Net \<Rightarrow> bool" for iterations msg_size where
  wake: "nt_main s = MWait \<Longrightarrow> nt_ready s \<Longrightarrow> 0 \<le> msg_size \<Longrightarrow>
    client_step iterations msg_size s (s\<lparr>nt_main := MLoop 0\<rparr>)"
| no_memory: "nt_main s = MWait \<Longrightarrow> nt_ready s \<Longrightarrow> msg_size \<noteq> 0 \<Longrightarrow>
    client_step iterations msg_size s (s\<lparr>nt_main := MKilled, nt_failed := True\<rparr>)"
| client_socket: "nt_main s = MLoop i \<Longrightarrow> int i < iterations \<Longrightarrow>
    client_step iterations msg_size s (s\<lparr>nt_main := MConnect i\<rparr>)"
| client_fails: "nt_main s = MLoop i \<and> int i < iterations \<or> nt_main s = MConnect i \<Longrightarrow>
    client_step iterations msg_size s (s\<lparr>nt_main := MJoin, nt_failed := True\<rparr>)"
| connect: "nt_main s = MConnect i \<Longrightarrow> nt_listening s \<Longrightarrow>
    client_step iterations msg_size s (s\<lparr>nt_main := MSend i, nt_pending := nt_pending s @ [i]\<rparr>)"
| client_send: "nt_main s = MSend i \<Longrightarrow>
    client_step iterations msg_size s (s\<lparr>nt_main := MReceive i, nt_up := (nt_up s)(i := nat msg_size)\<rparr>)"
| client_send_fails: "nt_main s = MSend i \<Longrightarrow>
    client_step iterations msg_size s (s\<lparr>nt_main := MReceive i, nt_failed := True\<rparr>)"
| client_send_killed: "nt_main s = MSend i \<Longrightarrow>
    client_step iterations msg_size s (s\<lparr>nt_main := MKilled, nt_failed := True\<rparr>)"
| client_receive: "nt_main s = MReceive i \<Longrightarrow>
    0 < msg_size \<and> nat msg_size \<le> nt_down s i \<or> msg_size = 0 \<and> 0 < nt_down s i \<or> nt_server_closed s i \<or> nt_server s = SReturned \<Longrightarrow>
    client_step iterations msg_size s (s\<lparr>nt_main := MLoop (Suc i), nt_client_closed := (nt_client_closed s)(i := True)\<rparr>)"
| client_receive_fails: "nt_main s = MReceive i \<Longrightarrow>
    client_step iterations msg_size s
      (s\<lparr>nt_main := MLoop (Suc i), nt_client_closed := (nt_client_closed s)(i := True), nt_failed := True\<rparr>)"
| finish_loop: "nt_main s = MLoop i \<Longrightarrow> \<not> int i < iterations \<Longrightarrow>
    client_step iterations msg_size s (s\<lparr>nt_main := MJoin\<rparr>)"
| join_server: "nt_main s = MJoin \<Longrightarrow> nt_server s = SReturned \<Longrightarrow>
    client_step iterations msg_size s (s\<lparr>nt_main := MReturned\<rparr>)"

text \<open>The return of \<^verbatim>\<open>main\<close> and a deadly signal end both threads.\<close>

inductive net_step :: "int \<Rightarrow> int \<Rightarrow> Net \<Rightarrow> Net \<Rightarrow> bool" for iterations msg_size where
  server_turn: "nt_main s \<notin> {MReturned, MKilled} \<Longrightarrow> server_step iterations msg_size s s' \<Longrightarrow> net_step iterations msg_size s s'"
| client_turn: "client_step iterations msg_size s s' \<Longrightarrow> net_step iterations msg_size s s'"

inductive_cases net_stepE: "net_step iterations msg_size s s'"

abbreviation net_reachable :: "int \<Rightarrow> int \<Rightarrow> Net \<Rightarrow> bool" where
  "net_reachable iterations msg_size \<equiv> (net_step iterations msg_size)\<^sup>*\<^sup>* net_init"

section \<open>A server that does not start\<close>

text \<open>The main thread is past its wait only if the server was ready, and the server is ready only behind its start.\<close>

definition serving :: "server_pc \<Rightarrow> bool" where
  "serving p \<longleftrightarrow> p \<notin> {SSocket, SBind, SListen, SPublish, SReturned}"

definition handshake :: "Net \<Rightarrow> bool" where
  "handshake s \<longleftrightarrow> (nt_main s \<noteq> MWait \<longrightarrow> nt_ready s) \<and> (serving (nt_server s) \<longrightarrow> nt_ready s) \<and>
     (nt_server s \<in> {SSocket, SBind, SListen, SPublish} \<longrightarrow> \<not> nt_ready s) \<and>
     (nt_main s = MReturned \<longrightarrow> nt_server s = SReturned)"

lemma server_handshake: "server_step iterations msg_size s s' \<Longrightarrow> handshake s \<Longrightarrow> handshake s'"
  by (induction rule: server_step.induct) (auto simp: handshake_def serving_def)

lemma client_handshake: "client_step iterations msg_size s s' \<Longrightarrow> handshake s \<Longrightarrow> handshake s'"
  by (induction rule: client_step.induct) (auto simp: handshake_def)

lemma server_returned_stuck: "server_step iterations msg_size s s' \<Longrightarrow> nt_server s \<noteq> SReturned"
  by (induction rule: server_step.induct) auto

lemma waiting_stuck: "client_step iterations msg_size s s' \<Longrightarrow> nt_main s = MWait \<Longrightarrow> nt_ready s"
  by (induction rule: client_step.induct) auto

lemma not_ready_stuck:
  assumes "handshake s" "nt_server s = SReturned" "\<not> nt_ready s"
  shows "nt_main s = MWait" "\<not> net_step iterations msg_size s s'"
proof -
  show m: "nt_main s = MWait" using assms by (auto simp: handshake_def)
  show "\<not> net_step iterations msg_size s s'"
    using assms m server_returned_stuck waiting_stuck by (auto elim!: net_stepE)
qed

section \<open>Runs without failure\<close>

text \<open>How many connections were accepted, are served, were made, and carry their message.\<close>

fun accepted :: "int \<Rightarrow> server_pc \<Rightarrow> nat" where
  "accepted iterations (SLoop j) = j"
| "accepted iterations (SReceive j c) = Suc j"
| "accepted iterations (SSend j c n) = Suc j"
| "accepted iterations (SClose j c) = Suc j"
| "accepted iterations SReturned = nat iterations"
| "accepted iterations _ = 0"

fun served :: "int \<Rightarrow> server_pc \<Rightarrow> nat" where
  "served iterations (SReceive j c) = j"
| "served iterations (SSend j c n) = j"
| "served iterations (SClose j c) = j"
| "served iterations p = accepted iterations p"

fun connections :: "int \<Rightarrow> client_pc \<Rightarrow> nat" where
  "connections iterations MWait = 0"
| "connections iterations (MLoop i) = i"
| "connections iterations (MConnect i) = i"
| "connections iterations (MSend i) = Suc i"
| "connections iterations (MReceive i) = Suc i"
| "connections iterations MJoin = nat iterations"
| "connections iterations MReturned = nat iterations"
| "connections iterations MKilled = 0"

fun sent :: "int \<Rightarrow> client_pc \<Rightarrow> nat" where
  "sent iterations (MSend i) = i"
| "sent iterations p = connections iterations p"

text \<open>The bounds of the loops, and the connection a server is busy with.\<close>

fun server_ok :: "int \<Rightarrow> int \<Rightarrow> (nat \<Rightarrow> nat) \<Rightarrow> server_pc \<Rightarrow> bool" where
  "server_ok iterations msg_size down (SReceive j c) \<longleftrightarrow> int j < iterations \<and> c = j"
| "server_ok iterations msg_size down (SSend j c n) \<longleftrightarrow> int j < iterations \<and> c = j \<and> n = nat msg_size"
| "server_ok iterations msg_size down (SClose j c) \<longleftrightarrow> int j < iterations \<and> c = j \<and> down c = nat msg_size"
| "server_ok iterations msg_size down p \<longleftrightarrow> True"

fun client_ok :: "int \<Rightarrow> client_pc \<Rightarrow> bool" where
  "client_ok iterations (MConnect i) \<longleftrightarrow> int i < iterations"
| "client_ok iterations (MSend i) \<longleftrightarrow> int i < iterations"
| "client_ok iterations (MReceive i) \<longleftrightarrow> int i < iterations"
| "client_ok iterations p \<longleftrightarrow> True"

definition net_inv :: "int \<Rightarrow> int \<Rightarrow> Net \<Rightarrow> bool" where
  "net_inv iterations msg_size s \<longleftrightarrow>
     nt_pending s = [accepted iterations (nt_server s)..<connections iterations (nt_main s)] \<and>
     accepted iterations (nt_server s) \<le> connections iterations (nt_main s) \<and>
     connections iterations (nt_main s) \<le> nat iterations \<and>
     server_ok iterations msg_size (nt_down s) (nt_server s) \<and> client_ok iterations (nt_main s) \<and>
     (\<forall>c < sent iterations (nt_main s). nt_up s c = nat msg_size) \<and>
     (\<forall>c. nt_client_closed s c \<longrightarrow> c < sent iterations (nt_main s)) \<and>
     (\<forall>c < served iterations (nt_server s). nt_server_closed s c \<and> nt_down s c = nat msg_size) \<and>
     nt_main s \<noteq> MKilled \<and>
     (serving (nt_server s) \<longrightarrow> nt_listening s \<and> nt_ready s) \<and> (nt_server s = SReturned \<longrightarrow> nt_ready s) \<and>
     (nt_server s = SPublish \<longrightarrow> nt_listening s)"

lemma net_inv_init: "net_inv iterations msg_size net_init"
  by (simp add: net_inv_def net_init_def serving_def)

lemma server_net_inv:
  assumes "server_step iterations msg_size s s'" "net_inv iterations msg_size s" "\<not> nt_failed s'" "0 < msg_size"
  shows "net_inv iterations msg_size s'"
  using assms(1)
proof cases
  case (accept j c cs)
  then have "[j..<connections iterations (nt_main s)] = c # cs" using assms(2) by (simp add: net_inv_def)
  then have "c = j" "cs = [Suc j..<connections iterations (nt_main s)]" "j < connections iterations (nt_main s)"
    by (auto simp: upt_eq_Cons_conv)
  then show ?thesis using accept assms(2) by (simp add: net_inv_def serving_def)
next
  case (receive j c n)
  then have "nt_up s c = nat msg_size \<or> nat msg_size \<le> nt_up s c"
    using assms(2,4) by (auto simp: net_inv_def)
  then have "n = nat msg_size" using receive(4) by auto
  then show ?thesis using receive assms(2,4) by (auto simp: net_inv_def serving_def)
next
  case (close_socket j)
  then have "j \<le> nat iterations" using assms(2) by (simp add: net_inv_def)
  then have "j = nat iterations" using close_socket(3) by linarith
  then show ?thesis using close_socket assms(2) by (simp add: net_inv_def serving_def)
next
  case (close_client j c)
  then show ?thesis using assms(2) by (auto simp: net_inv_def serving_def less_Suc_eq)
next
  case (send_back j c n)
  then show ?thesis using assms(2) by (auto simp: net_inv_def serving_def)
qed (use assms(2,3) in \<open>auto simp: net_inv_def serving_def\<close>)

lemma client_net_inv:
  assumes "client_step iterations msg_size s s'" "net_inv iterations msg_size s" "\<not> nt_failed s'"
  shows "net_inv iterations msg_size s'"
  using assms(1)
proof cases
  case (connect i)
  then show ?thesis using assms(2) by (auto simp: net_inv_def)
next
  case (finish_loop i)
  then have "i \<le> nat iterations" using assms(2) by (simp add: net_inv_def)
  then have "i = nat iterations" using finish_loop(3) by linarith
  then show ?thesis using finish_loop assms(2) by (simp add: net_inv_def)
next
  case (client_send i)
  then show ?thesis using assms(2) by (auto simp: net_inv_def less_Suc_eq)
next
  case (client_receive i)
  then show ?thesis using assms(2) by (auto simp: net_inv_def less_Suc_eq)
qed (use assms(2,3) in \<open>auto simp: net_inv_def\<close>)

text \<open>Without a failure some thread can always go on, without failing, until the main thread has returned.\<close>

lemma client_progress:
  assumes "net_inv iterations msg_size s" "nt_main s \<noteq> MReturned" "nt_pending s = []"
    and "(\<exists>j. nt_server s = SLoop j \<and> int j < iterations) \<or> nt_server s = SReturned" "0 < msg_size"
  shows "\<exists>s'. client_step iterations msg_size s s' \<and> nt_failed s' = nt_failed s"
proof -
  have "nt_pending s = [accepted iterations (nt_server s)..<connections iterations (nt_main s)]"
    using assms(1) by (simp add: net_inv_def)
  from trans [OF this [symmetric] assms(3)]
  have all: "connections iterations (nt_main s) \<le> accepted iterations (nt_server s)"
    using assms(1) by (auto simp: net_inv_def)
  have ready: "nt_ready s" using assms(1,4) by (auto simp: net_inv_def serving_def)
  show ?thesis
  proof (cases "nt_main s")
    case MWait
    from wake [OF MWait ready] assms(5) show ?thesis by (intro exI [of _ "s\<lparr>nt_main := MLoop 0\<rparr>"] conjI) simp_all
  next
    case (MLoop i)
    show ?thesis
    proof (cases "int i < iterations")
      case True
      from client_socket [OF MLoop this] show ?thesis by (intro exI conjI) (assumption, simp)
    next
      case False
      from finish_loop [OF MLoop this] show ?thesis by (intro exI conjI) (assumption, simp)
    qed
  next
    case (MConnect i)
    then have "nt_listening s" using assms(1,4) all by (auto simp: net_inv_def serving_def split: if_splits)
    from connect [OF MConnect this] show ?thesis by (intro exI conjI) (assumption, simp)
  next
    case (MSend i)
    show ?thesis using client_send [OF MSend] by (intro exI conjI) (assumption, simp)
  next
    case (MReceive i)
    have "0 < msg_size \<and> nat msg_size \<le> nt_down s i \<or> msg_size = 0 \<and> 0 < nt_down s i \<or> nt_server_closed s i \<or> nt_server s = SReturned"
      using assms(1,4) all MReceive by (auto simp: net_inv_def)
    from client_receive [OF MReceive this] show ?thesis by (intro exI conjI) (assumption, simp)
  next
    case MJoin
    have "nt_server s = SReturned" using assms(4) all MJoin by auto
    from join_server [OF MJoin this] show ?thesis by (intro exI conjI) (assumption, simp)
  qed (use assms(1,2) in \<open>simp_all add: net_inv_def\<close>)
qed

lemma net_progress:
  assumes "net_inv iterations msg_size s" "nt_main s \<noteq> MReturned" "0 < msg_size"
  shows "\<exists>s'. net_step iterations msg_size s s' \<and> nt_failed s' = nt_failed s"
proof -
  have server: "\<exists>s'. net_step iterations msg_size s s' \<and> nt_failed s' = nt_failed s"
    if "server_step iterations msg_size s s'" "nt_failed s' = nt_failed s" for s'
    using server_turn [OF _ that(1)] assms(1,2) that(2) by (auto simp: net_inv_def)
  have client: "\<exists>s'. net_step iterations msg_size s s' \<and> nt_failed s' = nt_failed s"
    if "\<exists>s'. client_step iterations msg_size s s' \<and> nt_failed s' = nt_failed s"
    using that client_turn by blast
  show ?thesis
  proof (cases "nt_server s")
    case (SLoop j)
    show ?thesis
    proof (cases "nt_pending s")
      case Nil
      then show ?thesis
        using client [OF client_progress [OF assms(1,2) Nil _ assms(3)]] server [OF close_socket [OF SLoop]] SLoop
        by (cases "int j < iterations") simp_all
    next
      case (Cons c cs)
      then show ?thesis
        using server [OF accept [OF SLoop _ Cons]] server [OF close_socket [OF SLoop]]
        by (cases "int j < iterations") simp_all
    qed
  next
    case (SReceive j c)
    then have c: "c = j" "Suc j \<le> connections iterations (nt_main s)" using assms(1) by (simp_all add: net_inv_def)
    show ?thesis
    proof (cases "c < sent iterations (nt_main s)")
      case True
      then have "nt_up s c = nat msg_size" using assms(1) by (simp add: net_inv_def)
      then show ?thesis using server [OF receive [OF SReceive _ refl]] assms(3) by simp
    next
      case False
      then obtain i where "nt_main s = MSend i" using c by (cases "nt_main s") auto
      from client_send [OF this] show ?thesis by (intro client exI conjI) (assumption, simp)
    qed
  next
    case SReturned
    then have "nt_pending s = []" using assms(1) by (auto simp: net_inv_def)
    then show ?thesis using client [OF client_progress [OF assms(1,2) _ _ assms(3)]] SReturned by simp
  qed (use server [OF socket] server [OF bind] server [OF listen] server [OF publish] server [OF send_back]
      server [OF close_client] in simp_all)
qed

text \<open>The steps left, whether or not calls fail.\<close>

fun server_left :: "int \<Rightarrow> server_pc \<Rightarrow> nat" where
  "server_left iterations SSocket = 4 * nat iterations + 5"
| "server_left iterations SBind = 4 * nat iterations + 4"
| "server_left iterations SListen = 4 * nat iterations + 3"
| "server_left iterations SPublish = 4 * nat iterations + 2"
| "server_left iterations (SLoop j) = 4 * (nat iterations - j) + 1"
| "server_left iterations (SReceive j c) = 4 * (nat iterations - j)"
| "server_left iterations (SSend j c n) = 4 * (nat iterations - j) - 1"
| "server_left iterations (SClose j c) = 4 * (nat iterations - j) - 2"
| "server_left iterations SReturned = 0"

fun client_left :: "int \<Rightarrow> client_pc \<Rightarrow> nat" where
  "client_left iterations MWait = 4 * nat iterations + 3"
| "client_left iterations (MLoop i) = 4 * (nat iterations - i) + 2"
| "client_left iterations (MConnect i) = 4 * (nat iterations - i) + 1"
| "client_left iterations (MSend i) = 4 * (nat iterations - i)"
| "client_left iterations (MReceive i) = 4 * (nat iterations - i) - 1"
| "client_left iterations MJoin = 1"
| "client_left iterations MReturned = 0"
| "client_left iterations MKilled = 0"

fun server_busy :: "int \<Rightarrow> server_pc \<Rightarrow> bool" where
  "server_busy iterations (SReceive j c) \<longleftrightarrow> int j < iterations"
| "server_busy iterations (SSend j c n) \<longleftrightarrow> int j < iterations"
| "server_busy iterations (SClose j c) \<longleftrightarrow> int j < iterations"
| "server_busy iterations p \<longleftrightarrow> True"

definition net_left :: "int \<Rightarrow> Net \<Rightarrow> nat" where
  "net_left iterations s = server_left iterations (nt_server s) + client_left iterations (nt_main s)"

definition net_bounds :: "int \<Rightarrow> Net \<Rightarrow> bool" where
  "net_bounds iterations s \<longleftrightarrow> server_busy iterations (nt_server s) \<and> client_ok iterations (nt_main s)"

lemma client_left_pos:
  "m \<noteq> MReturned \<Longrightarrow> m \<noteq> MKilled \<Longrightarrow> client_ok iterations m \<Longrightarrow> 0 < client_left iterations m"
  by (cases m) auto

lemma server_step_left:
  "server_step iterations msg_size s s' \<Longrightarrow> net_bounds iterations s \<Longrightarrow>
   net_bounds iterations s' \<and> net_left iterations s' < net_left iterations s"
  by (induction rule: server_step.induct) (auto simp: net_bounds_def net_left_def client_left_pos)

lemma client_step_left:
  "client_step iterations msg_size s s' \<Longrightarrow> net_bounds iterations s \<Longrightarrow>
   net_bounds iterations s' \<and> net_left iterations s' < net_left iterations s"
  by (induction rule: client_step.induct) (auto simp: net_bounds_def net_left_def)

lemma server_step_failed: "server_step iterations msg_size s s' \<Longrightarrow> nt_failed s \<Longrightarrow> nt_failed s'"
  by (induction rule: server_step.induct) auto

lemma client_step_failed: "client_step iterations msg_size s s' \<Longrightarrow> nt_failed s \<Longrightarrow> nt_failed s'"
  by (induction rule: client_step.induct) auto

text \<open>
  With messages of size 0 both threads get no further than their first \<^verbatim>\<open>recv\<close>; with a negative size the main
  thread does not get past its buffer.
\<close>

definition zero_inv :: "Net \<Rightarrow> bool" where
  "zero_inv s \<longleftrightarrow> nt_main s \<in> {MWait, MLoop 0, MConnect 0, MSend 0, MReceive 0} \<and>
     nt_server s \<in> {SSocket, SBind, SListen, SPublish, SLoop 0, SReceive 0 0} \<and>
     nt_up s = (\<lambda>c. 0) \<and> nt_down s = (\<lambda>c. 0) \<and>
     nt_client_closed s = (\<lambda>c. False) \<and> nt_server_closed s = (\<lambda>c. False) \<and> set (nt_pending s) \<subseteq> {0}"

lemma server_zero_inv:
  "server_step iterations msg_size s s' \<Longrightarrow> msg_size = 0 \<Longrightarrow> 0 < iterations \<Longrightarrow> zero_inv s \<Longrightarrow> nt_failed s' \<or> zero_inv s'"
  by (induction rule: server_step.induct) (auto simp: zero_inv_def)

lemma client_zero_inv:
  "client_step iterations msg_size s s' \<Longrightarrow> msg_size = 0 \<Longrightarrow> 0 < iterations \<Longrightarrow> zero_inv s \<Longrightarrow> nt_failed s' \<or> zero_inv s'"
  by (induction rule: client_step.induct) (auto simp: zero_inv_def fun_eq_iff)

definition negative_inv :: "Net \<Rightarrow> bool" where
  "negative_inv s \<longleftrightarrow> nt_main s \<in> {MWait, MKilled}"

lemma server_negative_inv: "server_step iterations msg_size s s' \<Longrightarrow> negative_inv s \<Longrightarrow> negative_inv s'"
  by (induction rule: server_step.induct) (auto simp: negative_inv_def)

lemma client_negative_inv: "client_step iterations msg_size s s' \<Longrightarrow> msg_size < 0 \<Longrightarrow> negative_inv s \<Longrightarrow> negative_inv s'"
  by (induction rule: client_step.induct) (auto simp: negative_inv_def)

definition net_ok :: "int \<Rightarrow> int \<Rightarrow> Net \<Rightarrow> bool" where
  "net_ok iterations msg_size s \<longleftrightarrow>
     handshake s \<and> net_bounds iterations s \<and>
     (0 < msg_size \<longrightarrow> nt_failed s \<or> net_inv iterations msg_size s) \<and>
     (msg_size = 0 \<longrightarrow> 0 < iterations \<longrightarrow> nt_failed s \<or> zero_inv s) \<and>
     (msg_size < 0 \<longrightarrow> negative_inv s)"

lemma net_ok_init: "net_ok iterations msg_size net_init"
  using net_inv_init by (simp add: net_ok_def handshake_def net_bounds_def zero_inv_def negative_inv_def serving_def) (simp add: net_init_def)

lemma server_net_ok:
  assumes "server_step iterations msg_size s s'" "net_ok iterations msg_size s"
  shows "net_ok iterations msg_size s' \<and> net_left iterations s' < net_left iterations s"
  using assms(2) server_step_left [OF assms(1)] server_step_failed [OF assms(1)] server_net_inv [OF assms(1)]
    server_handshake [OF assms(1)] server_zero_inv [OF assms(1)] server_negative_inv [OF assms(1)]
  unfolding net_ok_def by blast

lemma client_net_ok:
  assumes "client_step iterations msg_size s s'" "net_ok iterations msg_size s"
  shows "net_ok iterations msg_size s' \<and> net_left iterations s' < net_left iterations s"
  using assms(2) client_step_left [OF assms(1)] client_step_failed [OF assms(1)] client_net_inv [OF assms(1)]
    client_handshake [OF assms(1)] client_zero_inv [OF assms(1)] client_negative_inv [OF assms(1)]
  unfolding net_ok_def by blast

interpretation net: terminating_system "net_step iterations msg_size" net_init "net_ok iterations msg_size" "net_left iterations"
  by unfold_locales (auto simp: net_ok_init elim!: net_stepE dest: server_net_ok client_net_ok)

text \<open>
  C40: how the network workload ends, on every interleaving: no run has more than \<open>8 * iterations + 8\<close> steps. With a
  positive message size, if no call fails, some thread can go on, still without a failure, until \<^verbatim>\<open>main\<close> returns, and
  then every connection has been served and got back as many bytes as it sent. With message size 0 and at least one
  iteration, \<^verbatim>\<open>main\<close> never returns unless a call fails, so the program hangs; with a negative one it never gets
  past its wait except by being killed. And if the server thread fails before it is ready (its socket, bind or
  listen), \<^verbatim>\<open>main\<close> is left waiting for a signal that nobody sends, and no step is possible.
\<close>

theorem net_stress_ends:
  assumes "0 \<le> iterations" "(net_step iterations msg_size ^^ n) net_init s"
  shows "int n \<le> 8 * iterations + 8 \<and>
    (0 < msg_size \<and> \<not> nt_failed s \<and> nt_main s \<noteq> MReturned \<longrightarrow> (\<exists>s'. net_step iterations msg_size s s' \<and> \<not> nt_failed s')) \<and>
    (0 < msg_size \<and> \<not> nt_failed s \<and> nt_main s = MReturned \<longrightarrow>
       (\<forall>c. int c < iterations \<longrightarrow> nt_server_closed s c \<and> nt_down s c = nat msg_size)) \<and>
    (msg_size = 0 \<and> 0 < iterations \<and> \<not> nt_failed s \<longrightarrow> nt_main s \<noteq> MReturned) \<and>
    (msg_size < 0 \<longrightarrow> nt_main s = MWait \<or> nt_main s = MKilled) \<and>
    (nt_server s = SReturned \<and> \<not> nt_ready s \<longrightarrow> nt_main s = MWait \<and> (\<nexists>s'. net_step iterations msg_size s s'))"
proof -
  note run = net.run_bounded [OF assms(2), unfolded net_ok_def]
  have "n \<le> 8 * nat iterations + 8" using run by (simp add: net_left_def net_init_def)
  then have "int n \<le> 8 * iterations + 8" using assms(1) by linarith
  moreover have "nt_server_closed s c \<and> nt_down s c = nat msg_size"
    if "0 < msg_size" "\<not> nt_failed s" "nt_main s = MReturned" "int c < iterations" for c
    using run that by (auto simp: handshake_def net_inv_def)
  moreover have "\<exists>s'. net_step iterations msg_size s s' \<and> \<not> nt_failed s'"
    if "0 < msg_size" "\<not> nt_failed s" "nt_main s \<noteq> MReturned"
    using run net_progress [of iterations msg_size s] that by auto
  moreover have "nt_main s \<noteq> MReturned" if "msg_size = 0" "0 < iterations" "\<not> nt_failed s"
    using run that by (auto simp: zero_inv_def)
  moreover have "nt_main s = MWait \<or> nt_main s = MKilled" if "msg_size < 0"
    using run that by (auto simp: negative_inv_def)
  moreover have "nt_main s = MWait \<and> (\<nexists>s'. net_step iterations msg_size s s')" if "nt_server s = SReturned" "\<not> nt_ready s"
    using not_ready_stuck [OF _ that] run by blast
  ultimately show ?thesis by blast
qed

theorem net_stress_ends_witness:
  "\<exists>s. (net_step 5 256 ^^ 1) net_init s \<and> nt_server s = SReturned \<and> nt_main s = MWait \<and> (\<nexists>s'. net_step 5 256 s s')"
proof -
  let ?s = "net_init\<lparr>nt_server := SReturned, nt_failed := True\<rparr>"
  have "net_step 5 256 net_init ?s"
    by (intro server_turn start_fails) (simp_all add: net_init_def)
  then have run: "(net_step 5 256 ^^ 1) net_init ?s" by (simp only: relpowp_1)
  have "nt_server ?s = SReturned" "\<not> nt_ready ?s" by (simp_all add: net_init_def)
  with net_stress_ends [OF _ run] run show ?thesis by (intro exI [of _ ?s]) simp
qed

end
