(* ===== verification/Unit_Tests.thy ===== *)
theory Unit_Tests
  imports Classifications Ksr_Format Event_Decoder Histograms
begin

text \<open>
  The expectations of the repository's unit tests (\<^verbatim>\<open>test/unit/\<close>) evaluated on the definitions of this
  development, one lemma for each test or group of tests.
\<close>

section \<open>Event decoder\<close>

definition make_test_event :: Event where
  "make_test_event = \<lparr>ev_timestamp_ns = 1234567890, ev_pid = 42, ev_tid = 43,
     ev_comm = ''testproc'' @ replicate 8 (CHR 0x00), ev_cpu = 3, ev_type = EvSyscallSlow, ev_classification = LatIoWait,
     ev_duration_ns = 5000000, ev_syscall_id = 0, ev_user_stack_id = 100, ev_kern_stack_id = 200, ev_flags = 3\<rparr>"

lemma make_test_event_wf [simp]:
  "event_type_wf t \<Longrightarrow> event_wf (make_test_event\<lparr>ev_type := t\<rparr>)" "event_wf make_test_event"
  by (simp_all add: make_test_event_def event_wf_def event_type_wf_def latency_class_wf_def kCommLen_def
      event_type_of_code_def latency_class_of_code_def)

lemma decode_test: "event_wf ev \<Longrightarrow> decode_event (event_bytes [0, 0, 0, 0] [0, 0, 0, 0] ev) = Some ev"
  using event_at_bytes [of "[0, 0, 0, 0]" "[0, 0, 0, 0]" ev "[]"] by (simp add: decode_event_def event_wf_def)

lemma test_DecodesValidEvent:
  "decode_event (event_bytes [0, 0, 0, 0] [0, 0, 0, 0] make_test_event) = Some make_test_event"
  by (simp add: decode_test)

lemma test_DecodedFields:
  "comm_str make_test_event = ''testproc''" "has_user_stack make_test_event" "has_kern_stack make_test_event"
  by code_simp+

lemma test_RejectsShortInput: "decode_event [0, 0, 0, 0] = None" "decode_event [] = None"
  by (simp_all add: decode_event_def sizeof_event_def)

lemma test_DecodesAllEventTypes:
  "list_all (\<lambda>t. decode_event (event_bytes [0, 0, 0, 0] [0, 0, 0, 0] (make_test_event\<lparr>ev_type := t\<rparr>)) =
      Some (make_test_event\<lparr>ev_type := t\<rparr>))
    [EvNone, EvSyscallSlow, EvOffcpuSlice, EvLockWait, EvIoWait, EvProcExec, EvProcExit, EvLostSamples, EvDiag]"
  by (simp add: decode_test event_type_wf_def event_type_of_code_def)

lemma test_CommNulTerminatedCorrectly:
  "length (comm_str (make_test_event\<lparr>ev_comm := replicate kCommLen (CHR ''A'')\<rparr>)) = kCommLen"
  by code_simp

lemma test_EventTypeName:
  "map event_type_name [EvSyscallSlow, EvOffcpuSlice, EvLockWait, EvIoWait, EvProcExec, EvProcExit] =
   [''syscall_slow'', ''offcpu_slice'', ''lock_wait'', ''io_wait'', ''proc_exec'', ''proc_exit'']"
  "map latency_class_name [LatOnCpu, LatOffCpu, LatIoWait, LatLockWait, LatSyscallBlocked] =
   [''on_cpu'', ''off_cpu'', ''io_wait'', ''lock_wait'', ''syscall_blocked'']"
  by code_simp+

lemma test_KnownSyscalls:
  "map syscall_name [0, 1, 2, 42, 202, 257] = [''read'', ''write'', ''open'', ''connect'', ''futex'', ''openat'']"
  by (simp add: syscall_name_def length_syscall_table syscall_table_early syscall_names_early_def nth_append
      length_syscall_names syscall_names_0_def syscall_names_4_def syscall_names_5_def)

lemma test_UnknownFallback: "syscall_name 99999 = ''sys_99999''"
proof -
  have "digit_char 9 = CHR ''9''" by code_simp
  then show ?thesis by (simp add: syscall_name_def length_syscall_table to_string_def base_string.simps)
qed

section \<open>Classifications\<close>

lemma test_Classification:
  "map (\<lambda>nr. classify_event (make_test_event\<lparr>ev_syscall_id := nr\<rparr>)) [0, 1, 74, 75, 42, 43, 44, 45] =
   [LatIoWait, LatIoWait, LatIoWait, LatIoWait, LatIoWait, LatIoWait, LatIoWait, LatIoWait]"
  "map (\<lambda>nr. classify_event (make_test_event\<lparr>ev_syscall_id := nr\<rparr>)) [202, 9, 12, 56, 59, 999] =
   [LatLockWait, LatSyscallBlocked, LatSyscallBlocked, LatSyscallBlocked, LatSyscallBlocked, LatSyscallBlocked]"
  "map (\<lambda>t. classify_event (make_test_event\<lparr>ev_type := t\<rparr>)) [EvOffcpuSlice, EvNone, EvProcExec] = [LatOffCpu, LatUnknown, LatUnknown]"
  "map syscall_group [0, 1, 2, 257, 74, 75, 41, 42, 43, 202, 56, 59, 9, 11, 999] =
   [FileIO, FileIO, FileIO, FileIO, Sync, Sync, Network, Network, Network, Lock, Process, Process, Memory, Memory, OtherGroup]"
  by (simp_all add: classify_event_def syscall_group_def make_test_event_def)

section \<open>KSR format\<close>

lemma test_KsrHeader:
  "validate_header (make_header t w)" "\<not> validate_header ((make_header t w)\<lparr>kh_magic := 88 # tl (kh_magic (make_header t w))\<rparr>)"
  "\<not> validate_header ((make_header t w)\<lparr>kh_version := kKsrVersion + 1\<rparr>)" "length (header_bytes (make_header t w)) = 64"
  by (simp_all add: validate_header_def make_header_def header_bytes_def kKsrMagic_def kKsrVersion_def bytes_of_chars_def word_le_nat_alt)

section \<open>Histograms\<close>

lemma test_EmptyHistogram:
  "h_count Histogram_init = 0" "h_sum Histogram_init = 0" "h_max Histogram_init = 0" "hist_average Histogram_init = 0"
  "percentile p Histogram_init = 0" "hist_reset h = Histogram_init"
  by (simp_all add: Histogram_init_def hist_average_def percentile_def hist_reset_def)

lemma test_MultipleValues:
  "h_count (hist_of [100, 200, 300]) = 3" "h_sum (hist_of [100, 200, 300]) = 600" "h_min (hist_of [100, 200, 300]) = 100"
  "h_max (hist_of [100, 200, 300]) = 300"
  using hist_of_refines [of "[100, 200, 300]"] by (simp_all add: min_def max_def word_le_nat_alt unsigned_minus_1_eq_mask mask_eq_exp_minus_1)

lemma test_LargeValues:
  "h_count (hist_of [2 ^ 40, 2 ^ 50, 2 ^ 60]) = 3" "h_max (hist_of [2 ^ 40, 2 ^ 50, 2 ^ 60]) = 2 ^ 60"
  using hist_of_refines [of "[2 ^ 40, 2 ^ 50, 2 ^ 60]"] by (simp_all add: max_def)

lemma test_ManySmallValues:
  "h_count (hist_of (replicate 10000 42)) = 10000" "h_min (hist_of (replicate 10000 42)) = 42"
  "h_max (hist_of (replicate 10000 42)) = 42"
  using hist_of_refines [of "replicate 10000 42"] by (simp_all add: min_def max_def word_le_nat_alt unsigned_minus_1_eq_mask mask_eq_exp_minus_1)

text \<open>The values 1000, 2000 and so on up to one million.\<close>

lemma test_PercentilesApproximate:
  fixes vs :: "u64 list"
  defines "vs \<equiv> map (\<lambda>i. of_nat i * 1000) [1..<1001]"
  shows "percentile 50 (hist_of vs) = 393216" "percentile 95 (hist_of vs) = 786432" "percentile 99 (hist_of vs) = 786432"
proof -
  have "sorted vs"
    unfolding vs_def sorted_wrt_map
    by (rule sorted_wrt_mono_rel [OF _ sorted_upt]) (auto simp: word_le_nat_alt unat_word_ariths unat_of_nat)
  then have sort: "sort vs = vs" by (rule sorted_sort_id)
  have len: "length vs = 1000" and nth: "vs ! i = of_nat (i + 1) * 1000" if "i < 1000" for i
    using that by (simp_all add: vs_def)
  have rank: "percentile (of_nat p) (hist_of vs) = bucket_mid (bucket_index (of_nat (10 * p) * 1000))" if "0 < p" "p \<le> 100" for p
    using percentile_at_rank [of vs p] that nth [of "10 * p - 1"] len [of 0] by (simp add: sort)
  have "bucket_index 500000 = 18" "bucket_index 950000 = 19" "bucket_index 990000 = 19"
    by (simp_all add: bucket_index_iff)
  moreover have "bucket_mid 18 = 393216" "bucket_mid 19 = 786432"
    by (simp_all add: bucket_mid_def)
  ultimately show "percentile 50 (hist_of vs) = 393216" "percentile 95 (hist_of vs) = 786432"
    "percentile 99 (hist_of vs) = 786432"
    using rank [of 50] rank [of 95] rank [of 99] by simp_all
qed

end
