(* ===== verification/Spec2Isabelle.thy ===== *)
theory Spec2Isabelle
  imports Classification_Properties Event_Decoder Aggregator_Properties Aggregator_Queries Ksr_Facts
    Bpf_Properties Bpf_Loader Collector Commands_Properties Symbolizer_Properties
    Windows Tui Program Lifetimes Constants Futex_Stress Net_Stress Unit_Tests
begin

text \<open>
  KernelScope, an eBPF latency profiler, as a verification library.

  \<^bold>\<open>The program.\<close> BPF programs attached to kernel tracepoints (\<^verbatim>\<open>bpf/\<close>) measure slow syscalls and
  off-CPU slices and submit fixed-size records to a ring buffer. User space loads and configures
  them (\<^verbatim>\<open>src/bpf/loader.cpp\<close>), polls the ring buffer (\<^verbatim>\<open>src/bpf/collector.cpp\<close>), decodes the
  records (\<^verbatim>\<open>src/core/event_decoder.cpp\<close>), classifies them (\<^verbatim>\<open>src/core/classifications.cpp\<close>) and
  aggregates them per process, thread, syscall and stack (\<^verbatim>\<open>src/core/aggregator.cpp\<close>, with
  histograms, \<^verbatim>\<open>src/core/histograms.cpp\<close>). Events can be recorded to and replayed from \<^verbatim>\<open>.ksr\<close> files
  (\<^verbatim>\<open>src/record/\<close>). Stack addresses are resolved through process maps, ELF files and the kernel's
  symbol table (\<^verbatim>\<open>src/symbolization/\<close>). The commands (\<^verbatim>\<open>src/cli/commands.cpp\<close>) connect these parts in
  polling loops and print tables or export documents (\<^verbatim>\<open>src/export/\<close>); \<^verbatim>\<open>src/tui/\<close> shows the same data
  as screens. The entry point (\<^verbatim>\<open>src/main.cpp\<close>) installs the signal handlers, reads the command line
  (\<^verbatim>\<open>src/cli/parse_args.cpp\<close>), sets the log level (\<^verbatim>\<open>src/util/logging.cpp\<close>) and runs the command. Four
  workloads (\<^verbatim>\<open>examples/\<close>) produce the events to look at.

  \<^bold>\<open>The theories.\<close>
  \<^item> \<open>Kscope_Prelude\<close>: fixed-width types, little-endian fields, C strings, number printing, hash
    maps as association lists with distinct keys, the contracts of \<^verbatim>\<open>std::sort\<close> (locale
    \<open>std_sort\<close>), of \<^verbatim>\<open>std::upper_bound\<close> and of a cache that is filled on demand (locale \<open>memo_table\<close>).
    \<open>Doubles\<close>: rounding to 53 bits. \<open>Scan\<close>: \<^verbatim>\<open>getline\<close> and \<^verbatim>\<open>sscanf\<close>, reading back what was printed.
    \<open>Kscope_Errors\<close>: \<^verbatim>\<open>src/util/errors.hpp\<close>, errors as the left side of a sum. \<open>Util_Time\<close>:
    \<^verbatim>\<open>src/util/time.cpp\<close>, with the error of every printed duration.
  \<^item> \<open>Event_Model\<close>, \<open>Event_Decoder\<close>, \<open>Classifications\<close>: events, their 88-byte layout with the padding
    as an argument, name tables, decoder and classifier. \<open>Classification_Properties\<close>: the classes of all
    records by the names they print under, against the documented groups.
  \<^item> \<open>Histograms\<close>: the histogram refines a multiset of values; accuracy of the percentile.
  \<^item> \<open>Aggregator\<close> (operations), \<open>Aggregator_Facts\<close> (locale \<open>dimension\<close>: one hash map seen through the
    entries an event touches, interpreted for the four maps), \<open>Aggregator_Properties\<close> (refinement
    to summaries, conservation, order independence), \<open>Aggregator_Queries\<close> (locale \<open>top_query\<close> and
    the contract of the top-N queries for every sorter and every hash order).
  \<^item> \<open>Ksr_Format\<close>, \<open>Ksr_Record\<close>, \<open>Ksr_Facts\<close>: header, recorder and replay over bytes; the recorder writes
    through the buffer of a stdio stream to a device that may take any part of a write, and does not look at the
    result of closing it. Round trip, truncation, arbitrary files.
  \<^item> \<open>Bpf_Programs\<close> (maps, filters, the five handlers and the transition system of all their
    interleavings), \<open>Bpf_Facts\<close> (locale \<open>bounded_map\<close>, the invariant of all runs),
    \<open>Bpf_Properties\<close> (records, pairing of measurements, cleanup).
  \<^item> \<open>Bpf_Loader\<close>: configuration, loader and skeleton bridge. \<open>Event_Source\<close>: the callback interface
    as a locale, interpreted by the collector (\<open>Collector\<close>) and by the replay (\<open>Ksr_Facts\<close>).
    \<open>Lifetimes\<close>: destructors and moves; no skeleton is destroyed twice or held by two loaders.
    \<open>Constants\<close>: the constants that the kernel side and user space share by value.
  \<^item> \<open>Logging\<close>: \<^verbatim>\<open>src/util/logging.cpp\<close>, with the level and the colour switch as a state. \<open>Log_Messages\<close>: what the
    loader, the collector, the recorder and the replay source log, and what libbpf prints in between.
    \<open>Reports\<close>: what the commands print, byte
    for byte. \<open>Doctor\<close>: the compatibility check.
  \<^item> \<open>Commands\<close>, \<open>Commands_Properties\<close>: every command as a function from a \<open>World\<close>, the record of all that the
    environment supplies (among it the sequence of turns of the polling loop), and the configuration to an
    \<open>Outcome\<close>: exit code, standard output, log calls and the file written. \<open>Running\<close> is the result when the
    given turns do not end the loop, \<open>Aborted\<close> that of a trap or an uncaught exception.
  \<^item> \<open>Cli\<close>: \<^verbatim>\<open>src/cli/parse_args.cpp\<close>, the table of subcommands and options as it is handed to CLI11, whose
    answer is a parameter under the contract \<open>cli_sound\<close>; every field is shown to be the last value of the option of
    its name. \<open>Program\<close>: \<^verbatim>\<open>src/main.cpp\<close> and \<^verbatim>\<open>src/util/signal.hpp\<close>, from
    the arguments and the signals delivered between the turns to the exit of the process.
  \<^item> \<open>Proc_Maps\<close>, \<open>Elf_Cache\<close>, \<open>Symbolizer\<close>: \<^verbatim>\<open>src/symbolization/\<close>, with the trap of the ELF parser as a
    result. \<open>Symbolizer_Properties\<close>: the caches (two interpretations of \<open>memo_table\<close>) are transparent,
    frames name the symbol nearest to the address the code translates to, that address is the right one exactly
    for segments at the lowest address plus their offset, and the trap is the only failure.
  \<^item> \<open>Export_Prometheus\<close> (with a reader of the exposition format), \<open>Export_Json\<close> (documents as trees, and
    their types): \<^verbatim>\<open>src/export/\<close>.
  \<^item> \<open>Pidns\<close>: \<^verbatim>\<open>src/util/pidns.cpp\<close>. \<open>Windows\<close>: \<^verbatim>\<open>src/core/windows.cpp\<close>. \<open>Tui\<close>: \<^verbatim>\<open>src/tui/\<close>, elements as
    trees of library calls, a session as the sequence of calls the library makes to the renderer and the event
    handler; every frame is shown to have the texts of its screen.
  \<^item> \<open>Workloads\<close> (\<^verbatim>\<open>examples/cpu_stress\<close>, \<^verbatim>\<open>examples/io_stress\<close>, and the locale \<open>terminating_system\<close>), \<open>Futex_Stress\<close> and
    \<open>Net_Stress\<close>: the threads as step relations in any interleaving; both interpret the locale. In the second
    one allocations and calls on sockets may fail.
  \<^item> \<open>Unit_Tests\<close>: the expectations of the repository's unit tests, evaluated on the definitions.

  \<^bold>\<open>Correspondence.\<close> A C++ class is a record with its data members, a method a function from the
  object to the object (and a result); \<^verbatim>\<open>std::expected\<close> is a sum, \<^verbatim>\<open>std::optional\<close> an option;
  counters are words of their width and wrap. What the kernel, libbpf, the operating system and the
  clock return is an argument of the definition that uses it; unspecified behaviour of the C++
  library (the order of a hash map, of equivalent elements after a sort, padding bytes) is an
  argument constrained only by its contract. Floating-point values are exact rationals rounded
  after each operation. Operations under the aggregator's mutex, and BPF handlers, are atomic.

  \<^bold>\<open>What is shown.\<close> Each component refines an abstract description of what it computes (lists of
  values, of events, of frames), every operation keeps its invariant, and the properties of this
  theory span the components: records from any run of the kernel side reach the aggregator
  unchanged, and a recorded session analyses like a live one. Some properties state what the code
  does where that differs from what it means to do (the duration option, small percentiles, the
  thread filter, the count of map entries, the cleanup at exit, exports that fail silently, events that
  are counted as recorded and lost when the file is closed, pid translation that never leaves its namespace, the
  network workload that waits for a server that has failed or for a byte that is never sent).

  \<^bold>\<open>Bounds.\<close> The loops are total functions: replay consumes its file, polling loops consume the given
  turns, line and number readers consume their text, bisection halves its range; the counting loop over
  map keys takes fuel, and more fuel than there are keys is shown to be enough. The reader of label lists,
  which belongs to the specification, has the length of its line as fuel. The runs of the threaded workloads are
  bounded by a number of steps that depends on the arguments only.

  \<^bold>\<open>Not modelled.\<close> Third-party code, which is a parameter where the program uses its result: CLI11 (its reading
  of the arguments and what it prints about them), the printer of JSON values, libelf, libbpf (also what it prints
  itself) and the verifier of the kernel, the drawing of terminal elements and the event loop of FTXUI, which may
  return at any time. Exceptions of the file system library
  and of allocation; the default disposition of signals other than the two handled (but for the network
  workload, which a write to a broken pipe may kill); buffering of standard output and of exported documents, so that what was printed before a trap is not part of the outcome; data races inside an
  operation, since operations that share data are under a lock or on one thread.
\<close>

section \<open>From the kernel to the aggregator\<close>

definition wire :: "stored \<Rightarrow> bytes" where
  "wire x = (case x of (pad1, pad2, ev) \<Rightarrow> event_bytes pad1 pad2 ev)"

lemma decode_wire: "stored_wf x \<Longrightarrow> decode_event (wire x) = Some (stored_event x)"
  using event_at_bytes [of _ _ _ "[]"]
  by (cases x) (auto simp: wire_def stored_wf_def stored_event_def decode_event_def event_wf_def)

lemma decoded_wire:
  "\<forall>x \<in> set xs. stored_wf x \<Longrightarrow> decoded (map wire xs) = map stored_event xs"
  by (induction xs) (simp_all add: decode_wire)

lemma event_wf_decoded: "ev \<in> set (decoded recs) \<Longrightarrow> event_wf ev"
  by (induction recs) (auto dest: decode_event_wf split: option.splits)

text \<open>
  C1: from tracepoints to statistics: whatever tracepoints fired and whatever the kernel's helpers
  returned, the records then in the ring buffer, with any padding bytes, all decode; the collector
  counts each as received and none as lost; and the aggregator it feeds holds the aggregation of
  exactly the submitted events, classified, in their order.
\<close>

theorem kernel_to_aggregator:
  assumes "reachable ro st" "map stored_event xs = events st"
    and "\<forall>x \<in> set xs. length (fst x) = 4 \<and> length (fst (snd x)) = 4"
  shows "let (c, agg) = fold handle_event (map wire xs)
           (set_callback (Some aggregate_callback) Collector_init, Aggregator_init)
         in agg = aggregate (map classified (events st)) \<and>
            events_received c = of_nat (length (events st)) \<and> events_lost c = 0"
proof -
  have "event_wf ev" if "ev \<in> set (events st)" for ev
    using inv_reachable [OF assms(1)] that by (auto simp: bpf_inv_def record_ok_def list_all_iff)
  then have "event_wf (stored_event x)" if "x \<in> set xs" for x
    using that unfolding assms(2) [symmetric] by simp
  then have "\<forall>x \<in> set xs. stored_wf x"
    using assms(3) by (auto simp: stored_wf_def stored_event_def)
  then have "decoded (map wire xs) = events st" using assms(2) by (simp add: decoded_wire)
  moreover have "length xs = length (events st)" using assms(2) by (metis length_map)
  ultimately show ?thesis
    by (simp add: handle_events set_callback_def Collector_init_def call_Some fold_aggregate_callback
        aggregate_def events_received_def events_lost_def)
qed

theorem kernel_to_aggregator_witness:
  "\<exists>st e. reachable rodata_default st \<and> events st = [e] \<and>
     snd (fold handle_event [wire ([1, 2, 3, 4], [5, 6, 7, 8], e)]
       (set_callback (Some aggregate_callback) Collector_init, Aggregator_init)) = aggregate [classified e]"
proof -
  let ?st = "fire rodata_default (task_helpers 7 250000) SysExit
      (fire rodata_default (task_helpers 7 100000) (SysEnter 35) BpfState_init)"
  have r: "reachable rodata_default ?st" by (intro fired loaded task_helpers_wf)
  obtain e where e: "events ?st = [e]" by (simp add: bpf_run_simps)
  have "snd (fold handle_event (map wire [([1, 2, 3, 4], [5, 6, 7, 8], e)])
       (set_callback (Some aggregate_callback) Collector_init, Aggregator_init)) = aggregate (map classified [e])"
    using kernel_to_aggregator [OF r, of "[([1, 2, 3, 4], [5, 6, 7, 8], e)]"]
    unfolding e by (simp add: case_prod_beta Let_def)
  then show ?thesis using r e by auto
qed

section \<open>Recording and replaying\<close>

lemma record_callback_stored:
  assumes "\<And>ev r. length (fst (pads ev r)) = 4 \<and> length (snd (pads ev r)) = 4"
    and "\<forall>ev \<in> set evs. event_wf ev"
  shows "\<exists>xs. map stored_event xs = map classified evs \<and> (\<forall>x \<in> set xs. stored_wf x) \<and>
    fold (record_callback bufsiz room pads) evs r = fold (record_stored bufsiz room) xs r"
  using assms(2)
proof (induction evs arbitrary: r)
  case Nil
  then show ?case by simp
next
  case (Cons ev evs)
  obtain p q where pq: "pads ev r = (p, q)" by fastforce
  let ?x = "(p, q, classified ev)"
  obtain xs where "map stored_event xs = map classified evs" "\<forall>x \<in> set xs. stored_wf x"
    "fold (record_callback bufsiz room pads) evs (record_callback bufsiz room pads ev r) =
     fold (record_stored bufsiz room) xs (record_callback bufsiz room pads ev r)"
    using Cons.IH [of "record_callback bufsiz room pads ev r"] Cons.prems by auto
  moreover have "record_callback bufsiz room pads ev r = record_stored bufsiz room ?x r"
    by (simp add: record_callback_def record_stored_def pq)
  moreover have "stored_wf ?x"
    using assms(1) [of ev r] Cons.prems by (simp add: pq stored_wf_def)
  ultimately show ?case
    by (intro exI [of _ "?x # xs"]) simp
qed

lemma run_replay_prefix:
  assumes "\<forall>x \<in> set xs. stored_wf x" "sizeof_header \<le> k"
    and "w_fopen_rb w (cfg_replay_file cfg) = Some (take k (header_bytes (make_header now wall) @ concat (map frame xs)))"
  shows "let evs = map stored_event (take ((k - sizeof_header) div frame_size) xs); n = of_nat (length evs); od = w_orders w in
    run_replay w cfg =
      printed [LogInfo (''Opened KSR file: '' @ cfg_replay_file cfg), LogInfo (''Replayed '' @ to_string (unat n) @ '' events'')]
        (replay_report (w_dump w) (or_psrt od) (or_ssrt od) (or_piter od) (or_siter od) cfg n (aggregate evs))"
proof -
  let ?h = "header_bytes (make_header now wall)"
  have "take k (?h @ concat (map frame xs)) = ?h @ take (k - sizeof_header) (concat (map frame xs))"
    using assms(2) by simp
  moreover have "header_at ?h = make_header now wall"
    using header_at_bytes [of "make_header now wall" "[]"] by simp
  ultimately show ?thesis
    by (simp add: run_replay_def assms(3) replay_open_def ReplaySource_init_def replay_def replay_close_def
        replay_loop_stream [OF assms(1)] Let_def call_Some aggregate_def replay_open_log_def replay_log_def)
qed

text \<open>
  C2: a recorded session analyses like a live one: when the record command ends, on a device of any capacity
  that holds the header and with a stream buffer of any size, it exits with code 0 and leaves a file; in any
  later run that reads this file, under any options, the replay command succeeds and reports on the
  aggregation of exactly the polled events, classified, whose frames fitted on the device, which are all of
  them if it is large enough. The number of events the record command reports is at least that number and
  at most the number of polled events, so it is the number of events replayed unless the device ran full.
\<close>

theorem record_then_replay:
  fixes w :: "'k World"
  assumes "setup_bpf (w_libbpf w) (w_pidns w) cfg None = (Inr (), loader)"
    and "0 \<le> ringbuf_fd (w_libbpf w) loader" "w_ring_buffer w"
    and "\<And>ev r. length (fst (w_pads w ev r)) = 4 \<and> length (snd (w_pads w ev r)) = 4"
    and "w_room w = capacity cap" "sizeof_header \<le> cap" "w_fopen_wb w (cfg_record_file cfg)"
    and "list_ex (stops (cfg_duration_sec cfg) (w_t0 w)) (w_turns w)"
  shows "let polled = map classified (handled_events (polled_turns (cfg_duration_sec cfg) (w_t0 w) (w_turns w)));
       evs = take ((cap - sizeof_header) div frame_size) polled;
       n = of_nat (length evs) :: u64; path = cfg_record_file cfg in
    \<exists>file log m. length evs \<le> m \<and> m \<le> length polled \<and>
      run_record w cfg = Exited \<lparr>out_code = 0,
        out_stdout = ''Recorded '' @ to_string (unat (of_nat m :: u64)) @ '' events to '' @ c_str path @ newline,
        out_log = log, out_file = Some (Recording path file)\<rparr> \<and>
      (\<forall>(w' :: 'j World) cfg'. w_fopen_rb w' (cfg_replay_file cfg') = Some file \<longrightarrow>
        run_replay w' cfg' = printed
          [LogInfo (''Opened KSR file: '' @ cfg_replay_file cfg'), LogInfo (''Replayed '' @ to_string (unat n) @ '' events'')]
          (let od = w_orders w' in replay_report (w_dump w') (or_psrt od) (or_ssrt od) (or_piter od) (or_siter od) cfg' n
             (aggregate evs)))"
proof -
  let ?cb = "record_callback (w_bufsiz w) (capacity cap) (w_pads w)" and ?path = "cfg_record_file cfg"
  let ?evs = "handled_events (polled_turns (cfg_duration_sec cfg) (w_t0 w) (w_turns w))"
  let ?h = "header_bytes (make_header (w_now w) (w_wall w))" and ?k = "(cap - sizeof_header) div frame_size"
  obtain c where c: "collector_start (w_libbpf w) loader (w_ring_buffer w) (set_callback (Some ?cb) Collector_init) = (Inr (), c)"
    "running c" "co_callback c = Some ?cb"
    using collector_start_init [OF assms(2,3)] by blast
  obtain r where r: "recorder_open True (w_strerror w) (w_bufsiz w) (capacity cap) (w_now w) (w_wall w) ?path Recorder_init = (Inr (), r)"
    "recorded cap sizeof_header [] ?h r"
    using recorder_opens [OF assms(6)] by blast
  have "\<forall>ev \<in> set ?evs. event_wf ev" by (simp add: handled_events_def event_wf_decoded)
  then obtain xs where xs: "map stored_event xs = map classified ?evs" "\<forall>x \<in> set xs. stored_wf x"
    "fold ?cb ?evs r = fold (record_stored (w_bufsiz w) (capacity cap)) xs r"
    using record_callback_stored [of "w_pads w" ?evs "w_bufsiz w" "capacity cap" r] assms(4) by blast
  let ?r = "fold (record_stored (w_bufsiz w) (capacity cap)) xs r" and ?file = "take cap (?h @ concat (map frame xs))"
  have len_h: "length ?h = sizeof_header" by simp
  note left = recorded_closed [OF recorded_stream [OF xs(2), of cap ?h r "w_bufsiz w", unfolded len_h, OF r(2)]]
  obtain m where m: "rec_events_written ?r = of_nat m" "min (length xs) ?k \<le> m" "m \<le> length xs"
    using left(2) by blast
  note loop = poll_loop_result [OF c(2), of "cfg_duration_sec cfg" "w_t0 w" "w_turns w" r]
  obtain ks where run: "run_record w cfg = Exited \<lparr>out_code = 0,
      out_stdout = ''Recorded '' @ to_string (unat (of_nat m :: u64)) @ '' events to '' @ c_str ?path @ newline,
      out_log = ks, out_file = Some (Recording ?path ?file)\<rparr>"
    unfolding run_record_def Let_def assms(5)
    by (simp only: assms(1,7,8) r(1) c(1) fst_conv snd_conv sum.case case_prod_beta loop c(3) call_Some
        xs(3) if_True recorded_line_def recording_def left(1)) (simp add: recorder_close_def m(1))
  have len: "length xs = length ?evs" using xs(1) by (metis length_map)
  have evs: "map stored_event (take ?k xs) = take ?k (map classified ?evs)"
    using xs(1) by (simp flip: take_map)
  have bounds: "length (take ?k (map classified ?evs)) \<le> m" "m \<le> length (map classified ?evs)"
    using m(2,3) by (simp_all add: len)
  have "run_replay v cfg' = printed
      [LogInfo (''Opened KSR file: '' @ cfg_replay_file cfg'),
       LogInfo (''Replayed '' @ to_string (unat (of_nat (length (take ?k (map classified ?evs))) :: u64)) @ '' events'')]
      (let od = w_orders v in replay_report (w_dump v) (or_psrt od) (or_ssrt od) (or_piter od) (or_siter od) cfg'
        (of_nat (length (take ?k (map classified ?evs)))) (aggregate (take ?k (map classified ?evs))))"
    if "w_fopen_rb v (cfg_replay_file cfg') = Some ?file" for v :: "'j World" and cfg'
    using run_replay_prefix [OF xs(2) assms(6) that] unfolding Let_def evs .
  with run bounds show ?thesis unfolding Let_def by blast
qed

theorem record_then_replay_witness:
  "\<exists>file log. run_record (willing_world [turn_at [wire ([1, 2, 3, 4], [5, 6, 7, 8], slow_read 7 99)] 2000000001])
       (Config_init\<lparr>cfg_duration_sec := 1, cfg_record_file := ''s.ksr''\<rparr>) = Exited \<lparr>out_code = 0,
         out_stdout = ''Recorded 1 events to s.ksr'' @ newline, out_log = log, out_file = Some (Recording ''s.ksr'' file)\<rparr> \<and>
     run_replay ((willing_world [])\<lparr>w_fopen_rb := \<lambda>_. Some file\<rparr>) Config_init =
       printed [LogInfo ''Opened KSR file: '', LogInfo ''Replayed 1 events'']
         (replay_report (\<lambda>_. Some ''{}'') insertion_sort insertion_sort id id Config_init 1
           (aggregate [classified (slow_read 7 99)]))"
proof -
  let ?cfg = "Config_init\<lparr>cfg_duration_sec := 1, cfg_record_file := ''s.ksr''\<rparr>"
  let ?x = "([1, 2, 3, 4], [5, 6, 7, 8], slow_read 7 99)"
  let ?is = "[turn_at [wire ?x] 2000000001]"
  let ?w = "willing_world ?is"
  obtain sk where sk: "setup_bpf (w_libbpf ?w) (w_pidns ?w) ?cfg None = (Inr (), Some sk)"
    "0 \<le> ringbuf_fd (w_libbpf ?w) (Some sk)" "w_ring_buffer ?w"
    using setup_willing_world by blast
  have stop: "stops 1 1 (turn_at [wire ?x] 2000000001)"
    by (simp add: stops_def turn_at_def expired_def sec_to_ns_def)
  have "decode_event (wire ?x) = Some (slow_read 7 99)"
    using decode_wire [of ?x] by (simp add: stored_wf_def)
  then have evs: "handled_events (polled_turns 1 1 ?is) = [slow_read 7 99]"
    using stop by (simp add: polled_turns_def) (simp add: turn_at_def)
  have world: "w_t0 ?w = 1" "w_turns ?w = ?is" "w_room ?w = capacity 1000" "w_fopen_wb ?w p"
    "length (fst (w_pads ?w ev r)) = 4 \<and> length (snd (w_pads ?w ev r)) = 4" for p ev r
    by (simp_all add: willing_world_def capacity_def fun_eq_iff)
  have "sizeof_header \<le> 1000" by (simp add: sizeof_header_def)
  note session = record_then_replay [OF sk world(5,3) this world(4), where ?'j = unit]
  have cfg: "cfg_duration_sec ?cfg = 1" "cfg_record_file ?cfg = ''s.ksr''"
    by (simp_all add: Config_init_def)
  have one: "take ((1000 - sizeof_header) div frame_size) (map classified [slow_read 7 99]) = [classified (slow_read 7 99)]"
    by (simp add: sizeof_header_def frame_size_def sizeof_event_def)
  have str: "to_string (unat (of_nat (length [classified (slow_read 7 99)]) :: u64)) = ''1''" "c_str ''s.ksr'' = ''s.ksr''"
    by code_simp+
  have "list_ex (stops (cfg_duration_sec ?cfg) (w_t0 ?w)) (w_turns ?w)" using stop by (simp add: world cfg)
  note session [OF this, unfolded Let_def world cfg evs one]
  then obtain recorded log m where m: "length [classified (slow_read 7 99)] \<le> m" "m \<le> length (map classified [slow_read 7 99])" and
    f: "run_record ?w ?cfg = Exited \<lparr>out_code = 0,
         out_stdout = ''Recorded '' @ to_string (unat (of_nat m :: u64)) @ '' events to '' @ c_str ''s.ksr'' @ newline, out_log = log,
         out_file = Some (Recording ''s.ksr'' recorded)\<rparr>" and
    g: "\<And>(w' :: unit World) cfg'. w_fopen_rb w' (cfg_replay_file cfg') = Some recorded \<Longrightarrow> run_replay w' cfg' = printed
          [LogInfo (''Opened KSR file: '' @ cfg_replay_file cfg'), LogInfo (''Replayed '' @ to_string (unat (of_nat (length [classified (slow_read 7 99)]) :: u64)) @ '' events'')]
          (replay_report (w_dump w') (or_psrt (w_orders w')) (or_ssrt (w_orders w')) (or_piter (w_orders w'))
             (or_siter (w_orders w')) cfg' (of_nat (length [classified (slow_read 7 99)])) (aggregate [classified (slow_read 7 99)]))"
    by blast
  have "m = length [classified (slow_read 7 99)]" using m by simp
  note f = f [unfolded this str] and g = g [unfolded str]
  show ?thesis
    using f g [of "(willing_world [])\<lparr>w_fopen_rb := \<lambda>_. Some recorded\<rparr>" Config_init]
    by (intro exI [of _ recorded] exI [of _ log] conjI)
       (simp_all add: willing_world_def listed_orders_def Config_init_def)
qed

end
